(* ===== verification/Prelude.thy ===== *)
theory Prelude
  imports Main "HOL-Library.Word" "HOL-Library.AList" "HOL-Library.Char_ord"
    "HOL-Library.List_Lexorder" "HOL-Library.Signed_Division"
begin

text \<open>
  Shared vocabulary of the development: results that are an error or a value, Go maps as
  association lists with distinct keys, \<open>time.Time\<close> and \<open>time.Duration\<close>, unsigned 64-bit
  counters, and the generic lemmas on lists that the component theories use.
\<close>

section \<open>Lemma collections\<close>

named_theorems gomap_simps \<open>lookup and domain facts of Go maps\<close>
named_theorems gotime_simps \<open>unfolding of the time operations\<close>

section \<open>Results\<close>

text \<open>
  A Go function that returns \<open>(T, error)\<close> yields \<open>Err e\<close> when the error is not nil and
  \<open>Ok x\<close> otherwise.
\<close>

abbreviation Err :: "'e \<Rightarrow> 'e + 'a" where
  "Err \<equiv> Inl"

abbreviation Ok :: "'a \<Rightarrow> 'e + 'a" where
  "Ok \<equiv> Inr"

definition is_Ok :: "'e + 'a \<Rightarrow> bool" where
  "is_Ok r = (case r of Inl _ \<Rightarrow> False | Inr _ \<Rightarrow> True)"

lemma is_Ok_simps [simp]:
  "is_Ok (Ok x)"
  "\<not> is_Ok (Err e)"
  by (simp_all add: is_Ok_def)

lemma is_Ok_iff: "is_Ok r \<longleftrightarrow> (\<exists>x. r = Ok x)"
  by (cases r) (simp_all add: is_Ok_def)

section \<open>Machine integers\<close>

type_synonym u64 = "64 word"
type_synonym u32 = "32 word"

lemma unat_u64_Suc: "unat (n :: u64) < 2 ^ 64 - 1 \<Longrightarrow> unat (n + 1) = Suc (unat n)"
  by (subst unat_plus_if') simp

lemma u64_less_Suc: "n \<noteq> - 1 \<Longrightarrow> (n :: u64) < n + 1"
  by (metis inc_less_eq_triv_imp linorder_less_linear word_le_less_eq)

lemma sdiv_int_nonneg:
  "0 \<le> (a :: int) \<Longrightarrow> 0 < b \<Longrightarrow> a sdiv b = a div b"
  "0 \<le> (a :: int) \<Longrightarrow> 0 < b \<Longrightarrow> a smod b = a mod b"
  by (simp_all add: signed_divide_int_def signed_modulo_int_def sgn_if)

section \<open>Time\<close>

text \<open>
  A \<open>time.Time\<close> is its distance in nanoseconds from Go's zero time, so \<open>IsZero\<close> is
  equality with 0. \<open>Sub\<close> saturates at the range of the 64-bit \<open>time.Duration\<close>, as the
  library documents; \<open>Add\<close> is exact.
\<close>

type_synonym go_time = int
type_synonym duration = int

definition minDuration :: duration where "minDuration = - (2 ^ 63)"
definition maxDuration :: duration where "maxDuration = 2 ^ 63 - 1"

definition time_IsZero :: "go_time \<Rightarrow> bool" where
  [gotime_simps]: "time_IsZero t \<longleftrightarrow> t = 0"

definition time_Before :: "go_time \<Rightarrow> go_time \<Rightarrow> bool" where
  [gotime_simps]: "time_Before t u \<longleftrightarrow> t < u"

definition time_After :: "go_time \<Rightarrow> go_time \<Rightarrow> bool" where
  [gotime_simps]: "time_After t u \<longleftrightarrow> u < t"

definition time_Add :: "go_time \<Rightarrow> duration \<Rightarrow> go_time" where
  [gotime_simps]: "time_Add t d = t + d"

definition time_Sub :: "go_time \<Rightarrow> go_time \<Rightarrow> duration" where
  "time_Sub t u = max minDuration (min maxDuration (t - u))"

lemma time_Sub_exact:
  "minDuration \<le> t - u \<Longrightarrow> t - u \<le> maxDuration \<Longrightarrow> time_Sub t u = t - u"
  by (simp add: time_Sub_def)

lemma time_Sub_nonneg: "u \<le> t \<Longrightarrow> 0 \<le> time_Sub t u"
  by (simp add: time_Sub_def minDuration_def maxDuration_def)

lemma time_Sub_self [simp]: "time_Sub t t = 0"
  by (simp add: time_Sub_def minDuration_def maxDuration_def)

definition nanosecond :: duration where "nanosecond = 1"
definition microsecond :: duration where "microsecond = 1000"
definition millisecond :: duration where "millisecond = 1000000"
definition second :: duration where "second = 1000000000"
definition minute :: duration where "minute = 60 * second"
definition hour :: duration where "hour = 60 * minute"

lemmas duration_defs = nanosecond_def microsecond_def millisecond_def second_def
  minute_def hour_def

section \<open>Go maps\<close>

text \<open>
  A Go map is an association list whose keys are distinct; its order stands for the
  unspecified iteration order and no definition depends on it without sorting first.
\<close>

type_synonym ('k, 'v) gomap = "('k \<times> 'v) list"

abbreviation gm_get :: "('k, 'v) gomap \<Rightarrow> 'k \<Rightarrow> 'v option" where
  "gm_get \<equiv> map_of"

abbreviation gm_put :: "'k \<Rightarrow> 'v \<Rightarrow> ('k, 'v) gomap \<Rightarrow> ('k, 'v) gomap" where
  "gm_put \<equiv> AList.update"

abbreviation gm_del :: "'k \<Rightarrow> ('k, 'v) gomap \<Rightarrow> ('k, 'v) gomap" where
  "gm_del \<equiv> AList.delete"

abbreviation gm_keys :: "('k, 'v) gomap \<Rightarrow> 'k list" where
  "gm_keys m \<equiv> map fst m"

definition gm_wf :: "('k, 'v) gomap \<Rightarrow> bool" where
  "gm_wf m \<longleftrightarrow> distinct (gm_keys m)"

text \<open>Indexing a map of numbers with an absent key gives the zero value.\<close>

definition gm_get0 :: "('k, 'v :: zero) gomap \<Rightarrow> 'k \<Rightarrow> 'v" where
  "gm_get0 m k = (case gm_get m k of None \<Rightarrow> 0 | Some v \<Rightarrow> v)"

lemma gm_get_put [simp, gomap_simps]:
  "gm_get (gm_put k v m) k' = (if k' = k then Some v else gm_get m k')"
  by (simp add: update_conv')

lemma gm_get_del [simp, gomap_simps]:
  "gm_get (gm_del k m) k' = (if k' = k then None else gm_get m k')"
  by (simp add: delete_conv')

lemma gm_get0_put [simp, gomap_simps]:
  "gm_get0 (gm_put k v m) k' = (if k' = k then v else gm_get0 m k')"
  by (simp add: gm_get0_def)

lemma gm_wf_Nil [simp]: "gm_wf []"
  by (simp add: gm_wf_def)

lemma gm_wf_put [simp, intro]: "gm_wf m \<Longrightarrow> gm_wf (gm_put k v m)"
  by (simp add: gm_wf_def distinct_update)

lemma gm_wf_del [simp, intro]: "gm_wf m \<Longrightarrow> gm_wf (gm_del k m)"
  by (simp add: gm_wf_def distinct_delete)

lemma gm_keys_put: "set (gm_keys (gm_put k v m)) = insert k (set (gm_keys m))"
  by (simp add: dom_update)

lemma gm_get_in_keys: "gm_get m k = Some v \<Longrightarrow> k \<in> set (gm_keys m)"
  by (metis domI dom_map_of_conv_image_fst list.set_map)

lemma gm_keys_get: "k \<in> set (gm_keys m) \<longleftrightarrow> (\<exists>v. gm_get m k = Some v)"
  by (metis domD domI dom_map_of_conv_image_fst list.set_map)

lemma gm_get_None_iff: "gm_get m k = None \<longleftrightarrow> k \<notin> set (gm_keys m)"
  by (metis gm_keys_get not_None_eq)

lemma gm_mem_get: "gm_wf m \<Longrightarrow> (k, v) \<in> set m \<longleftrightarrow> gm_get m k = Some v"
  by (simp add: gm_wf_def)

lemma gm_update_keys_mem [simp]:
  "k \<in> set (gm_keys m) \<Longrightarrow> gm_keys (gm_put k v m) = gm_keys m"
  by (induction m) auto

lemma length_gm_put_old: "k \<in> set (gm_keys m) \<Longrightarrow> length (gm_put k v m) = length m"
  by (metis gm_update_keys_mem length_map)

section \<open>Lists\<close>

lemma split_at_unique:
  assumes "xs @ d # ys = xs' @ d # ys'" and "d \<notin> set xs" and "d \<notin> set xs'"
  shows "xs = xs' \<and> ys = ys'"
  using assms
proof (induction xs arbitrary: xs')
  case Nil
  then show ?case by (cases xs') auto
next
  case (Cons x xs)
  then show ?case by (cases xs') auto
qed

section \<open>Searching a list\<close>

lemma find_map: "find P (map f xs) = map_option f (find (P \<circ> f) xs)"
  by (induction xs) auto

lemma find_SomeD: "find P xs = Some x \<Longrightarrow> x \<in> set xs \<and> P x"
  by (induction xs) (auto split: if_splits)

lemma find_cong_set: "(\<And>x. x \<in> set xs \<Longrightarrow> P x = Q x) \<Longrightarrow> find P xs = find Q xs"
  by (induction xs) auto

lemma find_notin: "k \<notin> f ` set xs \<Longrightarrow> find (\<lambda>r. f r = k) xs = None"
  by (auto simp: find_None_iff)

lemma gm_get_fold_put:
  "distinct (map f rs) \<Longrightarrow> gm_get (fold (\<lambda>r. gm_put (f r) (g r)) rs acc) k =
     (case find (\<lambda>r. f r = k) rs of Some r \<Rightarrow> Some (g r) | None \<Rightarrow> gm_get acc k)"
  by (induction rs arbitrary: acc) (auto simp: gm_get_put find_notin split: option.splits)

lemma length_filter_update:
  "i < length xs \<Longrightarrow> \<not> P y \<Longrightarrow>
     length (filter P xs) = length (filter P (xs[i := y])) + (if P (xs ! i) then 1 else 0)"
proof (induction xs arbitrary: i)
  case (Cons x xs)
  then show ?case by (cases i) auto
qed simp

lemma length_filter_same:
  "i < length xs \<Longrightarrow> P y = P (xs ! i) \<Longrightarrow> length (filter P (xs[i := y])) = length (filter P xs)"
proof (induction xs arbitrary: i)
  case (Cons x xs)
  then show ?case by (cases i) auto
qed simp

lemma list_all_update: "list_all P xs \<Longrightarrow> P y \<Longrightarrow> list_all P (xs[i := y])"
  by (cases "i < length xs") (simp_all add: list_all_length nth_list_update)

lemma length_remove1_Suc: "x \<in> set xs \<Longrightarrow> length xs = Suc (length (remove1 x xs))"
  by (induction xs) auto

section \<open>Runs of a component\<close>

text \<open>
  A component is driven by a sequence of operations, each allowed in the state it meets.
  An invariant every allowed operation keeps holds along every allowed run; the components
  interpret this interface with their own operations.
\<close>

fun run :: "('s \<Rightarrow> 'o \<Rightarrow> 's) \<Rightarrow> 's \<Rightarrow> 'o list \<Rightarrow> 's" where
  "run step s [] = s"
| "run step s (op # ops) = run step (step s op) ops"

fun run_ok :: "('s \<Rightarrow> 'o \<Rightarrow> 's) \<Rightarrow> ('s \<Rightarrow> 'o \<Rightarrow> bool) \<Rightarrow> 's \<Rightarrow> 'o list \<Rightarrow> bool" where
  "run_ok step guard s [] = True"
| "run_ok step guard s (op # ops) = (guard s op \<and> run_ok step guard (step s op) ops)"

locale guarded_machine =
  fixes step :: "'s \<Rightarrow> 'o \<Rightarrow> 's" and guard :: "'s \<Rightarrow> 'o \<Rightarrow> bool" and inv :: "'s \<Rightarrow> bool"
  assumes step_inv: "inv s \<Longrightarrow> guard s op \<Longrightarrow> inv (step s op)"
begin

lemma run_inv: "inv s \<Longrightarrow> run_ok step guard s ops \<Longrightarrow> inv (run step s ops)"
  by (induction ops arbitrary: s) (auto intro: step_inv)

end

lemma run_append: "run step s (xs @ ys) = run step (run step s xs) ys"
  by (induction xs arbitrary: s) simp_all

lemma run_ok_append:
  "run_ok step guard s (xs @ ys) \<longleftrightarrow> run_ok step guard s xs \<and> run_ok step guard (run step s xs) ys"
  by (induction xs arbitrary: s) simp_all

lemma run_ok_True [simp]: "run_ok step (\<lambda>_ _. True) s ops"
  by (induction ops arbitrary: s) simp_all

end
