(* ===== verification/Float64.thy ===== *)
theory Float64
  imports Complex_Main "HOL-Library.Log_Nat" Prelude
begin

text \<open>
  Go's \<open>float64\<close>: finite binary64 values as rationals, the two infinities and NaN, with
  every arithmetic result rounded to nearest, ties to even, subnormals included. The two
  zeros are one value. The rounding is executable, and it is an instance of the interface
  \<open>rounding\<close> over which the consumers' arithmetic facts are proved once.
\<close>

section \<open>Rounding to integers\<close>

text \<open>Round to nearest, ties to even.\<close>

definition rne :: "rat \<Rightarrow> int" where
  "rne x = (let f = \<lfloor>x\<rfloor>; d = x - of_int f in
     if d < 1 / 2 then f else if d > 1 / 2 then f + 1
     else if even f then f else f + 1)"

lemma rne_of_int [simp]: "rne (of_int n) = n"
  by (simp add: rne_def)

lemma rne_bounds: "\<lfloor>x\<rfloor> \<le> rne x" "rne x \<le> \<lfloor>x\<rfloor> + 1"
  by (simp_all add: rne_def Let_def)

lemma rne_mono: "x \<le> y \<Longrightarrow> rne x \<le> rne y"
proof -
  assume le: "x \<le> y"
  show ?thesis
  proof (cases "\<lfloor>x\<rfloor> = \<lfloor>y\<rfloor>")
    case True
    with le show ?thesis by (auto simp: rne_def Let_def)
  next
    case False
    with le have "\<lfloor>x\<rfloor> + 1 \<le> \<lfloor>y\<rfloor>"
      using floor_mono [OF le] by linarith
    with rne_bounds [of x] rne_bounds [of y] show ?thesis by linarith
  qed
qed

lemma rne_ge: "of_int n \<le> x \<Longrightarrow> n \<le> rne x"
  using rne_mono [of "of_int n" x] by simp

lemma rne_le: "x \<le> of_int n \<Longrightarrow> rne x \<le> n"
  using rne_mono [of x "of_int n"] by simp

section \<open>Binary exponents\<close>

definition ilog2 :: "rat \<Rightarrow> int" where
  "ilog2 q = (let (a, b) = quotient_of q;
                  e = int (floorlog 2 (nat a)) - int (floorlog 2 (nat b))
              in if 2 powi e \<le> q then e else e - 1)"

lemma pow2_pos [simp]: "0 < (2 :: rat) powi k"
  by (simp add: zero_less_power_int)

lemma pow2_mono: "k \<le> l \<Longrightarrow> (2 :: rat) powi k \<le> 2 powi l"
  by (simp add: power_int_increasing)

lemma pow2_less_iff [simp]: "(2 :: rat) powi k < 2 powi l \<longleftrightarrow> k < l"
proof -
  have "(2 :: rat) powi k < 2 powi l" if "k < l"
    using that by (simp add: power_int_strict_increasing)
  moreover have "(2 :: rat) powi l \<le> 2 powi k" if "l \<le> k"
    using that by (rule pow2_mono)
  ultimately show ?thesis by (meson linorder_not_less)
qed

lemma pow2_add: "(2 :: rat) powi (k + l) = 2 powi k * 2 powi l"
  by (simp add: power_int_add)

lemma pow2_diff: "(2 :: rat) powi (k - l) = 2 powi k / 2 powi l"
  by (simp add: power_int_diff)

lemma pow2_of_nat: "(2 :: rat) powi (int n) = of_int (2 ^ n)"
  by simp

lemma pow2_div_int:
  assumes "l \<le> k"
  shows "(2 :: rat) powi k / 2 powi l = of_int (2 ^ nat (k - l))"
proof -
  have "(2 :: rat) powi k / 2 powi l = 2 powi (int (nat (k - l)))"
    using assms by (simp only: pow2_diff [symmetric]) simp
  then show ?thesis by (simp only: pow2_of_nat)
qed

lemma pow2_scale_mono: "m \<le> n \<Longrightarrow> of_int m * (2 :: rat) powi k \<le> of_int n * 2 powi k"
  by (rule mult_right_mono) (simp_all add: less_imp_le)

lemma floorlog_powi:
  assumes "0 < n"
  shows "2 powi (int (floorlog 2 n) - 1) \<le> (of_nat n :: rat)"
    and "(of_nat n :: rat) < 2 powi (int (floorlog 2 n))"
proof -
  have pos: "0 < floorlog 2 n" using assms by (simp add: floorlog_def)
  have b: "2 ^ (floorlog 2 n - 1) \<le> n" "n < 2 ^ floorlog 2 n"
    using floorlog_bounds [of n 2] assms by simp_all
  have eq: "int (floorlog 2 n) - 1 = int (floorlog 2 n - 1)" using pos by simp
  have "2 powi (int (floorlog 2 n) - 1) = (of_nat (2 ^ (floorlog 2 n - 1)) :: rat)"
    unfolding eq pow2_of_nat by simp
  also have "\<dots> \<le> of_nat n" using b(1) by (simp only: of_nat_le_iff)
  finally show "2 powi (int (floorlog 2 n) - 1) \<le> (of_nat n :: rat)" .
  have "(of_nat n :: rat) < of_nat (2 ^ floorlog 2 n)" using b(2) by (simp only: of_nat_less_iff)
  then show "(of_nat n :: rat) < 2 powi (int (floorlog 2 n))"
    unfolding pow2_of_nat by simp
qed

lemma ilog2_bounds:
  assumes "0 < q"
  shows "2 powi (ilog2 q) \<le> q" and "q < 2 powi (ilog2 q + 1)"
proof -
  obtain a b where ab: "quotient_of q = (a, b)" by (cases "quotient_of q")
  have b: "0 < b" using quotient_of_denom_pos [OF ab] .
  have q: "q = of_int a / of_int b" using quotient_of_div [OF ab] .
  have a: "0 < a" using assms b q by (simp add: zero_less_divide_iff)
  define la lb where "la = int (floorlog 2 (nat a))" and "lb = int (floorlog 2 (nat b))"
  have A: "2 powi (la - 1) \<le> (of_int a :: rat)" "(of_int a :: rat) < 2 powi la"
    using floorlog_powi [of "nat a"] a by (simp_all add: la_def)
  have B: "2 powi (lb - 1) \<le> (of_int b :: rat)" "(of_int b :: rat) < 2 powi lb"
    using floorlog_powi [of "nat b"] b by (simp_all add: lb_def)
  have up: "q < 2 powi (la - lb + 1)"
  proof -
    have "q \<le> of_int a / 2 powi (lb - 1)"
      unfolding q using B a b by (intro divide_left_mono) (auto intro: mult_pos_pos)
    also have "\<dots> < 2 powi la / 2 powi (lb - 1)"
      using A by (simp add: divide_strict_right_mono)
    also have "\<dots> = 2 powi (la - lb + 1)"
      by (simp add: pow2_diff [symmetric] algebra_simps)
    finally show ?thesis .
  qed
  have low: "2 powi (la - lb - 1) \<le> q"
  proof -
    have "2 powi (la - lb - 1) = (2 :: rat) powi (la - 1) / 2 powi lb"
      by (simp add: pow2_diff [symmetric] algebra_simps)
    also have "\<dots> \<le> of_int a / of_int b"
      using A B a b by (intro frac_le) auto
    finally show ?thesis unfolding q .
  qed
  have e: "ilog2 q = (if 2 powi (la - lb) \<le> q then la - lb else la - lb - 1)"
    by (simp add: ilog2_def ab la_def lb_def)
  show "2 powi (ilog2 q) \<le> q" using low by (auto simp: e)
  show "q < 2 powi (ilog2 q + 1)" using up by (auto simp: e)
qed

lemma ilog2_mono: "0 < p \<Longrightarrow> p \<le> q \<Longrightarrow> ilog2 p \<le> ilog2 q"
proof -
  assume "0 < p" "p \<le> q"
  then have "2 powi (ilog2 p) < (2 :: rat) powi (ilog2 q + 1)"
    using ilog2_bounds [of p] ilog2_bounds [of q] by (meson less_le_trans order_le_less_trans)
  then show ?thesis by simp
qed

section \<open>Rounding to binary64\<close>

text \<open>
  \<open>qexp q\<close> is the exponent of the last significand bit at the magnitude of \<open>q\<close>: 53
  significant bits, and never below the subnormal quantum of binary64.
\<close>

definition qexp :: "rat \<Rightarrow> int" where
  "qexp q = max (ilog2 q - 52) (- 1074)"

definition round_pos :: "rat \<Rightarrow> rat" where
  "round_pos q = of_int (rne (q / 2 powi qexp q)) * 2 powi qexp q"

definition round64 :: "rat \<Rightarrow> rat" where
  "round64 q = (if q = 0 then 0 else if q < 0 then - round_pos (- q) else round_pos q)"

text \<open>The rationals binary64 holds exactly (up to the upper exponent limit).\<close>

definition representable :: "rat \<Rightarrow> bool" where
  "representable x \<longleftrightarrow> (\<exists>m k. x = of_int m * 2 powi k \<and> \<bar>m\<bar> \<le> 2 ^ 53 \<and> - 1074 \<le> k)"

lemma round_pos_of_multiple:
  assumes "q = of_int n * 2 powi qexp q"
  shows "round_pos q = q"
proof -
  have "q / 2 powi qexp q = of_int n"
    using assms by (metis nonzero_mult_div_cancel_right pow2_pos less_irrefl)
  then show ?thesis using assms by (simp add: round_pos_def)
qed

lemma round_pos_mono:
  assumes "0 < p" and "p \<le> q"
  shows "round_pos p \<le> round_pos q"
proof (cases "qexp p = qexp q")
  case True
  have "p / 2 powi qexp q \<le> q / 2 powi qexp q"
    using assms by (simp add: divide_right_mono less_imp_le)
  then have "rne (p / 2 powi qexp q) \<le> rne (q / 2 powi qexp q)" by (rule rne_mono)
  then show ?thesis by (simp add: round_pos_def True mult_right_mono less_imp_le)
next
  case False
  define e where "e = ilog2 q"
  have le: "ilog2 p \<le> ilog2 q" using assms by (rule ilog2_mono)
  have kq: "qexp q = e - 52" and lt: "ilog2 p < e" and kp: "qexp p \<le> e - 52"
    using False le by (auto simp: qexp_def e_def max_def split: if_splits)
  have "p < 2 powi (ilog2 p + 1)" using assms ilog2_bounds by simp
  also have "\<dots> \<le> 2 powi e" using lt by (intro pow2_mono) simp
  finally have pe: "p \<le> 2 powi e" by simp
  have int_p: "(2 :: rat) powi e / 2 powi qexp p = of_int (2 ^ nat (e - qexp p))"
    using kp by (intro pow2_div_int) simp
  have "p / 2 powi qexp p \<le> of_int (2 ^ nat (e - qexp p))"
    using pe by (simp only: int_p [symmetric]) (simp add: divide_right_mono less_imp_le)
  then have "rne (p / 2 powi qexp p) \<le> 2 ^ nat (e - qexp p)"
    by (rule rne_le)
  then have "round_pos p \<le> of_int (2 ^ nat (e - qexp p)) * 2 powi qexp p"
    unfolding round_pos_def by (rule pow2_scale_mono)
  also have "\<dots> = 2 powi e" by (simp only: int_p [symmetric]) simp
  finally have 1: "round_pos p \<le> 2 powi e" .
  have int_q: "(2 :: rat) powi e / 2 powi qexp q = of_int (2 ^ 52)"
    using pow2_div_int [of "qexp q" e] by (simp add: kq)
  have "of_int (2 ^ 52) \<le> q / 2 powi qexp q"
    using ilog2_bounds(1) [of q] assms
    by (simp only: int_q [symmetric]) (simp add: e_def divide_right_mono less_imp_le)
  then have "2 ^ 52 \<le> rne (q / 2 powi qexp q)"
    by (rule rne_ge)
  then have "of_int (2 ^ 52) * 2 powi qexp q \<le> round_pos q"
    unfolding round_pos_def by (rule pow2_scale_mono)
  then have 2: "2 powi e \<le> round_pos q" by (simp only: int_q [symmetric]) simp
  from 1 2 show ?thesis by simp
qed

lemma round_pos_nonneg: "0 \<le> q \<Longrightarrow> 0 \<le> round_pos q"
proof -
  assume "0 \<le> q"
  then have "of_int 0 \<le> q / 2 powi qexp q" by (simp add: less_imp_le)
  then have "0 \<le> rne (q / 2 powi qexp q)" by (rule rne_ge)
  then show ?thesis by (simp add: round_pos_def less_imp_le)
qed

lemma round64_nonneg: "0 \<le> q \<Longrightarrow> 0 \<le> round64 q"
  by (simp add: round64_def round_pos_nonneg)

lemma round64_nonpos: "q \<le> 0 \<Longrightarrow> round64 q \<le> 0"
  by (simp add: round64_def round_pos_nonneg)

lemma round64_mono: "p \<le> q \<Longrightarrow> round64 p \<le> round64 q"
proof -
  assume le: "p \<le> q"
  consider "0 < p" | "p \<le> 0" "0 \<le> q" | "q < 0" by linarith
  then show ?thesis
  proof cases
    case 1
    with le show ?thesis by (simp add: round64_def round_pos_mono)
  next
    case 2
    then show ?thesis using round64_nonneg round64_nonpos order_trans by blast
  next
    case 3
    with le round_pos_mono [of "- q" "- p"] show ?thesis by (simp add: round64_def)
  qed
qed

lemma round_pos_exact:
  assumes "0 < x" and "representable x"
  shows "round_pos x = x"
proof -
  obtain m k where x: "x = of_int m * 2 powi k" and m: "\<bar>m\<bar> \<le> 2 ^ 53" and k: "- 1074 \<le> k"
    using assms(2) by (auto simp: representable_def)
  define K where "K = qexp x"
  show ?thesis
  proof (cases "K \<le> k")
    case True
    have "(2 :: rat) powi k = of_int (2 ^ nat (k - K)) * 2 powi K"
      by (simp only: pow2_div_int [OF True, symmetric]) simp
    then have "x = of_int (m * 2 ^ nat (k - K)) * 2 powi K"
      unfolding x by (simp add: mult.assoc)
    then show ?thesis unfolding K_def by (rule round_pos_of_multiple)
  next
    case False
    then have e: "ilog2 x = K + 52" using k by (simp add: K_def qexp_def max_def split: if_splits)
    have "2 powi (K + 52) \<le> x" using ilog2_bounds(1) [OF assms(1)] by (simp add: e)
    then have "2 powi (K + 52) / 2 powi k \<le> (of_int m :: rat)"
      by (simp add: x pos_divide_le_eq)
    then have "(of_int (2 ^ nat (K + 52 - k)) :: rat) \<le> of_int m"
      using False by (subst (asm) pow2_div_int) simp_all
    then have ge: "2 ^ nat (K + 52 - k) \<le> m" by (simp only: of_int_le_iff)
    then have "(2 :: int) ^ nat (K + 52 - k) \<le> 2 ^ 53" using m by linarith
    then have "nat (K + 52 - k) \<le> 53" by (rule power_le_imp_le_exp [rotated]) simp
    then have K: "K = k + 1" using False by linarith
    then have "m = 2 ^ 53" using ge m by simp
    then have "x = of_int (2 ^ 52) * 2 powi K"
      unfolding x K pow2_add by simp
    then show ?thesis unfolding K_def by (rule round_pos_of_multiple)
  qed
qed

lemma representable_minus: "representable x \<Longrightarrow> representable (- x)"
proof -
  assume "representable x"
  then obtain m k where "x = of_int m * 2 powi k" "\<bar>m\<bar> \<le> 2 ^ 53" "- 1074 \<le> k"
    by (auto simp: representable_def)
  then have "- x = of_int (- m) * 2 powi k" "\<bar>- m\<bar> \<le> 2 ^ 53" "- 1074 \<le> k" by simp_all
  then show ?thesis unfolding representable_def by blast
qed

lemma round64_exact: "representable x \<Longrightarrow> round64 x = x"
  using round_pos_exact [of x] round_pos_exact [of "- x"] representable_minus [of x]
  by (auto simp: round64_def)

lemma representable_of_int: "\<bar>n\<bar> \<le> 2 ^ 53 \<Longrightarrow> representable (of_int n)"
  unfolding representable_def by (rule exI [of _ n], rule exI [of _ 0]) simp

lemma representable_round_pos:
  assumes "0 < q"
  shows "representable (round_pos q)"
proof -
  have k: "ilog2 q + 1 - qexp q \<le> 53" by (simp add: qexp_def)
  have "q < 2 powi (ilog2 q + 1)" using ilog2_bounds(2) [OF assms] .
  also have "\<dots> \<le> 2 powi (53 + qexp q)" using k by (intro pow2_mono) simp
  finally have "q \<le> of_int (2 ^ 53) * 2 powi qexp q" by (simp add: pow2_add)
  then have "q / 2 powi qexp q \<le> of_int (2 ^ 53)" by (simp add: pos_divide_le_eq)
  then have hi: "rne (q / 2 powi qexp q) \<le> 2 ^ 53" by (rule rne_le)
  have "of_int 0 \<le> q / 2 powi qexp q" using assms by (simp add: less_imp_le)
  then have lo: "0 \<le> rne (q / 2 powi qexp q)" by (rule rne_ge)
  show ?thesis unfolding representable_def
    by (rule exI [of _ "rne (q / 2 powi qexp q)"], rule exI [of _ "qexp q"])
      (use hi lo in \<open>simp add: round_pos_def, simp add: qexp_def\<close>)
qed

lemma representable_round64: "representable (round64 q)"
  using representable_round_pos [of q] representable_round_pos [of "- q"]
    representable_minus representable_of_int [of 0]
  by (auto simp: round64_def)

lemma representable_pred:
  assumes "representable x" and "1 \<le> x" and "x \<le> 2 ^ 53"
  shows "representable (x - 1)"
proof -
  obtain m k where x: "x = of_int m * 2 powi k" and m: "\<bar>m\<bar> \<le> 2 ^ 53" and k: "- 1074 \<le> k"
    using assms(1) by (auto simp: representable_def)
  show ?thesis
  proof (cases "k \<le> 0")
    case True
    have one: "1 = of_int (2 ^ nat (0 - k)) * (2 :: rat) powi k"
      by (simp only: pow2_div_int [OF True, symmetric]) simp
    have eq: "x - 1 = of_int (m - 2 ^ nat (- k)) * 2 powi k"
      using one by (simp only: x of_int_diff left_diff_distrib diff_0)
    have "of_int (2 ^ nat (0 - k)) * (2 :: rat) powi k \<le> of_int m * 2 powi k"
      using assms(2) one by (simp only: x)
    then have "(2 :: int) ^ nat (- k) \<le> m"
      by (simp only: mult_le_cancel_right_pos pow2_pos of_int_le_iff diff_0)
    moreover have "(0 :: int) \<le> 2 ^ nat (- k)" by simp
    ultimately have "\<bar>m - 2 ^ nat (- k)\<bar> \<le> 2 ^ 53" using m by linarith
    with eq k show ?thesis unfolding representable_def by blast
  next
    case False
    then have "(2 :: rat) powi k = of_int (2 ^ nat k)" using pow2_div_int [of 0 k] by simp
    then have xi: "x = of_int (m * 2 ^ nat k)" by (simp add: x)
    then have "x - 1 = of_int (m * 2 ^ nat k - 1)" by simp
    moreover have "(of_int (m * 2 ^ nat k) :: rat) \<le> of_int (2 ^ 53)" "(of_int 1 :: rat) \<le> of_int (m * 2 ^ nat k)"
      using assms(2,3) by (simp_all only: xi) simp_all
    then have "m * 2 ^ nat k \<le> 2 ^ 53" "1 \<le> m * 2 ^ nat k" by (simp_all only: of_int_le_iff)
    ultimately show ?thesis using representable_of_int [of "m * 2 ^ nat k - 1"] by simp
  qed
qed

section \<open>The rounding interface\<close>

text \<open>
  What the callers of floating-point arithmetic rely on: rounding is monotone, keeps
  representable values, and small integers and predecessors are representable.
\<close>

locale rounding =
  fixes rnd :: "rat \<Rightarrow> rat"
    and repr :: "rat \<Rightarrow> bool"
  assumes rnd_mono: "x \<le> y \<Longrightarrow> rnd x \<le> rnd y"
    and rnd_exact: "repr x \<Longrightarrow> rnd x = x"
    and repr_rnd: "repr (rnd x)"
    and repr_of_int: "\<bar>n\<bar> \<le> 2 ^ 53 \<Longrightarrow> repr (of_int n)"
    and repr_pred: "repr x \<Longrightarrow> 1 \<le> x \<Longrightarrow> x \<le> 2 ^ 53 \<Longrightarrow> repr (x - 1)"
begin

lemma rnd_0 [simp]: "rnd 0 = 0"
  using rnd_exact [OF repr_of_int [of 0]] by simp

lemma rnd_1 [simp]: "rnd 1 = 1"
  using rnd_exact [OF repr_of_int [of 1]] by simp

lemma rnd_rnd [simp]: "rnd (rnd x) = rnd x"
  by (rule rnd_exact [OF repr_rnd])

lemma rnd_nonneg: "0 \<le> x \<Longrightarrow> 0 \<le> rnd x"
  using rnd_mono [of 0 x] by simp

lemma rnd_le_repr: "x \<le> y \<Longrightarrow> repr y \<Longrightarrow> rnd x \<le> y"
  using rnd_mono [of x y] by (simp add: rnd_exact)

lemma rnd_ge_repr: "y \<le> x \<Longrightarrow> repr y \<Longrightarrow> y \<le> rnd x"
  using rnd_mono [of y x] by (simp add: rnd_exact)

lemma rnd_pred: "repr x \<Longrightarrow> 1 \<le> x \<Longrightarrow> x \<le> 2 ^ 53 \<Longrightarrow> rnd (x - 1) = x - 1"
  by (rule rnd_exact [OF repr_pred])

text \<open>A quotient of two counters, the smaller on top, rounds into the unit interval.\<close>

lemma rnd_unit_quotient: "0 \<le> a \<Longrightarrow> a \<le> b \<Longrightarrow> 0 < b \<Longrightarrow> rnd (a / b) \<le> 1 \<and> 0 \<le> rnd (a / b)"
  using rnd_mono [of "a / b" 1] rnd_nonneg [of "a / b"] by simp

text \<open>Scaling by a factor of at most one never exceeds the representable operand.\<close>

lemma rnd_scale_le: "repr a \<Longrightarrow> 0 \<le> a \<Longrightarrow> 0 \<le> r \<Longrightarrow> r \<le> 1 \<Longrightarrow> rnd (a * r) \<le> a"
  by (rule rnd_le_repr) (simp_all add: mult_left_le)

end

interpretation b64: rounding round64 representable
  by unfold_locales
    (fact round64_mono, fact round64_exact, fact representable_round64,
      fact representable_of_int, fact representable_pred)

section \<open>float64 values\<close>

datatype float64 = Fin rat | PInf | NInf | NaN

text \<open>Rounding with overflow to an infinity.\<close>

definition to_float64 :: "rat \<Rightarrow> float64" where
  "to_float64 q = (let r = round64 q in
     if 2 ^ 1024 \<le> r then PInf else if r \<le> - (2 ^ 1024) then NInf else Fin r)"

definition f_of_int :: "int \<Rightarrow> float64" where
  "f_of_int n = to_float64 (of_int n)"

definition f_IsNaN :: "float64 \<Rightarrow> bool" where
  "f_IsNaN x \<longleftrightarrow> x = NaN"

definition f_IsInf :: "float64 \<Rightarrow> bool" where
  "f_IsInf x \<longleftrightarrow> x = PInf \<or> x = NInf"

fun f_less :: "float64 \<Rightarrow> float64 \<Rightarrow> bool" where
  "f_less (Fin a) (Fin b) = (a < b)"
| "f_less NInf (Fin _) = True"
| "f_less NInf PInf = True"
| "f_less (Fin _) PInf = True"
| "f_less _ _ = False"

definition f_le :: "float64 \<Rightarrow> float64 \<Rightarrow> bool" where
  "f_le x y \<longleftrightarrow> f_less x y \<or> x = y \<and> x \<noteq> NaN"

definition f_eq :: "float64 \<Rightarrow> float64 \<Rightarrow> bool" where
  "f_eq x y \<longleftrightarrow> x = y \<and> x \<noteq> NaN"

fun f_neg :: "float64 \<Rightarrow> float64" where
  "f_neg (Fin a) = Fin (- a)"
| "f_neg PInf = NInf"
| "f_neg NInf = PInf"
| "f_neg NaN = NaN"

fun f_add :: "float64 \<Rightarrow> float64 \<Rightarrow> float64" where
  "f_add (Fin a) (Fin b) = to_float64 (a + b)"
| "f_add NaN _ = NaN"
| "f_add _ NaN = NaN"
| "f_add PInf NInf = NaN"
| "f_add NInf PInf = NaN"
| "f_add PInf _ = PInf"
| "f_add NInf _ = NInf"
| "f_add _ PInf = PInf"
| "f_add _ NInf = NInf"

definition f_sub :: "float64 \<Rightarrow> float64 \<Rightarrow> float64" where
  "f_sub x y = f_add x (f_neg y)"

definition f_inf :: "int \<Rightarrow> float64" where
  "f_inf s = (if s = 0 then NaN else if s < 0 then NInf else PInf)"

fun f_sgn :: "float64 \<Rightarrow> int" where
  "f_sgn (Fin a) = (if a = 0 then 0 else if a < 0 then - 1 else 1)"
| "f_sgn PInf = 1"
| "f_sgn NInf = - 1"
| "f_sgn NaN = 0"

fun f_mul :: "float64 \<Rightarrow> float64 \<Rightarrow> float64" where
  "f_mul (Fin a) (Fin b) = to_float64 (a * b)"
| "f_mul x y = (if x = NaN \<or> y = NaN then NaN else f_inf (f_sgn x * f_sgn y))"

text \<open>A zero divisor is the positive zero.\<close>

fun f_div :: "float64 \<Rightarrow> float64 \<Rightarrow> float64" where
  "f_div (Fin a) (Fin b) = (if b = 0 then f_inf (f_sgn (Fin a)) else to_float64 (a / b))"
| "f_div (Fin _) y = (if y = NaN then NaN else Fin 0)"
| "f_div x (Fin b) = (if x = NaN then NaN else f_inf (f_sgn x * (if b < 0 then - 1 else 1)))"
| "f_div x y = NaN"

fun f_floor :: "float64 \<Rightarrow> float64" where
  "f_floor (Fin a) = Fin (of_int \<lfloor>a\<rfloor>)"
| "f_floor x = x"

definition f_min :: "float64 \<Rightarrow> float64 \<Rightarrow> float64" where
  "f_min x y = (if x = NInf \<or> y = NInf then NInf else if x = NaN \<or> y = NaN then NaN
     else if f_less x y then x else y)"

definition f_max :: "float64 \<Rightarrow> float64 \<Rightarrow> float64" where
  "f_max x y = (if x = PInf \<or> y = PInf then PInf else if x = NaN \<or> y = NaN then NaN
     else if f_less x y then y else x)"

fun f_ceil :: "float64 \<Rightarrow> float64" where
  "f_ceil (Fin a) = Fin (of_int \<lceil>a\<rceil>)"
| "f_ceil x = x"

text \<open>\<open>time.Duration.Seconds\<close>.\<close>

definition duration_Seconds :: "duration \<Rightarrow> float64" where
  "duration_Seconds d = f_add (f_of_int (d sdiv second))
     (f_div (f_of_int (d smod second)) (Fin 1000000000))"

text \<open>
  Conversion of a value in the range of \<open>uint64\<close>; Go leaves the result open outside it.
\<close>

fun f_to_u64 :: "float64 \<Rightarrow> u64" where
  "f_to_u64 (Fin a) = word_of_int \<lfloor>a\<rfloor>"
| "f_to_u64 _ = 0"

section \<open>Facts for the components\<close>

lemma f_less_irrefl [simp]: "\<not> f_less x x"
  by (cases x) simp_all

lemma f_le_Fin [simp]: "f_le (Fin a) (Fin b) \<longleftrightarrow> a \<le> b"
  by (auto simp: f_le_def)

lemma f_le_less: "f_less x y \<Longrightarrow> f_le x y"
  by (simp add: f_le_def)

lemma to_float64_Fin:
  assumes "- (2 ^ 1023) \<le> q" and "q \<le> 2 ^ 1023"
  shows "to_float64 q = Fin (round64 q)"
proof -
  have rep: "representable (2 ^ 1023)"
    unfolding representable_def
    by (rule exI [of _ 1], rule exI [of _ 1023]) (simp add: power_int_def)
  have "round64 q \<le> 2 ^ 1023" using b64.rnd_le_repr [OF assms(2) rep] .
  moreover have "- (2 ^ 1023) \<le> round64 q"
    using b64.rnd_ge_repr [OF assms(1) representable_minus [OF rep]] .
  moreover have "(2 ^ 1023 :: rat) < 2 ^ 1024" by (rule power_strict_increasing) simp_all
  ultimately show ?thesis by (simp only: to_float64_def Let_def) (use not_le in force)
qed

lemma to_float64_small:
  assumes "- (2 ^ 64) \<le> q" and "q \<le> 2 ^ 64"
  shows "to_float64 q = Fin (round64 q)"
proof (rule to_float64_Fin)
  have "(2 ^ 64 :: rat) \<le> 2 ^ 1023" by (rule power_increasing) simp_all
  then show "- (2 ^ 1023) \<le> q" "q \<le> 2 ^ 1023" using assms by linarith+
qed

lemma to_float64_unit: "0 \<le> q \<Longrightarrow> q \<le> 1 \<Longrightarrow> to_float64 q = Fin (round64 q)"
  by (rule to_float64_small) (rule order_trans, simp_all)+

lemma f_of_int_small: "\<bar>n\<bar> \<le> 2 ^ 53 \<Longrightarrow> f_of_int n = Fin (of_int n)"
proof -
  assume n: "\<bar>n\<bar> \<le> 2 ^ 53"
  have "(of_int n :: rat) \<le> of_int (2 ^ 64)" "of_int (- (2 ^ 64)) \<le> (of_int n :: rat)"
    using n by (simp_all only: of_int_le_iff) simp_all
  then have "to_float64 (of_int n) = Fin (round64 (of_int n))"
    by (intro to_float64_small) simp_all
  then show ?thesis by (simp add: f_of_int_def b64.rnd_exact [OF b64.repr_of_int [OF n]])
qed

end
