(* ===== verification/Errors.thy ===== *)
theory Errors
  imports Prelude
begin

text \<open>
  Error values and their classification: the transport-neutral application error of
  \<open>errors/error.go\<close>, Go's \<open>errors.Is\<close>/\<open>errors.As\<close> walk over wrapped errors, and the
  failure classes of \<open>governance/failure/failure.go\<close> on which retries, breakers, outlier
  detection and sagas decide.
\<close>

section \<open>Error values\<close>

text \<open>
  A non-nil \<open>error\<close>. \<open>Sentinel\<close> is a package-level \<open>errors.New\<close> value, named by its
  text; \<open>Wrapf\<close> is \<open>fmt.Errorf\<close> with its \<open>%w\<close> operands (only the fixed part of the text
  is kept, no code inspects it); \<open>Joined\<close> is \<open>errors.Join\<close>; \<open>NetError\<close> is any
  implementation of \<open>net.Error\<close> with its \<open>Timeout()\<close> answer. \<open>context.DeadlineExceeded\<close>
  implements \<open>net.Error\<close> too. \<open>RetryableError\<close> and \<open>TerminalError\<close> are the errors a machine of
  \<open>programmable/continuation\<close> returns to suspend or fail its call, with their cause.
\<close>

datatype goerr =
    AppError (err_code: int) (err_reason: string) (err_message: string)
      (err_metadata: "(string, string) gomap") (err_cause: "goerr option")
  | TransportError goerr
  | NetError bool "goerr option"
  | Canceled
  | DeadlineExceeded
  | Sentinel string
  | Wrapf string "goerr list"
  | Joined "goerr list"
  | RetryableError "goerr option"
  | TerminalError "goerr option"

text \<open>The operands of one \<open>Unwrap\<close> step.\<close>

fun unwrap :: "goerr \<Rightarrow> goerr list" where
  "unwrap (AppError _ _ _ _ c) = (case c of None \<Rightarrow> [] | Some e \<Rightarrow> [e])"
| "unwrap (TransportError e) = [e]"
| "unwrap (NetError _ c) = (case c of None \<Rightarrow> [] | Some e \<Rightarrow> [e])"
| "unwrap (Wrapf _ es) = es"
| "unwrap (Joined es) = es"
| "unwrap (RetryableError c) = (case c of None \<Rightarrow> [] | Some e \<Rightarrow> [e])"
| "unwrap (TerminalError c) = (case c of None \<Rightarrow> [] | Some e \<Rightarrow> [e])"
| "unwrap _ = []"

text \<open>The order in which \<open>errors.Is\<close> and \<open>errors.As\<close> visit an error tree.\<close>

fun chain :: "goerr \<Rightarrow> goerr list" where
  "chain (AppError k r m d c) = AppError k r m d c #
     (case c of None \<Rightarrow> [] | Some e \<Rightarrow> chain e)"
| "chain (TransportError e) = TransportError e # chain e"
| "chain (NetError t c) = NetError t c # (case c of None \<Rightarrow> [] | Some e \<Rightarrow> chain e)"
| "chain (Wrapf m es) = Wrapf m es # concat (map chain es)"
| "chain (Joined es) = Joined es # concat (map chain es)"
| "chain (RetryableError c) = RetryableError c # (case c of None \<Rightarrow> [] | Some e \<Rightarrow> chain e)"
| "chain (TerminalError c) = TerminalError c # (case c of None \<Rightarrow> [] | Some e \<Rightarrow> chain e)"
| "chain Canceled = [Canceled]"
| "chain DeadlineExceeded = [DeadlineExceeded]"
| "chain (Sentinel n) = [Sentinel n]"

lemma chain_unwrap: "chain e = e # concat (map chain (unwrap e))"
  by (cases e) (auto split: option.splits)

lemma chain_head: "e \<in> set (chain e)"
  by (subst chain_unwrap) simp

text \<open>\<open>(*Error).Is\<close>: application errors match by stable code and reason.\<close>

fun Error_Is :: "goerr \<Rightarrow> goerr \<Rightarrow> bool" where
  "Error_Is (AppError k r _ _ _) (AppError k' r' _ _ _) = (k = k' \<and> r = r')"
| "Error_Is _ _ = False"

definition errors_Is :: "goerr \<Rightarrow> goerr \<Rightarrow> bool" where
  "errors_Is err target \<longleftrightarrow> list_ex (\<lambda>e. e = target \<or> Error_Is e target) (chain err)"

definition errors_As :: "(goerr \<Rightarrow> bool) \<Rightarrow> goerr \<Rightarrow> goerr option" where
  "errors_As p err = find p (chain err)"

lemma errors_As_None: "errors_As p err = None \<longleftrightarrow> (\<forall>e \<in> set (chain err). \<not> p e)"
  by (auto simp: errors_As_def find_None_iff)

section \<open>errors.Error\<close>

type_synonym err_option = "goerr \<Rightarrow> goerr"

fun WithMessage :: "string \<Rightarrow> err_option" where
  "WithMessage m (AppError k r _ d c) = AppError k r m d c"
| "WithMessage m e = e"

definition merge_metadata ::
  "(string, string) gomap \<Rightarrow> (string, string) gomap \<Rightarrow> (string, string) gomap" where
  "merge_metadata base snapshot = fold (\<lambda>(k, v). gm_put k v) snapshot base"

fun WithMetadata :: "(string, string) gomap \<Rightarrow> err_option" where
  "WithMetadata snapshot (AppError k r m d c) = AppError k r m (merge_metadata d snapshot) c"
| "WithMetadata snapshot e = e"

definition newError ::
  "goerr option \<Rightarrow> int \<Rightarrow> string \<Rightarrow> string \<Rightarrow> err_option list \<Rightarrow> goerr" where
  "newError c k r m options = fold (\<lambda>f e. f e) options (AppError k r m [] c)"

definition errors_New :: "int \<Rightarrow> string \<Rightarrow> string \<Rightarrow> goerr" where
  "errors_New k r m = newError None k r m []"

definition errors_Wrap :: "goerr option \<Rightarrow> int \<Rightarrow> string \<Rightarrow> string \<Rightarrow> goerr" where
  "errors_Wrap c k r m = newError c k r m []"

definition errors_Clone :: "goerr \<Rightarrow> err_option list \<Rightarrow> goerr" where
  "errors_Clone e options = fold (\<lambda>f e. f e) options e"

section \<open>Failure classes\<close>

datatype kind = KNone | KTransport | KTimeout | KBusiness | KCanceled | KUnknown

fun kind_string :: "kind \<Rightarrow> string" where
  "kind_string KNone = ''none''"
| "kind_string KTransport = ''transport''"
| "kind_string KTimeout = ''timeout''"
| "kind_string KBusiness = ''business''"
| "kind_string KCanceled = ''canceled''"
| "kind_string KUnknown = ''unknown''"

fun is_transportError :: "goerr \<Rightarrow> bool" where
  "is_transportError (TransportError _) = True"
| "is_transportError _ = False"

fun is_netError :: "goerr \<Rightarrow> bool" where
  "is_netError (NetError _ _) = True"
| "is_netError DeadlineExceeded = True"
| "is_netError _ = False"

fun net_Timeout :: "goerr \<Rightarrow> bool" where
  "net_Timeout (NetError t _) = t"
| "net_Timeout DeadlineExceeded = True"
| "net_Timeout _ = False"

definition MarkTransport :: "goerr option \<Rightarrow> goerr option" where
  "MarkTransport err = (case err of None \<Rightarrow> None
     | Some e \<Rightarrow> if errors_As is_transportError e \<noteq> None then Some e
        else Some (TransportError e))"

definition Classify :: "goerr option \<Rightarrow> kind" where
  "Classify err = (case err of None \<Rightarrow> KNone
     | Some e \<Rightarrow>
        if errors_As is_transportError e \<noteq> None then KTransport
        else if errors_Is e Canceled then KCanceled
        else if errors_Is e DeadlineExceeded then KTimeout
        else if errors_As is_AppError e \<noteq> None then KBusiness
        else (case errors_As is_netError e of
                Some n \<Rightarrow> if net_Timeout n then KTimeout else KTransport
              | None \<Rightarrow> KUnknown))"

definition Retryable :: "goerr option \<Rightarrow> bool" where
  "Retryable err = (case Classify err of KTransport \<Rightarrow> True | KTimeout \<Rightarrow> True | _ \<Rightarrow> False)"

section \<open>Facts about errors\<close>

lemma Error_Is_simps [simp]:
  "Error_Is (TransportError e) t = False"
  by (cases t) simp_all

lemma errors_Is_TransportError:
  "\<not> is_transportError t \<Longrightarrow> errors_Is (TransportError e) t \<longleftrightarrow> errors_Is e t"
  by (cases t) (auto simp: errors_Is_def)

lemma errors_As_TransportError [simp]:
  "errors_As is_transportError (TransportError e) = Some (TransportError e)"
  by (simp add: errors_As_def)

lemma Classify_app:
  "errors_As is_transportError (AppError k r m d None) = None"
  "Classify (Some (AppError k r m d None)) = KBusiness"
  by (simp_all add: Classify_def errors_As_def errors_Is_def)

lemma errors_Clone_Is:
  assumes "is_AppError e"
  shows "Error_Is (errors_Clone e [WithMetadata d]) e" and "Error_Is (errors_Clone e [WithMessage m]) e"
  using assms by (cases e; simp add: errors_Clone_def)+

text \<open>
  Marking an adapter failure changes neither what \<open>errors.Is\<close> finds in it nor, when it is
  already marked, the error itself; and a marked error is always classed as transport.
\<close>

lemma MarkTransport_class: "e \<noteq> None \<Longrightarrow> Classify (MarkTransport e) = KTransport"
  by (cases e) (auto simp: MarkTransport_def Classify_def)

lemma MarkTransport_chain:
  assumes "\<not> is_transportError t"
  shows "errors_Is (the (MarkTransport (Some e))) t \<longleftrightarrow> errors_Is e t"
  using assms by (simp add: MarkTransport_def errors_Is_TransportError)

lemma MarkTransport_idem: "MarkTransport (MarkTransport e) = MarkTransport e"
  by (cases e) (auto simp: MarkTransport_def)

end
