(* ===== verification/Policy.thy ===== *)
theory Policy
  imports Float64 Errors
begin

text \<open>
  Method policies (\<open>governance/policy/policy.go\<close>): the policy records, their validation
  and the patches that replace whole sub-policies. An \<open>Optional\<close> or a nil-able pointer is
  an \<open>option\<close>; a Go function that returns only an error yields \<open>None\<close> for nil.
\<close>

section \<open>Policy records\<close>

record RetryPolicy =
  rt_Enabled :: bool
  rt_Idempotent :: bool
  rt_MaxAttempts :: int
  rt_BackoffMin :: duration
  rt_BackoffMax :: duration
  rt_BudgetRatio :: float64

record HedgingPolicy =
  hg_Enabled :: bool
  hg_Idempotent :: bool
  hg_MaxAttempts :: int
  hg_Delay :: duration

record BreakerPolicy =
  br_Enabled :: bool
  br_FailureRatio :: float64
  br_Window :: duration
  br_MinRequests :: int
  br_OpenTimeout :: duration
  br_HalfOpenProbes :: int

record BulkheadPolicy =
  bh_Enabled :: bool
  bh_MaxConcurrency :: int
  bh_MaxQueue :: int
  bh_QueueTimeout :: duration

record RateLimitPolicy =
  rl_Enabled :: bool
  rl_RequestsPerSecond :: float64
  rl_Burst :: int
  rl_MaxConcurrency :: int

record LoadSheddingPolicy =
  ls_Enabled :: bool
  ls_MaxConcurrency :: int
  ls_CPUThreshold :: float64

record StreamPolicy =
  st_Enabled :: bool
  st_MaxSendMessages :: int
  st_MaxReceiveMessages :: int
  st_MessagesPerSecond :: float64
  st_Burst :: int
  st_MaxConcurrency :: int

record Policy =
  pol_Timeout :: duration
  pol_Retry :: RetryPolicy
  pol_Hedging :: HedgingPolicy
  pol_Breaker :: BreakerPolicy
  pol_Bulkhead :: BulkheadPolicy
  pol_RateLimit :: RateLimitPolicy
  pol_LoadShedding :: LoadSheddingPolicy
  pol_Stream :: StreamPolicy

text \<open>Zero values of the structs that \<open>Default\<close> leaves out.\<close>

definition zero_RateLimitPolicy :: RateLimitPolicy where
  "zero_RateLimitPolicy = \<lparr>rl_Enabled = False, rl_RequestsPerSecond = Fin 0, rl_Burst = 0,
     rl_MaxConcurrency = 0\<rparr>"

definition zero_LoadSheddingPolicy :: LoadSheddingPolicy where
  "zero_LoadSheddingPolicy = \<lparr>ls_Enabled = False, ls_MaxConcurrency = 0,
     ls_CPUThreshold = Fin 0\<rparr>"

definition zero_StreamPolicy :: StreamPolicy where
  "zero_StreamPolicy = \<lparr>st_Enabled = False, st_MaxSendMessages = 0,
     st_MaxReceiveMessages = 0, st_MessagesPerSecond = Fin 0, st_Burst = 0,
     st_MaxConcurrency = 0\<rparr>"

definition Default :: Policy where
  "Default = \<lparr>
     pol_Timeout = 3 * second,
     pol_Retry = \<lparr>rt_Enabled = False, rt_Idempotent = False, rt_MaxAttempts = 3,
       rt_BackoffMin = 10 * millisecond, rt_BackoffMax = second,
       rt_BudgetRatio = to_float64 (1 / 10)\<rparr>,
     pol_Hedging = \<lparr>hg_Enabled = False, hg_Idempotent = False, hg_MaxAttempts = 2,
       hg_Delay = 50 * millisecond\<rparr>,
     pol_Breaker = \<lparr>br_Enabled = False, br_FailureRatio = to_float64 (1 / 2),
       br_Window = 30 * second, br_MinRequests = 20, br_OpenTimeout = 10 * second,
       br_HalfOpenProbes = 2\<rparr>,
     pol_Bulkhead = \<lparr>bh_Enabled = False, bh_MaxConcurrency = 100, bh_MaxQueue = 0,
       bh_QueueTimeout = 0\<rparr>,
     pol_RateLimit = zero_RateLimitPolicy,
     pol_LoadShedding = zero_LoadSheddingPolicy,
     pol_Stream = zero_StreamPolicy\<rparr>"

section \<open>Validation\<close>

abbreviation ErrInvalidPolicy :: goerr where
  "ErrInvalidPolicy \<equiv> Sentinel ''policy: invalid policy''"

definition invalidPolicy :: "string \<Rightarrow> goerr option" where
  "invalidPolicy m = Some (Wrapf m [ErrInvalidPolicy])"

lemma invalidPolicy_not_None [simp]: "invalidPolicy m \<noteq> None" "(None = invalidPolicy m) = False"
  by (simp_all add: invalidPolicy_def)

definition minRetryAttempts :: int where "minRetryAttempts = 2"
definition maxRetryAttempts :: int where "maxRetryAttempts = 10"
definition minHedgeAttempts :: int where "minHedgeAttempts = 2"
definition maxHedgeAttempts :: int where "maxHedgeAttempts = 5"

lemmas attempt_limits = minRetryAttempts_def maxRetryAttempts_def minHedgeAttempts_def
  maxHedgeAttempts_def

definition invalidRatio :: "float64 \<Rightarrow> bool" where
  "invalidRatio v \<longleftrightarrow> f_IsNaN v \<or> f_IsInf v \<or> f_less v (Fin 0)"

definition validateRetry :: "RetryPolicy \<Rightarrow> goerr option" where
  "validateRetry v =
     (if rt_MaxAttempts v < 0 \<or> rt_BackoffMin v < 0 \<or> rt_BackoffMax v < 0 \<or>
         invalidRatio (rt_BudgetRatio v)
      then invalidPolicy ''retry contains a negative or non-finite value''
      else if \<not> rt_Enabled v then None
      else if \<not> rt_Idempotent v then invalidPolicy ''retry requires an idempotent operation''
      else if rt_MaxAttempts v < minRetryAttempts \<or> rt_MaxAttempts v > maxRetryAttempts
      then invalidPolicy ''retry max attempts out of range''
      else if rt_BackoffMin v \<le> 0 \<or> rt_BackoffMax v < rt_BackoffMin v
      then invalidPolicy ''retry backoff range is invalid''
      else if f_le (rt_BudgetRatio v) (Fin 0) \<or> f_less (Fin 1) (rt_BudgetRatio v)
      then invalidPolicy ''retry budget ratio must be in (0, 1]''
      else None)"

definition validateHedging :: "HedgingPolicy \<Rightarrow> goerr option" where
  "validateHedging v =
     (if hg_MaxAttempts v < 0 \<or> hg_Delay v < 0
      then invalidPolicy ''hedging contains a negative value''
      else if \<not> hg_Enabled v then None
      else if \<not> hg_Idempotent v then invalidPolicy ''hedging requires an idempotent operation''
      else if hg_MaxAttempts v < minHedgeAttempts \<or> hg_MaxAttempts v > maxHedgeAttempts
      then invalidPolicy ''hedging max attempts out of range''
      else if hg_Delay v \<le> 0 then invalidPolicy ''hedging delay must be positive''
      else None)"

definition validateBreaker :: "BreakerPolicy \<Rightarrow> goerr option" where
  "validateBreaker v =
     (if invalidRatio (br_FailureRatio v) \<or> br_Window v < 0 \<or> br_MinRequests v < 0 \<or>
         br_OpenTimeout v < 0 \<or> br_HalfOpenProbes v < 0
      then invalidPolicy ''breaker contains a negative or non-finite value''
      else if \<not> br_Enabled v then None
      else if f_le (br_FailureRatio v) (Fin 0) \<or> f_less (Fin 1) (br_FailureRatio v)
      then invalidPolicy ''breaker failure ratio must be in (0, 1]''
      else if br_Window v \<le> 0 \<or> br_MinRequests v \<le> 0 \<or> br_OpenTimeout v \<le> 0 \<or>
         br_HalfOpenProbes v \<le> 0
      then invalidPolicy ''breaker thresholds must be positive''
      else None)"

definition validateBulkhead :: "BulkheadPolicy \<Rightarrow> goerr option" where
  "validateBulkhead v =
     (if bh_MaxConcurrency v < 0 \<or> bh_MaxQueue v < 0 \<or> bh_QueueTimeout v < 0
      then invalidPolicy ''bulkhead contains a negative value''
      else if \<not> bh_Enabled v then None
      else if bh_MaxConcurrency v \<le> 0
      then invalidPolicy ''bulkhead max concurrency must be positive''
      else if bh_MaxQueue v > 0 \<and> bh_QueueTimeout v \<le> 0
      then invalidPolicy ''bulkhead queue requires a positive timeout''
      else if bh_MaxQueue v = 0 \<and> bh_QueueTimeout v > 0
      then invalidPolicy ''bulkhead queue timeout requires a queue''
      else None)"

definition validateRateLimit :: "RateLimitPolicy \<Rightarrow> goerr option" where
  "validateRateLimit v =
     (let hasRate = f_less (Fin 0) (rl_RequestsPerSecond v) \<or> rl_Burst v > 0 in
      if f_IsNaN (rl_RequestsPerSecond v) \<or> f_IsInf (rl_RequestsPerSecond v) \<or>
         f_less (rl_RequestsPerSecond v) (Fin 0) \<or> rl_Burst v < 0 \<or> rl_MaxConcurrency v < 0
      then invalidPolicy ''rate limit contains a negative or non-finite value''
      else if \<not> rl_Enabled v then None
      else if hasRate \<and> (f_le (rl_RequestsPerSecond v) (Fin 0) \<or> rl_Burst v \<le> 0)
      then invalidPolicy ''rate limit requires both requests per second and burst''
      else if \<not> hasRate \<and> rl_MaxConcurrency v \<le> 0
      then invalidPolicy ''rate limit requires a rate or concurrency limit''
      else None)"

definition validateLoadShedding :: "LoadSheddingPolicy \<Rightarrow> goerr option" where
  "validateLoadShedding v =
     (if ls_MaxConcurrency v < 0 \<or> f_IsNaN (ls_CPUThreshold v) \<or>
         f_IsInf (ls_CPUThreshold v) \<or> f_less (ls_CPUThreshold v) (Fin 0) \<or>
         f_less (Fin 1) (ls_CPUThreshold v)
      then invalidPolicy ''load shedding contains an invalid threshold''
      else if ls_Enabled v \<and> ls_MaxConcurrency v \<le> 0 \<and> f_le (ls_CPUThreshold v) (Fin 0)
      then invalidPolicy ''load shedding requires a concurrency or CPU threshold''
      else None)"

definition ValidateStream :: "StreamPolicy \<Rightarrow> goerr option" where
  "ValidateStream v =
     (let hasRate = f_less (Fin 0) (st_MessagesPerSecond v) \<or> st_Burst v > 0 in
      if st_MaxSendMessages v < 0 \<or> st_MaxReceiveMessages v < 0 \<or>
         f_IsNaN (st_MessagesPerSecond v) \<or> f_IsInf (st_MessagesPerSecond v) \<or>
         f_less (st_MessagesPerSecond v) (Fin 0) \<or> st_Burst v < 0 \<or> st_MaxConcurrency v < 0
      then invalidPolicy ''stream policy contains an invalid limit''
      else if \<not> st_Enabled v then None
      else if hasRate \<and> (f_le (st_MessagesPerSecond v) (Fin 0) \<or> st_Burst v \<le> 0)
      then invalidPolicy ''stream message rate requires both messages per second and burst''
      else if st_MaxSendMessages v \<le> 0 \<and> st_MaxReceiveMessages v \<le> 0 \<and> \<not> hasRate \<and>
         st_MaxConcurrency v \<le> 0
      then invalidPolicy ''stream policy requires at least one limit''
      else None)"

text \<open>\<open>if err := a; err != nil { return err }; b\<close>\<close>

definition orElse :: "'e option \<Rightarrow> 'e option \<Rightarrow> 'e option" where
  "orElse a b = (case a of None \<Rightarrow> b | Some e \<Rightarrow> Some e)"

lemma orElse_None [simp]: "orElse a b = None \<longleftrightarrow> a = None \<and> b = None"
  by (simp add: orElse_def split: option.splits)

definition Validate :: "Policy \<Rightarrow> goerr option" where
  "Validate v =
     (if pol_Timeout v \<le> 0 then invalidPolicy ''timeout must be positive''
      else orElse (validateRetry (pol_Retry v))
       (orElse (validateHedging (pol_Hedging v))
        (if rt_Enabled (pol_Retry v) \<and> hg_Enabled (pol_Hedging v)
         then invalidPolicy ''retry and hedging are mutually exclusive''
         else orElse (validateBreaker (pol_Breaker v))
          (orElse (validateBulkhead (pol_Bulkhead v))
           (orElse (validateRateLimit (pol_RateLimit v))
            (orElse (validateLoadShedding (pol_LoadShedding v))
             (ValidateStream (pol_Stream v))))))))"

section \<open>Patches\<close>

record Patch =
  pt_Timeout :: "duration option"
  pt_Retry :: "RetryPolicy option"
  pt_Hedging :: "HedgingPolicy option"
  pt_Breaker :: "BreakerPolicy option"
  pt_Bulkhead :: "BulkheadPolicy option"
  pt_RateLimit :: "RateLimitPolicy option"
  pt_LoadShedding :: "LoadSheddingPolicy option"
  pt_Stream :: "StreamPolicy option"

definition assign :: "'a option \<Rightarrow> 'a \<Rightarrow> 'a" where
  "assign source target = (case source of None \<Rightarrow> target | Some v \<Rightarrow> v)"

lemma assign_simps [simp]: "assign None t = t" "assign (Some v) t = v"
  by (simp_all add: assign_def)

definition Patch_apply :: "Patch \<Rightarrow> Policy \<Rightarrow> Policy" where
  "Patch_apply p base = base\<lparr>
     pol_Timeout := assign (pt_Timeout p) (pol_Timeout base),
     pol_Retry := assign (pt_Retry p) (pol_Retry base),
     pol_Hedging := assign (pt_Hedging p) (pol_Hedging base),
     pol_Breaker := assign (pt_Breaker p) (pol_Breaker base),
     pol_Bulkhead := assign (pt_Bulkhead p) (pol_Bulkhead base),
     pol_RateLimit := assign (pt_RateLimit p) (pol_RateLimit base),
     pol_LoadShedding := assign (pt_LoadShedding p) (pol_LoadShedding base),
     pol_Stream := assign (pt_Stream p) (pol_Stream base)\<rparr>"

section \<open>What validation gives\<close>

lemma Validate_parts:
  assumes "Validate v = None"
  shows "0 < pol_Timeout v" and "validateRetry (pol_Retry v) = None"
    and "validateHedging (pol_Hedging v) = None"
    and "\<not> (rt_Enabled (pol_Retry v) \<and> hg_Enabled (pol_Hedging v))"
    and "validateBreaker (pol_Breaker v) = None"
    and "validateBulkhead (pol_Bulkhead v) = None"
    and "validateRateLimit (pol_RateLimit v) = None"
    and "validateLoadShedding (pol_LoadShedding v) = None"
    and "ValidateStream (pol_Stream v) = None"
  using assms by (auto simp: Validate_def split: if_splits)

text \<open>The floats of an accepted enabled retry or breaker policy are finite ratios.\<close>

lemma ratio_finite:
  assumes "\<not> invalidRatio r" and "\<not> f_le r (Fin 0)" and "\<not> f_less (Fin 1) r"
  obtains q where "r = Fin q" and "0 < q" and "q \<le> 1"
  using assms by (cases r) (auto simp: invalidRatio_def f_IsNaN_def f_IsInf_def)

lemma validateRetry_enabled:
  assumes "validateRetry v = None" and "rt_Enabled v"
  obtains q where "rt_BudgetRatio v = Fin q" and "0 < q" and "q \<le> 1"
    and "rt_Idempotent v" and "2 \<le> rt_MaxAttempts v" and "rt_MaxAttempts v \<le> 10"
    and "0 < rt_BackoffMin v" and "rt_BackoffMin v \<le> rt_BackoffMax v"
  using assms ratio_finite [of "rt_BudgetRatio v"]
  by (auto simp: validateRetry_def attempt_limits split: if_splits)

lemma validateBreaker_enabled:
  assumes "validateBreaker v = None" and "br_Enabled v"
  obtains q where "br_FailureRatio v = Fin q" and "0 < q" and "q \<le> 1"
    and "0 < br_Window v" and "0 < br_MinRequests v" and "0 < br_OpenTimeout v"
    and "0 < br_HalfOpenProbes v"
  using assms ratio_finite [of "br_FailureRatio v"]
  by (auto simp: validateBreaker_def split: if_splits)

end
