(* ===== verification/Go_Strings.thy ===== *)
theory Go_Strings
  imports Prelude
begin

text \<open>
  The parts of Go's \<open>unicode/utf8\<close>, \<open>unicode\<close>, \<open>strings\<close> and \<open>net/url\<close> that the
  framework's identity checks use. A Go string is a sequence of bytes, here a \<open>string\<close>
  whose characters are the bytes; \<open>len\<close> is the list length.
\<close>

section \<open>UTF-8 decoding\<close>

type_synonym rune = nat

definition byte_of :: "char \<Rightarrow> nat" where
  "byte_of c = of_char c"

lemma byte_of_less: "byte_of c < 256"
  by (metis byte_of_def mod_less_divisor of_char_mod_256 zero_less_numeral)

lemma byte_of_char_of: "n < 256 \<Longrightarrow> byte_of (char_of n) = n"
  by (simp add: byte_of_def)

lemma char_of_byte_of [simp]: "char_of (byte_of c) = c"
  by (simp add: byte_of_def)

definition RuneError :: rune where "RuneError = 65533"

definition in_range :: "nat \<Rightarrow> nat \<Rightarrow> nat \<Rightarrow> bool" where
  "in_range lo hi b \<longleftrightarrow> lo \<le> b \<and> b \<le> hi"

abbreviation cont_byte :: "char \<Rightarrow> bool" where
  "cont_byte c \<equiv> in_range 128 191 (byte_of c)"

text \<open>
  \<open>second_range\<close> is the accept range of the second byte for each lead byte of a
  multi-byte sequence.
\<close>

definition second_range :: "nat \<Rightarrow> nat \<times> nat" where
  "second_range b0 =
     (if b0 = 224 then (160, 191)
      else if b0 = 237 then (128, 159)
      else if b0 = 240 then (144, 191)
      else if b0 = 244 then (128, 143)
      else (128, 191))"

text \<open>
  \<open>utf8.DecodeRuneInString\<close>: the first rune and its width; an invalid encoding is
  \<open>RuneError\<close> with width 1, the empty string \<open>RuneError\<close> with width 0.
\<close>

fun DecodeRune :: "string \<Rightarrow> rune \<times> nat" where
  "DecodeRune [] = (RuneError, 0)"
| "DecodeRune (c0 # cs) =
     (let b0 = byte_of c0; (lo, hi) = second_range b0 in
      if b0 < 128 then (b0, 1)
      else if in_range 194 223 b0 then
        (case cs of
           c1 # _ \<Rightarrow> if cont_byte c1
             then ((b0 mod 32) * 64 + byte_of c1 mod 64, 2) else (RuneError, 1)
         | _ \<Rightarrow> (RuneError, 1))
      else if in_range 224 239 b0 then
        (case cs of
           c1 # c2 # _ \<Rightarrow> if in_range lo hi (byte_of c1) \<and> cont_byte c2
             then ((b0 mod 16) * 4096 + (byte_of c1 mod 64) * 64 + byte_of c2 mod 64, 3)
             else (RuneError, 1)
         | _ \<Rightarrow> (RuneError, 1))
      else if in_range 240 244 b0 then
        (case cs of
           c1 # c2 # c3 # _ \<Rightarrow>
             if in_range lo hi (byte_of c1) \<and> cont_byte c2 \<and> cont_byte c3
             then ((b0 mod 8) * 262144 + (byte_of c1 mod 64) * 4096 +
                   (byte_of c2 mod 64) * 64 + byte_of c3 mod 64, 4)
             else (RuneError, 1)
         | _ \<Rightarrow> (RuneError, 1))
      else (RuneError, 1))"

lemma DecodeRune_width_pos: "s \<noteq> [] \<Longrightarrow> 0 < snd (DecodeRune s)"
  by (cases s) (auto simp: Let_def split: prod.splits list.splits)

text \<open>The runes a \<open>range\<close> loop over a string visits, with their widths.\<close>

function runes :: "string \<Rightarrow> (rune \<times> nat) list" where
  "runes s = (if s = [] then [] else DecodeRune s # runes (drop (snd (DecodeRune s)) s))"
  by pat_completeness auto
termination
  by (relation "measure length") (use DecodeRune_width_pos in auto)

declare runes.simps [simp del]

lemma runes_Nil [simp]: "runes [] = []"
  by (simp add: runes.simps)

lemma runes_Cons: "s \<noteq> [] \<Longrightarrow> runes s = DecodeRune s # runes (drop (snd (DecodeRune s)) s)"
  by (subst runes.simps) simp

definition ValidString :: "string \<Rightarrow> bool" where
  "ValidString s \<longleftrightarrow> (RuneError, 1) \<notin> set (runes s)"

definition IsControl :: "rune \<Rightarrow> bool" where
  "IsControl r \<longleftrightarrow> r < 32 \<or> 127 \<le> r \<and> r < 160"

definition containsControl :: "string \<Rightarrow> bool" where
  "containsControl s \<longleftrightarrow> list_ex (\<lambda>(r, _). IsControl r) (runes s)"

definition IsSpace :: "rune \<Rightarrow> bool" where
  "IsSpace r \<longleftrightarrow> in_range 9 13 r \<or> r = 32 \<or> r = 133 \<or> r = 160 \<or> r = 5760 \<or>
     in_range 8192 8202 r \<or> r = 8232 \<or> r = 8233 \<or> r = 8239 \<or> r = 8287 \<or> r = 12288"

section \<open>strings.TrimSpace\<close>

function trim_left :: "string \<Rightarrow> string" where
  "trim_left s =
     (if s \<noteq> [] \<and> IsSpace (fst (DecodeRune s))
      then trim_left (drop (snd (DecodeRune s)) s) else s)"
  by pat_completeness auto
termination
  by (relation "measure length") (use DecodeRune_width_pos in auto)

declare trim_left.simps [simp del]

text \<open>
  \<open>utf8.DecodeLastRuneInString\<close>: the last byte when it is ASCII; otherwise it looks
  back over at most four bytes for a byte that can start a rune and decodes from there.
\<close>

definition rune_start :: "char \<Rightarrow> bool" where
  "rune_start c \<longleftrightarrow> \<not> cont_byte c"

fun look_back :: "string \<Rightarrow> nat \<Rightarrow> nat \<Rightarrow> nat" where
  "look_back s lim 0 = 0"
| "look_back s lim (Suc i) =
     (if i < lim then i else if rune_start (s ! i) then i
      else if i = lim then (if i = 0 then 0 else i - 1) else look_back s lim i)"

definition DecodeLastRune :: "string \<Rightarrow> rune \<times> nat" where
  "DecodeLastRune s =
     (if s = [] then (RuneError, 0)
      else if byte_of (last s) < 128 then (byte_of (last s), 1)
      else (let end = length s; start = look_back s (end - 4) (end - 1);
                (r, size) = DecodeRune (drop start s)
            in if start + size \<noteq> end then (RuneError, 1) else (r, size)))"

lemma DecodeLastRune_width_pos: "s \<noteq> [] \<Longrightarrow> 0 < snd (DecodeLastRune s)"
proof -
  assume s: "s \<noteq> []"
  have lb: "i < length s \<Longrightarrow> look_back s lim i < length s" for lim i
    by (induction s lim i rule: look_back.induct) auto
  have "look_back s (length s - 4) (length s - 1) < length s"
    using s by (intro lb) simp
  then have "0 < snd (DecodeRune (drop (look_back s (length s - 4) (length s - 1)) s))"
    by (intro DecodeRune_width_pos) simp
  then show ?thesis
    using s by (auto simp: DecodeLastRune_def Let_def split: prod.splits)
qed

function trim_right :: "string \<Rightarrow> string" where
  "trim_right s =
     (if s \<noteq> [] \<and> IsSpace (fst (DecodeLastRune s))
      then trim_right (take (length s - snd (DecodeLastRune s)) s) else s)"
  by pat_completeness auto
termination
  by (relation "measure length") (use DecodeLastRune_width_pos in auto)

declare trim_right.simps [simp del]

definition TrimSpace :: "string \<Rightarrow> string" where
  "TrimSpace s = trim_right (trim_left s)"

lemma TrimSpace_Nil [simp]: "TrimSpace [] = []"
  by (simp add: TrimSpace_def trim_left.simps trim_right.simps)

section \<open>Bounded identities\<close>

text \<open>
  The identity check that most packages repeat verbatim: not empty, at most \<open>maximum\<close>
  bytes, no surrounding white space, valid UTF-8 and no control characters.
\<close>

definition validIdentity :: "string \<Rightarrow> nat \<Rightarrow> bool" where
  "validIdentity value maximum \<longleftrightarrow>
     \<not> (value = [] \<or> length value > maximum \<or> TrimSpace value \<noteq> value \<or>
        \<not> ValidString value) \<and> \<not> containsControl value"

lemma validIdentity_nonempty: "validIdentity v n \<Longrightarrow> v \<noteq> []"
  by (simp add: validIdentity_def)

lemma validIdentity_length: "validIdentity v n \<Longrightarrow> length v \<le> n"
  by (simp add: validIdentity_def)

lemma validIdentity_mono: "validIdentity v n \<Longrightarrow> n \<le> m \<Longrightarrow> validIdentity v m"
  by (auto simp: validIdentity_def)

section \<open>ASCII strings\<close>

text \<open>
  For strings of graphic ASCII characters the checks reduce to the length bound; the
  concrete identities of the witnesses are decided through these facts.
\<close>

definition graphic :: "string \<Rightarrow> bool" where
  "graphic s \<longleftrightarrow> list_all (\<lambda>c. 32 < byte_of c \<and> byte_of c < 127) s"

lemma graphic_simps [simp]:
  "graphic []"
  "graphic (c # cs) \<longleftrightarrow> 32 < byte_of c \<and> byte_of c < 127 \<and> graphic cs"
  by (simp_all add: graphic_def)

lemma DecodeRune_ascii [simp]: "byte_of c < 128 \<Longrightarrow> DecodeRune (c # cs) = (byte_of c, 1)"
  by (simp add: Let_def split: prod.splits)

lemma runes_graphic: "graphic s \<Longrightarrow> runes s = map (\<lambda>c. (byte_of c, 1)) s"
  by (induction s) (simp_all add: runes_Cons)

lemma TrimSpace_graphic: "graphic s \<Longrightarrow> TrimSpace s = s"
proof (cases s)
  case (Cons c cs)
  assume g: "graphic s"
  have lt: "32 < byte_of x \<and> byte_of x < 127" if "x \<in> set s" for x
    using g that by (auto simp: graphic_def list_all_iff)
  have "trim_left s = s"
    using g Cons by (simp add: trim_left.simps IsSpace_def in_range_def)
  moreover have "trim_right s = s"
    using lt [of "last s"] Cons
    by (subst trim_right.simps) (auto simp: DecodeLastRune_def IsSpace_def in_range_def)
  ultimately show ?thesis by (simp add: TrimSpace_def)
qed simp

lemma validIdentity_graphic:
  assumes "graphic s" and "s \<noteq> []" and "length s \<le> n"
  shows "validIdentity s n"
  using assms
  by (auto simp: validIdentity_def TrimSpace_graphic ValidString_def containsControl_def
      runes_graphic graphic_def list_all_iff list_ex_iff IsControl_def RuneError_def)

lemmas ascii_eval = byte_of_def validIdentity_graphic TrimSpace_graphic

end
