(* ===== verification/Operation.thy ===== *)
theory Operation
  imports Go_Strings Errors
begin

text \<open>
  Stable call identities (\<open>operation/operation.go\<close>, \<open>operation/matcher.go\<close>): the validated
  constructor, the policy key under which every policy, limiter and budget is filed, and
  the field-level matchers.
\<close>

section \<open>url.PathEscape\<close>

text \<open>
  \<open>net/url\<close> leaves the unreserved characters and, inside a path segment, \<open>$ & + : = @\<close>
  alone and writes every other byte as a percent sign and two upper-case hex digits.
\<close>

definition alnum :: "char \<Rightarrow> bool" where
  "alnum c \<longleftrightarrow> in_range 97 122 (byte_of c) \<or> in_range 65 90 (byte_of c) \<or>
     in_range 48 57 (byte_of c)"

definition shouldEscape :: "char \<Rightarrow> bool" where
  "shouldEscape c \<longleftrightarrow> \<not> (alnum c \<or> c \<in> set ''-_.~'' \<or> c \<in> set ''$&+:=@'')"

definition hex_digit :: "nat \<Rightarrow> char" where
  "hex_digit n = (if n < 10 then char_of (48 + n) else char_of (55 + n))"

definition escape_byte :: "char \<Rightarrow> string" where
  "escape_byte c = (if shouldEscape c
     then [CHR ''%'', hex_digit (byte_of c div 16), hex_digit (byte_of c mod 16)] else [c])"

definition PathEscape :: "string \<Rightarrow> string" where
  "PathEscape s = concat (map escape_byte s)"

section \<open>Operations\<close>

text \<open>
  The Go type \<open>Kind\<close> is a string, so that unknown kinds reach \<open>validKind\<close>.
\<close>

definition KindUnary :: string where "KindUnary = ''unary''"
definition KindClientStream :: string where "KindClientStream = ''client-stream''"
definition KindServerStream :: string where "KindServerStream = ''server-stream''"
definition KindBidiStream :: string where "KindBidiStream = ''bidi-stream''"
definition KindConsumer :: string where "KindConsumer = ''consumer''"
definition KindJob :: string where "KindJob = ''job''"

lemmas Kind_defs = KindUnary_def KindClientStream_def KindServerStream_def
  KindBidiStream_def KindConsumer_def KindJob_def

record Operation =
  transport :: string
  service :: string
  op_method :: string
  op_kind :: string

definition validTransport :: "string \<Rightarrow> bool" where
  "validTransport t = (case t of [] \<Rightarrow> False
     | c # cs \<Rightarrow> in_range 97 122 (byte_of c) \<and>
         list_all (\<lambda>ch. in_range 97 122 (byte_of ch) \<or> in_range 48 57 (byte_of ch) \<or>
            ch \<in> {CHR ''+'', CHR ''-'', CHR ''.''}) cs)"

definition validComponent :: "string \<Rightarrow> bool" where
  "validComponent v \<longleftrightarrow>
     \<not> (v = [] \<or> \<not> ValidString v) \<and> TrimSpace v = v \<and> \<not> containsControl v"

definition validKind :: "string \<Rightarrow> bool" where
  "validKind k \<longleftrightarrow> k \<in> {KindUnary, KindClientStream, KindServerStream, KindBidiStream,
     KindConsumer, KindJob}"

abbreviation ErrInvalidOperation :: goerr where
  "ErrInvalidOperation \<equiv> Sentinel ''operation: invalid operation''"

text \<open>
  \<open>operation.New\<close>. The Unicode case mapping \<open>strings.ToLower\<close> is the argument \<open>lower\<close>.
\<close>

definition operation_New ::
  "(string \<Rightarrow> string) \<Rightarrow> string \<Rightarrow> string \<Rightarrow> string \<Rightarrow> string \<Rightarrow> goerr + Operation" where
  "operation_New lower tr svc m k = (let normalized = lower tr in
     if \<not> validTransport normalized then Err (Wrapf ''transport'' [ErrInvalidOperation])
     else if \<not> validComponent svc then Err (Wrapf ''service'' [ErrInvalidOperation])
     else if \<not> validComponent m then Err (Wrapf ''method'' [ErrInvalidOperation])
     else if \<not> validKind k then Err (Wrapf ''kind'' [ErrInvalidOperation])
     else Ok \<lparr>transport = normalized, service = svc, op_method = m, op_kind = k\<rparr>)"

definition PolicyKey :: "Operation \<Rightarrow> string" where
  "PolicyKey o' = PathEscape (transport o') @ ''/'' @ PathEscape (service o') @ ''/'' @
     PathEscape (op_method o') @ ''/'' @ PathEscape (op_kind o')"

section \<open>Matchers\<close>

text \<open>
  \<open>compiledMatcher\<close>: the compiled regular expressions of the standard library are
  predicates on strings, nil when the expression is empty.
\<close>

datatype MatchMode = MatchExact | MatchPrefix | MatchRegexp

record compiledMatcher =
  m_mode :: MatchMode
  m_transport :: string
  m_service :: string
  m_method :: string
  m_kind :: string
  m_serviceRE :: "(string \<Rightarrow> bool) option"
  m_methodRE :: "(string \<Rightarrow> bool) option"

definition matchExact :: "string \<Rightarrow> string \<Rightarrow> bool" where
  "matchExact expression v \<longleftrightarrow> expression = [] \<or> expression = v"

definition HasPrefix :: "string \<Rightarrow> string \<Rightarrow> bool" where
  "HasPrefix v p \<longleftrightarrow> take (length p) v = p"

definition matchPrefix :: "string \<Rightarrow> string \<Rightarrow> bool" where
  "matchPrefix expression v \<longleftrightarrow> expression = [] \<or> HasPrefix v expression"

definition matchRegexp :: "(string \<Rightarrow> bool) option \<Rightarrow> string \<Rightarrow> bool" where
  "matchRegexp expression v = (case expression of None \<Rightarrow> True | Some f \<Rightarrow> f v)"

definition compiledMatcher_Match :: "compiledMatcher \<Rightarrow> Operation \<Rightarrow> bool" where
  "compiledMatcher_Match m target =
     (if m_transport m \<noteq> [] \<and> transport target \<noteq> m_transport m then False
      else if m_kind m \<noteq> [] \<and> op_kind target \<noteq> m_kind m then False
      else (case m_mode m of
         MatchExact \<Rightarrow> matchExact (m_service m) (service target) \<and>
           matchExact (m_method m) (op_method target)
       | MatchPrefix \<Rightarrow> matchPrefix (m_service m) (service target) \<and>
           matchPrefix (m_method m) (op_method target)
       | MatchRegexp \<Rightarrow> matchRegexp (m_serviceRE m) (service target) \<and>
           matchRegexp (m_methodRE m) (op_method target)))"

record MatchPattern =
  p_mode :: string
  p_transport :: string
  p_service :: string
  p_method :: string
  p_kind :: string

definition validateMatcherExpression :: "string \<Rightarrow> bool" where
  "validateMatcherExpression v \<longleftrightarrow> v = [] \<or>
     \<not> (length v > 512 \<or> TrimSpace v \<noteq> v \<or> \<not> validComponent v)"

definition parse_mode :: "string \<Rightarrow> MatchMode option" where
  "parse_mode s = (if s = [] \<or> s = ''exact'' then Some MatchExact
     else if s = ''prefix'' then Some MatchPrefix
     else if s = ''regexp'' then Some MatchRegexp else None)"

text \<open>
  \<open>CompileMatcher\<close>. \<open>regexp.Compile\<close> is the argument \<open>re\<close>: None for a malformed
  expression, otherwise its \<open>MatchString\<close>.
\<close>

definition compile_re ::
  "(string \<Rightarrow> (string \<Rightarrow> bool) option) \<Rightarrow> MatchMode \<Rightarrow> string \<Rightarrow>
     goerr + (string \<Rightarrow> bool) option" where
  "compile_re re mode expression =
     (if mode \<noteq> MatchRegexp \<or> expression = [] then Ok None
      else case re expression of None \<Rightarrow> Err (Wrapf ''regexp'' [ErrInvalidOperation])
        | Some f \<Rightarrow> Ok (Some f))"

definition CompileMatcher ::
  "(string \<Rightarrow> string) \<Rightarrow> (string \<Rightarrow> (string \<Rightarrow> bool) option) \<Rightarrow> MatchPattern \<Rightarrow>
     goerr + compiledMatcher" where
  "CompileMatcher lower re p = (case parse_mode (p_mode p) of
     None \<Rightarrow> Err (Wrapf ''matcher mode is invalid'' [ErrInvalidOperation])
   | Some mode \<Rightarrow> (let tr = lower (p_transport p) in
       if p_transport p \<noteq> [] \<and> (tr \<noteq> p_transport p \<or> \<not> validTransport tr)
         then Err (Wrapf ''matcher transport is invalid'' [ErrInvalidOperation])
       else if p_kind p \<noteq> [] \<and> \<not> validKind (p_kind p)
         then Err (Wrapf ''matcher kind is invalid'' [ErrInvalidOperation])
       else if p_service p = [] \<and> p_method p = [] \<and> tr = [] \<and> p_kind p = []
         then Err (Wrapf ''matcher has no filters'' [ErrInvalidOperation])
       else if \<not> validateMatcherExpression (p_service p)
         then Err (Wrapf ''service matcher'' [ErrInvalidOperation])
       else if \<not> validateMatcherExpression (p_method p)
         then Err (Wrapf ''method matcher'' [ErrInvalidOperation])
       else case compile_re re mode (p_service p) of Err e \<Rightarrow> Err e
         | Ok sre \<Rightarrow> (case compile_re re mode (p_method p) of Err e \<Rightarrow> Err e
             | Ok mre \<Rightarrow> Ok \<lparr>m_mode = mode, m_transport = tr, m_service = p_service p,
                 m_method = p_method p, m_kind = p_kind p, m_serviceRE = sre,
                 m_methodRE = mre\<rparr>)))"

section \<open>PolicyKey is collision-free\<close>

text \<open>A left inverse of the escaping, used in the proof only.\<close>

definition hex_val :: "char \<Rightarrow> nat" where
  "hex_val c = (if byte_of c < 58 then byte_of c - 48 else byte_of c - 55)"

fun unescape :: "string \<Rightarrow> string" where
  "unescape [] = []"
| "unescape (c # cs) = (if c = CHR ''%'' then (case cs of
       h # l # rest \<Rightarrow> char_of (16 * hex_val h + hex_val l) # unescape rest
     | _ \<Rightarrow> [])
     else c # unescape cs)"

lemma hex_val_digit: "n < 16 \<Longrightarrow> hex_val (hex_digit n) = n"
  by (simp add: hex_val_def hex_digit_def byte_of_char_of)

lemma escape_percent: "shouldEscape (CHR ''%'')"
  by (simp add: shouldEscape_def alnum_def byte_of_def in_range_def)

lemma unescape_escape_byte: "unescape (escape_byte c @ s) = c # unescape s"
proof (cases "shouldEscape c")
  case True
  have "16 * (byte_of c div 16) + byte_of c mod 16 = byte_of c" by simp
  with True byte_of_less [of c] show ?thesis
    by (simp add: escape_byte_def hex_val_digit char_of_byte_of)
next
  case False
  then have "c \<noteq> CHR ''%''" using escape_percent by auto
  with False show ?thesis by (simp add: escape_byte_def)
qed

lemma unescape_PathEscape: "unescape (PathEscape s) = s"
  by (induction s) (simp_all add: PathEscape_def unescape_escape_byte)

lemma PathEscape_inj: "PathEscape s = PathEscape t \<Longrightarrow> s = t"
  by (metis unescape_PathEscape)

lemma hex_digit_slash: "n < 16 \<Longrightarrow> hex_digit n \<noteq> CHR ''/''"
proof
  assume n: "n < 16" and "hex_digit n = CHR ''/''"
  then have "byte_of (hex_digit n) = 47" by (simp add: byte_of_def)
  with n show False by (simp add: hex_digit_def byte_of_char_of split: if_splits)
qed

lemma escape_slash: "shouldEscape (CHR ''/'')"
  by (simp add: shouldEscape_def alnum_def byte_of_def in_range_def)

lemma PathEscape_no_slash: "CHR ''/'' \<notin> set (PathEscape s)"
proof -
  have "CHR ''/'' \<notin> set (escape_byte c)" for c
    using escape_slash less_mult_imp_div_less [of "byte_of c" 16 16] byte_of_less [of c]
      hex_digit_slash [of "byte_of c div 16"] hex_digit_slash [of "byte_of c mod 16"]
    by (auto simp: escape_byte_def)
  then show ?thesis by (auto simp: PathEscape_def)
qed

lemma PathEscape_eq [simp]: "PathEscape s = PathEscape t \<longleftrightarrow> s = t"
  using PathEscape_inj by blast

lemma PathEscape_split [simp]:
  "PathEscape a @ CHR ''/'' # s = PathEscape b @ CHR ''/'' # t \<longleftrightarrow> a = b \<and> s = t"
  using split_at_unique [of "PathEscape a" "CHR ''/''" s "PathEscape b" t] PathEscape_no_slash
  by auto

lemma PolicyKey_inj: "PolicyKey o1 = PolicyKey o2 \<Longrightarrow> o1 = o2"
  by (simp add: PolicyKey_def)

end
