(* ===== verification/Policy_Store.thy ===== *)
theory Policy_Store
  imports Policy Operation
begin

text \<open>
  Compiled policy snapshots, their resolution order and the atomic store
  (\<open>governance/policy/store.go\<close>), and the translation of the typed configuration into a
  definition (\<open>governance/policy/config.go\<close>).
\<close>

section \<open>Definitions and snapshots\<close>

record ServiceRule =
  sr_Service :: string
  sr_Patch :: Patch

record MethodRule =
  mr_Operation :: Operation
  mr_Patch :: Patch

text \<open>
  A matcher is a call that answers or panics (None); the rule holds it behind an interface
  that may be nil.
\<close>

type_synonym matcher = "Operation \<Rightarrow> bool option"

record MatchRule =
  mt_Name :: string
  mt_Matcher :: "matcher option"
  mt_Patch :: Patch
  mt_servicePatches :: "(string, Patch) gomap"

record Definition =
  d_Revision :: string
  d_Global :: Policy
  d_Services :: "ServiceRule list"
  d_Matchers :: "MatchRule list"
  d_Methods :: "MethodRule list"

record compiledMatchRule =
  cm_name :: string
  cm_matcher :: matcher
  cm_patch :: Patch
  cm_services :: "(string, Patch) gomap"

record Snapshot =
  sn_revision :: string
  sn_global :: Policy
  sn_services :: "(string, Policy) gomap"
  sn_matchers :: "compiledMatchRule list"
  sn_methods :: "(string, Policy) gomap"

definition safeMatch :: "matcher \<Rightarrow> Operation \<Rightarrow> bool" where
  "safeMatch m target = (case m target of None \<Rightarrow> False | Some b \<Rightarrow> b)"

definition Snapshot_Resolve :: "Snapshot \<Rightarrow> Operation \<Rightarrow> Policy" where
  "Snapshot_Resolve s target =
     (case gm_get (sn_methods s) (PolicyKey target) of
        Some v \<Rightarrow> v
      | None \<Rightarrow>
         (let base = assign (gm_get (sn_services s) (service target)) (sn_global s) in
          case find (\<lambda>r. safeMatch (cm_matcher r) target) (sn_matchers s) of
            None \<Rightarrow> base
          | Some r \<Rightarrow>
             Patch_apply (assign (gm_get (cm_services r) (service target)) (cm_patch r)) base))"

section \<open>Compilation\<close>

abbreviation ErrInvalidDefinition :: goerr where
  "ErrInvalidDefinition \<equiv> Sentinel ''policy: invalid definition''"

definition invalidDefinition :: "string \<Rightarrow> goerr + 'a" where
  "invalidDefinition m = Err (Wrapf m [ErrInvalidDefinition])"

lemma invalidDefinition_not_Ok [simp]: "invalidDefinition m \<noteq> Ok x"
  by (simp add: invalidDefinition_def)

definition policy_validIdentity :: "string \<Rightarrow> bool" where
  "policy_validIdentity v \<longleftrightarrow> \<not> (v = [] \<or> TrimSpace v \<noteq> v) \<and> \<not> containsControl v"

definition validOperation :: "Operation \<Rightarrow> bool" where
  "validOperation target \<longleftrightarrow> transport target \<noteq> [] \<and> policy_validIdentity (service target) \<and>
     policy_validIdentity (op_method target) \<and> op_kind target \<noteq> []"

fun compile_services ::
  "Policy \<Rightarrow> ServiceRule list \<Rightarrow> (string, Policy) gomap \<Rightarrow> goerr + (string, Policy) gomap" where
  "compile_services global [] acc = Ok acc"
| "compile_services global (rule # rules) acc =
     (if \<not> policy_validIdentity (sr_Service rule) then invalidDefinition ''service is invalid''
      else if gm_get acc (sr_Service rule) \<noteq> None
      then invalidDefinition ''service is duplicated''
      else (let resolved = Patch_apply (sr_Patch rule) global in
        case Validate resolved of
          Some e \<Rightarrow> Err (Wrapf ''service'' [ErrInvalidDefinition, e])
        | None \<Rightarrow> compile_services global rules (gm_put (sr_Service rule) resolved acc)))"

fun validate_service_patches ::
  "Patch \<Rightarrow> (string, Patch) gomap \<Rightarrow> (string, Policy) gomap \<Rightarrow> goerr option" where
  "validate_service_patches patch servicePatches [] = None"
| "validate_service_patches patch servicePatches ((svc, base) # rest) =
     (case Validate (Patch_apply (assign (gm_get servicePatches svc) patch) base) of
        Some e \<Rightarrow> Some (Wrapf ''matcher with service'' [ErrInvalidDefinition, e])
      | None \<Rightarrow> validate_service_patches patch servicePatches rest)"

definition validateMatchPatch ::
  "Patch \<Rightarrow> (string, Patch) gomap \<Rightarrow> Policy \<Rightarrow> (string, Policy) gomap \<Rightarrow> goerr option" where
  "validateMatchPatch patch servicePatches global services =
     (case Validate (Patch_apply patch global) of
        Some e \<Rightarrow> Some (Wrapf ''matcher with global base'' [ErrInvalidDefinition, e])
      | None \<Rightarrow> validate_service_patches patch servicePatches services)"

fun compile_matchers ::
  "Policy \<Rightarrow> (string, Policy) gomap \<Rightarrow> string list \<Rightarrow> MatchRule list \<Rightarrow>
     goerr + compiledMatchRule list" where
  "compile_matchers global services seen [] = Ok []"
| "compile_matchers global services seen (rule # rules) =
     (if \<not> policy_validIdentity (mt_Name rule) then invalidDefinition ''matcher name is invalid''
      else if mt_Name rule \<in> set seen then invalidDefinition ''matcher name is duplicated''
      else case mt_Matcher rule of
        None \<Rightarrow> invalidDefinition ''matcher is nil''
      | Some m \<Rightarrow>
        (case validateMatchPatch (mt_Patch rule) (mt_servicePatches rule) global services of
           Some e \<Rightarrow> Err e
         | None \<Rightarrow>
           (case compile_matchers global services (mt_Name rule # seen) rules of
              Err e \<Rightarrow> Err e
            | Ok ms \<Rightarrow> Ok (\<lparr>cm_name = mt_Name rule, cm_matcher = m, cm_patch = mt_Patch rule,
                cm_services = mt_servicePatches rule\<rparr> # ms))))"

fun compile_methods ::
  "Policy \<Rightarrow> (string, Policy) gomap \<Rightarrow> MethodRule list \<Rightarrow> (string, Policy) gomap \<Rightarrow>
     goerr + (string, Policy) gomap" where
  "compile_methods global services [] acc = Ok acc"
| "compile_methods global services (rule # rules) acc =
     (if \<not> validOperation (mr_Operation rule)
      then invalidDefinition ''method operation is invalid''
      else (let key = PolicyKey (mr_Operation rule) in
        if gm_get acc key \<noteq> None then invalidDefinition ''method is duplicated''
        else (let base = assign (gm_get services (service (mr_Operation rule))) global;
                  resolved = Patch_apply (mr_Patch rule) base in
          case Validate resolved of
            Some e \<Rightarrow> Err (Wrapf ''method'' [ErrInvalidDefinition, e])
          | None \<Rightarrow> compile_methods global services rules (gm_put key resolved acc))))"

definition compile :: "Definition \<Rightarrow> goerr + Snapshot" where
  "compile d =
     (if \<not> policy_validIdentity (d_Revision d) then invalidDefinition ''revision is invalid''
      else case Validate (d_Global d) of
        Some e \<Rightarrow> Err (Wrapf ''global'' [ErrInvalidDefinition, e])
      | None \<Rightarrow> (case compile_services (d_Global d) (d_Services d) [] of
          Err e \<Rightarrow> Err e
        | Ok services \<Rightarrow> (case compile_matchers (d_Global d) services [] (d_Matchers d) of
            Err e \<Rightarrow> Err e
          | Ok matchers \<Rightarrow> (case compile_methods (d_Global d) services (d_Methods d) [] of
              Err e \<Rightarrow> Err e
            | Ok methods \<Rightarrow> Ok \<lparr>sn_revision = d_Revision d, sn_global = d_Global d,
                sn_services = services, sn_matchers = matchers, sn_methods = methods\<rparr>))))"

section \<open>The store\<close>

text \<open>
  The atomic pointer is nil only in a zero \<open>Store\<close>; \<open>Store_Resolve\<close> and
  \<open>Store_Current\<close> dereference it, and None is that panic.
\<close>

record PolicyStore =
  ps_current :: "Snapshot option"

definition NewStore :: "Definition \<Rightarrow> goerr + PolicyStore" where
  "NewStore d = (case compile d of Err e \<Rightarrow> Err e | Ok s \<Rightarrow> Ok \<lparr>ps_current = Some s\<rparr>)"

definition Store_Update :: "PolicyStore \<Rightarrow> Definition \<Rightarrow> (goerr + bool) \<times> PolicyStore" where
  "Store_Update st d =
     (if map_option sn_revision (ps_current st) = Some (d_Revision d) then (Ok False, st)
      else case compile d of
        Err e \<Rightarrow> (Err e, st)
      | Ok next \<Rightarrow> (Ok True, st\<lparr>ps_current := Some next\<rparr>))"

definition Store_Resolve :: "PolicyStore \<Rightarrow> Operation \<Rightarrow> Policy option" where
  "Store_Resolve st target = map_option (\<lambda>s. Snapshot_Resolve s target) (ps_current st)"

record StoreDescription =
  sd_Revision :: string
  sd_ServiceRules :: nat
  sd_MatcherRules :: nat
  sd_MethodRules :: nat

definition Store_Describe :: "PolicyStore option \<Rightarrow> StoreDescription" where
  "Store_Describe st =
     (case Option.bind st ps_current of
        None \<Rightarrow> \<lparr>sd_Revision = [], sd_ServiceRules = 0, sd_MatcherRules = 0, sd_MethodRules = 0\<rparr>
      | Some current \<Rightarrow> \<lparr>sd_Revision = sn_revision current,
          sd_ServiceRules = length (sn_services current),
          sd_MatcherRules = length (sn_matchers current),
          sd_MethodRules = length (sn_methods current)\<rparr>)"

section \<open>Typed configuration\<close>

record RetryConfig =
  rtc_Enabled :: "bool option"
  rtc_Idempotent :: "bool option"
  rtc_MaxAttempts :: "int option"
  rtc_BackoffMin :: "duration option"
  rtc_BackoffMax :: "duration option"
  rtc_BudgetRatio :: "float64 option"

record HedgingConfig =
  hgc_Enabled :: "bool option"
  hgc_Idempotent :: "bool option"
  hgc_MaxAttempts :: "int option"
  hgc_Delay :: "duration option"

record BreakerConfig =
  brc_Enabled :: "bool option"
  brc_FailureRatio :: "float64 option"
  brc_Window :: "duration option"
  brc_MinRequests :: "int option"
  brc_OpenTimeout :: "duration option"
  brc_HalfOpenProbes :: "int option"

record BulkheadConfig =
  bhc_Enabled :: "bool option"
  bhc_MaxConcurrency :: "int option"
  bhc_MaxQueue :: "int option"
  bhc_QueueTimeout :: "duration option"

record RateLimitConfig =
  rlc_Enabled :: "bool option"
  rlc_RequestsPerSecond :: "float64 option"
  rlc_Burst :: "int option"
  rlc_MaxConcurrency :: "int option"

record LoadSheddingConfig =
  lsc_Enabled :: "bool option"
  lsc_MaxConcurrency :: "int option"
  lsc_CPUThreshold :: "float64 option"

record StreamConfig =
  stc_Enabled :: "bool option"
  stc_MaxSendMessages :: "int option"
  stc_MaxReceiveMessages :: "int option"
  stc_MessagesPerSecond :: "float64 option"
  stc_Burst :: "int option"
  stc_MaxConcurrency :: "int option"

record Overrides =
  ov_Timeout :: "duration option"
  ov_Retry :: "RetryConfig option"
  ov_Hedging :: "HedgingConfig option"
  ov_Breaker :: "BreakerConfig option"
  ov_Bulkhead :: "BulkheadConfig option"
  ov_RateLimit :: "RateLimitConfig option"
  ov_LoadShedding :: "LoadSheddingConfig option"
  ov_Stream :: "StreamConfig option"

definition applyRetryConfig :: "RetryPolicy \<Rightarrow> RetryConfig \<Rightarrow> RetryPolicy" where
  "applyRetryConfig t v = t\<lparr>
     rt_Enabled := assign (rtc_Enabled v) (rt_Enabled t),
     rt_Idempotent := assign (rtc_Idempotent v) (rt_Idempotent t),
     rt_MaxAttempts := assign (rtc_MaxAttempts v) (rt_MaxAttempts t),
     rt_BackoffMin := assign (rtc_BackoffMin v) (rt_BackoffMin t),
     rt_BackoffMax := assign (rtc_BackoffMax v) (rt_BackoffMax t),
     rt_BudgetRatio := assign (rtc_BudgetRatio v) (rt_BudgetRatio t)\<rparr>"

definition applyHedgingConfig :: "HedgingPolicy \<Rightarrow> HedgingConfig \<Rightarrow> HedgingPolicy" where
  "applyHedgingConfig t v = t\<lparr>
     hg_Enabled := assign (hgc_Enabled v) (hg_Enabled t),
     hg_Idempotent := assign (hgc_Idempotent v) (hg_Idempotent t),
     hg_MaxAttempts := assign (hgc_MaxAttempts v) (hg_MaxAttempts t),
     hg_Delay := assign (hgc_Delay v) (hg_Delay t)\<rparr>"

definition applyBreakerConfig :: "BreakerPolicy \<Rightarrow> BreakerConfig \<Rightarrow> BreakerPolicy" where
  "applyBreakerConfig t v = t\<lparr>
     br_Enabled := assign (brc_Enabled v) (br_Enabled t),
     br_FailureRatio := assign (brc_FailureRatio v) (br_FailureRatio t),
     br_Window := assign (brc_Window v) (br_Window t),
     br_MinRequests := assign (brc_MinRequests v) (br_MinRequests t),
     br_OpenTimeout := assign (brc_OpenTimeout v) (br_OpenTimeout t),
     br_HalfOpenProbes := assign (brc_HalfOpenProbes v) (br_HalfOpenProbes t)\<rparr>"

definition applyBulkheadConfig :: "BulkheadPolicy \<Rightarrow> BulkheadConfig \<Rightarrow> BulkheadPolicy" where
  "applyBulkheadConfig t v = t\<lparr>
     bh_Enabled := assign (bhc_Enabled v) (bh_Enabled t),
     bh_MaxConcurrency := assign (bhc_MaxConcurrency v) (bh_MaxConcurrency t),
     bh_MaxQueue := assign (bhc_MaxQueue v) (bh_MaxQueue t),
     bh_QueueTimeout := assign (bhc_QueueTimeout v) (bh_QueueTimeout t)\<rparr>"

definition applyRateLimitConfig :: "RateLimitPolicy \<Rightarrow> RateLimitConfig \<Rightarrow> RateLimitPolicy" where
  "applyRateLimitConfig t v = t\<lparr>
     rl_Enabled := assign (rlc_Enabled v) (rl_Enabled t),
     rl_RequestsPerSecond := assign (rlc_RequestsPerSecond v) (rl_RequestsPerSecond t),
     rl_Burst := assign (rlc_Burst v) (rl_Burst t),
     rl_MaxConcurrency := assign (rlc_MaxConcurrency v) (rl_MaxConcurrency t)\<rparr>"

definition applyLoadSheddingConfig ::
  "LoadSheddingPolicy \<Rightarrow> LoadSheddingConfig \<Rightarrow> LoadSheddingPolicy" where
  "applyLoadSheddingConfig t v = t\<lparr>
     ls_Enabled := assign (lsc_Enabled v) (ls_Enabled t),
     ls_MaxConcurrency := assign (lsc_MaxConcurrency v) (ls_MaxConcurrency t),
     ls_CPUThreshold := assign (lsc_CPUThreshold v) (ls_CPUThreshold t)\<rparr>"

definition applyStreamConfig :: "StreamPolicy \<Rightarrow> StreamConfig \<Rightarrow> StreamPolicy" where
  "applyStreamConfig t v = t\<lparr>
     st_Enabled := assign (stc_Enabled v) (st_Enabled t),
     st_MaxSendMessages := assign (stc_MaxSendMessages v) (st_MaxSendMessages t),
     st_MaxReceiveMessages := assign (stc_MaxReceiveMessages v) (st_MaxReceiveMessages t),
     st_MessagesPerSecond := assign (stc_MessagesPerSecond v) (st_MessagesPerSecond t),
     st_Burst := assign (stc_Burst v) (st_Burst t),
     st_MaxConcurrency := assign (stc_MaxConcurrency v) (st_MaxConcurrency t)\<rparr>"

definition Overrides_patch :: "Overrides \<Rightarrow> Policy \<Rightarrow> Patch" where
  "Overrides_patch v base = \<lparr>
     pt_Timeout = ov_Timeout v,
     pt_Retry = map_option (applyRetryConfig (pol_Retry base)) (ov_Retry v),
     pt_Hedging = map_option (applyHedgingConfig (pol_Hedging base)) (ov_Hedging v),
     pt_Breaker = map_option (applyBreakerConfig (pol_Breaker base)) (ov_Breaker v),
     pt_Bulkhead = map_option (applyBulkheadConfig (pol_Bulkhead base)) (ov_Bulkhead v),
     pt_RateLimit = map_option (applyRateLimitConfig (pol_RateLimit base)) (ov_RateLimit v),
     pt_LoadShedding =
       map_option (applyLoadSheddingConfig (pol_LoadShedding base)) (ov_LoadShedding v),
     pt_Stream = map_option (applyStreamConfig (pol_Stream base)) (ov_Stream v)\<rparr>"



record MatcherConfig =
  xc_Name :: string
  xc_Mode :: string
  xc_Transport :: string
  xc_Service :: string
  xc_Method :: string
  xc_Kind :: string
  xc_Policy :: Overrides








section \<open>Compilation, table by table\<close>

definition all_valid :: "(string, Policy) gomap \<Rightarrow> bool" where
  "all_valid m \<longleftrightarrow> (\<forall>k p. gm_get m k = Some p \<longrightarrow> Validate p = None)"

lemma all_valid_put: "all_valid m \<Longrightarrow> Validate p = None \<Longrightarrow> all_valid (gm_put k p m)"
  by (simp add: all_valid_def gm_get_put)

lemma all_validD: "all_valid m \<Longrightarrow> gm_get m k = Some p \<Longrightarrow> Validate p = None"
  by (simp add: all_valid_def)

lemma compile_services_get:
  assumes "compile_services g rules acc = Ok m"
  shows "gm_get m k = (case gm_get acc k of Some p \<Rightarrow> Some p
    | None \<Rightarrow> map_option (\<lambda>r. Patch_apply (sr_Patch r) g) (find (\<lambda>r. sr_Service r = k) rules))"
  using assms
  by (induction g rules acc rule: compile_services.induct)
    (auto simp: Let_def gm_get_put split: if_splits option.splits)

lemma compile_services_valid:
  assumes "compile_services g rules acc = Ok m" and "all_valid acc"
  shows "all_valid m"
  using assms
  by (induction g rules acc rule: compile_services.induct)
    (auto simp: Let_def all_valid_put split: if_splits option.splits)

lemma compile_methods_get:
  assumes "compile_methods g svcs rules acc = Ok m"
  shows "gm_get m k = (case gm_get acc k of Some p \<Rightarrow> Some p
    | None \<Rightarrow> map_option (\<lambda>r. Patch_apply (mr_Patch r)
          (assign (gm_get svcs (service (mr_Operation r))) g))
        (find (\<lambda>r. PolicyKey (mr_Operation r) = k) rules))"
  using assms
  by (induction g svcs rules acc rule: compile_methods.induct)
    (auto simp: Let_def gm_get_put split: if_splits option.splits)

lemma compile_methods_valid:
  assumes "compile_methods g svcs rules acc = Ok m" and "all_valid acc"
  shows "all_valid m"
  using assms
  by (induction g svcs rules acc rule: compile_methods.induct)
    (auto simp: Let_def all_valid_put split: if_splits option.splits)

definition compiled_rule :: "MatchRule \<Rightarrow> compiledMatchRule" where
  "compiled_rule r = \<lparr>cm_name = mt_Name r, cm_matcher = the (mt_Matcher r),
     cm_patch = mt_Patch r, cm_services = mt_servicePatches r\<rparr>"

lemma compile_matchers_Ok:
  assumes "compile_matchers g svcs seen rules = Ok ms"
  shows "ms = map compiled_rule rules"
    and "r \<in> set rules \<Longrightarrow>
      mt_Matcher r \<noteq> None \<and> validateMatchPatch (mt_Patch r) (mt_servicePatches r) g svcs = None"
  using assms
  by (induction g svcs seen rules arbitrary: ms rule: compile_matchers.induct)
    (auto simp: compiled_rule_def split: if_splits option.splits sum.splits)

lemma validate_service_patches_get:
  assumes "validate_service_patches patch sp services = None" and "(svc, base) \<in> set services"
  shows "Validate (Patch_apply (assign (gm_get sp svc) patch) base) = None"
  using assms
  by (induction patch sp services rule: validate_service_patches.induct)
    (auto split: option.splits)

lemma compile_Ok:
  assumes "compile d = Ok s"
  obtains services methods where
    "Validate (d_Global d) = None"
    "compile_services (d_Global d) (d_Services d) [] = Ok services"
    "compile_matchers (d_Global d) services [] (d_Matchers d) = Ok (sn_matchers s)"
    "compile_methods (d_Global d) services (d_Methods d) [] = Ok methods"
    "s = \<lparr>sn_revision = d_Revision d, sn_global = d_Global d, sn_services = services,
       sn_matchers = map compiled_rule (d_Matchers d), sn_methods = methods\<rparr>"
  using assms compile_matchers_Ok(1)
  by (fastforce simp: compile_def split: if_splits option.splits sum.splits)

section \<open>Resolution by precedence\<close>

text \<open>
  What a definition promises, read off its rules: the exact method rule, then the first
  matching rule on the service or global base, then that base.
\<close>

definition spec_base :: "Definition \<Rightarrow> string \<Rightarrow> Policy" where
  "spec_base d svc = (case find (\<lambda>r. sr_Service r = svc) (d_Services d) of
     None \<Rightarrow> d_Global d | Some r \<Rightarrow> Patch_apply (sr_Patch r) (d_Global d))"

definition spec_matches :: "MatchRule \<Rightarrow> Operation \<Rightarrow> bool" where
  "spec_matches r target \<longleftrightarrow> (\<exists>m. mt_Matcher r = Some m \<and> m target = Some True)"

definition spec_resolve :: "Definition \<Rightarrow> Operation \<Rightarrow> Policy" where
  "spec_resolve d target =
     (let base = spec_base d (service target) in
      case find (\<lambda>r. mr_Operation r = target) (d_Methods d) of
        Some r \<Rightarrow> Patch_apply (mr_Patch r) base
      | None \<Rightarrow>
         (case find (\<lambda>r. spec_matches r target) (d_Matchers d) of
            Some r \<Rightarrow>
              Patch_apply (assign (gm_get (mt_servicePatches r) (service target)) (mt_Patch r)) base
          | None \<Rightarrow> base))"

lemma PolicyKey_eq [simp]: "PolicyKey a = PolicyKey b \<longleftrightarrow> a = b"
  using PolicyKey_inj by blast

lemma compile_base:
  assumes "compile_services (d_Global d) (d_Services d) [] = Ok services"
  shows "assign (gm_get services svc) (d_Global d) = spec_base d svc"
  using compile_services_get [OF assms, of svc]
  by (simp add: spec_base_def split: option.splits)

lemma safeMatch_compiled_rule:
  "mt_Matcher r \<noteq> None \<Longrightarrow> safeMatch (cm_matcher (compiled_rule r)) target = spec_matches r target"
  by (auto simp: safeMatch_def compiled_rule_def spec_matches_def split: option.splits)

lemma compile_first_match:
  assumes "compile_matchers g services [] rules = Ok ms"
  shows "find (\<lambda>r. safeMatch (cm_matcher r) target) (map compiled_rule rules) =
    map_option compiled_rule (find (\<lambda>r. spec_matches r target) rules)"
  using compile_matchers_Ok(2) [OF assms]
  by (auto simp: find_map safeMatch_compiled_rule intro!: arg_cong [where f = "map_option _"]
      find_cong_set)

lemma compile_refines_precedence:
  assumes "compile d = Ok s"
  shows "Snapshot_Resolve s target = spec_resolve d target"
proof -
  from assms obtain services methods where
    svc: "compile_services (d_Global d) (d_Services d) [] = Ok services" and
    mat: "compile_matchers (d_Global d) services [] (d_Matchers d) = Ok (sn_matchers s)" and
    met: "compile_methods (d_Global d) services (d_Methods d) [] = Ok methods" and
    s: "s = \<lparr>sn_revision = d_Revision d, sn_global = d_Global d, sn_services = services,
       sn_matchers = map compiled_rule (d_Matchers d), sn_methods = methods\<rparr>"
    by (rule compile_Ok)
  note base = compile_base [OF svc]
  have "gm_get methods (PolicyKey target) =
      map_option (\<lambda>r. Patch_apply (mr_Patch r) (spec_base d (service (mr_Operation r))))
        (find (\<lambda>r. mr_Operation r = target) (d_Methods d))"
    using compile_methods_get [OF met, of "PolicyKey target"] by (simp add: base)
  then show ?thesis
    by (auto simp: Snapshot_Resolve_def spec_resolve_def s base compile_first_match [OF mat]
        compiled_rule_def Let_def dest!: find_SomeD split: option.splits)
qed

section \<open>Every resolved policy is valid\<close>

text \<open>
  Per-service patches are unexported: they only come from the configuration, keyed by its
  services. Such definitions are the well-formed ones.
\<close>

definition wf_definition :: "Definition \<Rightarrow> bool" where
  "wf_definition d \<longleftrightarrow> list_all (\<lambda>r. list_all (\<lambda>k. k \<in> sr_Service ` set (d_Services d))
     (gm_keys (mt_servicePatches r))) (d_Matchers d)"

lemma compile_matcher_valid:
  assumes "compile d = Ok s" and "wf_definition d" and "r \<in> set (d_Matchers d)"
  shows "Validate (Patch_apply (assign (gm_get (mt_servicePatches r) svc) (mt_Patch r))
    (spec_base d svc)) = None"
proof -
  from assms(1) obtain services methods where
    svc: "compile_services (d_Global d) (d_Services d) [] = Ok services" and
    mat: "compile_matchers (d_Global d) services [] (d_Matchers d) = Ok (sn_matchers s)"
    by (rule compile_Ok)
  from compile_matchers_Ok(2) [OF mat assms(3)]
  have v: "validateMatchPatch (mt_Patch r) (mt_servicePatches r) (d_Global d) services = None"
    by blast
  note get = compile_services_get [OF svc, of svc] and base = compile_base [OF svc, of svc]
  show ?thesis
  proof (cases "gm_get services svc")
    case None
    then have "svc \<notin> sr_Service ` set (d_Services d)"
      using get by (auto simp: find_None_iff)
    then have "gm_get (mt_servicePatches r) svc = None"
      using assms(2,3) by (auto simp: wf_definition_def list_all_iff gm_get_None_iff)
    then show ?thesis using None base v
      by (simp add: validateMatchPatch_def split: option.splits)
  next
    case (Some p)
    then have "(svc, p) \<in> set services" by (simp add: map_of_SomeD)
    moreover have "validate_service_patches (mt_Patch r) (mt_servicePatches r) services = None"
      using v by (simp add: validateMatchPatch_def split: option.splits)
    ultimately show ?thesis
      using validate_service_patches_get Some base by force
  qed
qed

lemma spec_resolve_valid:
  assumes "compile d = Ok s" and "wf_definition d"
  shows "Validate (spec_resolve d target) = None"
proof -
  from assms(1) obtain services methods where
    g: "Validate (d_Global d) = None" and
    svc: "compile_services (d_Global d) (d_Services d) [] = Ok services" and
    met: "compile_methods (d_Global d) services (d_Methods d) [] = Ok methods"
    by (rule compile_Ok)
  have base: "Validate (spec_base d k) = None" for k
    using compile_base [OF svc, of k] g compile_services_valid [OF svc]
    by (cases "gm_get services k") (auto simp: all_valid_def)
  have meth: "Validate (Patch_apply (mr_Patch r) (spec_base d (service target))) = None"
    if "find (\<lambda>r. mr_Operation r = target) (d_Methods d) = Some r" for r
    using compile_methods_get [OF met, of "PolicyKey target"] that find_SomeD [OF that]
      compile_methods_valid [OF met] compile_base [OF svc]
    by (auto simp: all_valid_def)
  show ?thesis
    using base meth compile_matcher_valid [OF assms]
    by (auto simp: spec_resolve_def Let_def dest: find_SomeD split: option.splits)
qed

section \<open>The store over its updates\<close>

definition store_step :: "PolicyStore \<Rightarrow> Definition \<Rightarrow> PolicyStore" where
  "store_step st d = snd (Store_Update st d)"

text \<open>The definition in force: an update replaces it when its revision is new and it compiles.\<close>

definition accept :: "Definition \<Rightarrow> Definition \<Rightarrow> Definition" where
  "accept cur d = (if d_Revision cur = d_Revision d \<or> \<not> is_Ok (compile d) then cur else d)"

definition store_of :: "Definition \<Rightarrow> PolicyStore \<Rightarrow> bool" where
  "store_of d st \<longleftrightarrow> (\<exists>s. compile d = Ok s \<and> ps_current st = Some s)"

lemma compile_revision: "compile d = Ok s \<Longrightarrow> sn_revision s = d_Revision d"
  by (erule compile_Ok) simp

lemma store_step_accept: "store_of d st \<Longrightarrow> store_of (accept d d') (store_step st d')"
  by (auto simp: store_of_def store_step_def accept_def Store_Update_def compile_revision is_Ok_def
      split: sum.splits)

lemma store_run_accept: "store_of d st \<Longrightarrow> store_of (run accept d ds) (run store_step st ds)"
  by (induction ds arbitrary: d st) (auto intro: store_step_accept)

definition store_inv :: "PolicyStore \<Rightarrow> bool" where
  "store_inv st \<longleftrightarrow> (\<exists>d. store_of d st \<and> wf_definition d)"

interpretation policy_store: guarded_machine store_step "\<lambda>st d. wf_definition d" store_inv
proof
  fix st d
  assume "store_inv st" and wf: "wf_definition d"
  then obtain d0 where "store_of d0 st" and "wf_definition d0"
    unfolding store_inv_def by blast
  with wf store_step_accept [of d0 st d] show "store_inv (store_step st d)"
    unfolding store_inv_def accept_def by metis
qed

lemma NewStore_Ok: "NewStore d = Ok st \<longleftrightarrow> (\<exists>s. compile d = Ok s \<and> st = \<lparr>ps_current = Some s\<rparr>)"
  by (auto simp: NewStore_def split: sum.splits)

lemma store_inv_resolve:
  "store_inv st \<Longrightarrow> \<exists>p. Store_Resolve st target = Some p \<and> Validate p = None"
  using spec_resolve_valid compile_refines_precedence
  by (fastforce simp: store_inv_def store_of_def Store_Resolve_def)

section \<open>Configured overrides\<close>





definition cfg_matcher ::
  "(string \<Rightarrow> string) \<Rightarrow> (string \<Rightarrow> (string \<Rightarrow> bool) option) \<Rightarrow> MatcherConfig \<Rightarrow>
     goerr + compiledMatcher" where
  "cfg_matcher lower re r = CompileMatcher lower re \<lparr>p_mode = xc_Mode r,
     p_transport = xc_Transport r, p_service = xc_Service r, p_method = xc_Method r,
     p_kind = xc_Kind r\<rparr>"

definition cfg_matches ::
  "(string \<Rightarrow> string) \<Rightarrow> (string \<Rightarrow> (string \<Rightarrow> bool) option) \<Rightarrow> Operation \<Rightarrow> MatcherConfig \<Rightarrow>
     bool" where
  "cfg_matches lower re target r =
     (case cfg_matcher lower re r of Err _ \<Rightarrow> False | Ok m \<Rightarrow> compiledMatcher_Match m target)"



definition cfg_match_rule ::
  "(string \<Rightarrow> string) \<Rightarrow> (string \<Rightarrow> (string \<Rightarrow> bool) option) \<Rightarrow> Policy \<Rightarrow>
     (string, Policy) gomap \<Rightarrow> MatcherConfig \<Rightarrow> MatchRule" where
  "cfg_match_rule lower re global sps r = \<lparr>mt_Name = xc_Name r,
     mt_Matcher = Some (\<lambda>target. Some (cfg_matches lower re target r)),
     mt_Patch = Overrides_patch (xc_Policy r) global,
     mt_servicePatches = map (\<lambda>(svc, base). (svc, Overrides_patch (xc_Policy r) base)) sps\<rparr>"







lemma spec_matches_cfg [simp]:
  "spec_matches (cfg_match_rule lower re g sps r) target = cfg_matches lower re target r"
  by (simp add: spec_matches_def cfg_match_rule_def)








section \<open>A concrete definition and configuration\<close>

definition no_patch :: Patch where
  "no_patch = \<lparr>pt_Timeout = None, pt_Retry = None, pt_Hedging = None, pt_Breaker = None,
     pt_Bulkhead = None, pt_RateLimit = None, pt_LoadShedding = None, pt_Stream = None\<rparr>"

definition demo_op :: Operation where
  "demo_op = \<lparr>transport = ''grpc'', service = ''user'', op_method = ''Get'', op_kind = ''unary''\<rparr>"

definition demo_bootstrap :: Definition where
  "demo_bootstrap = \<lparr>d_Revision = ''bootstrap'', d_Global = Default, d_Services = [],
     d_Matchers = [], d_Methods = []\<rparr>"

definition demo_definition :: Definition where
  "demo_definition = \<lparr>d_Revision = ''r1'', d_Global = Default,
     d_Services = [\<lparr>sr_Service = ''user'', sr_Patch = no_patch\<lparr>pt_Timeout := Some second\<rparr>\<rparr>],
     d_Matchers = [\<lparr>mt_Name = ''all'', mt_Matcher = Some (\<lambda>_. Some True),
       mt_Patch = no_patch\<lparr>pt_Timeout := Some 7\<rparr>, mt_servicePatches = []\<rparr>],
     d_Methods = [\<lparr>mr_Operation = demo_op, mr_Patch = no_patch\<lparr>pt_Timeout := Some 5\<rparr>\<rparr>]\<rparr>"

definition no_overrides :: Overrides where
  "no_overrides = \<lparr>ov_Timeout = None, ov_Retry = None, ov_Hedging = None, ov_Breaker = None,
     ov_Bulkhead = None, ov_RateLimit = None, ov_LoadShedding = None, ov_Stream = None\<rparr>"


lemma Validate_Default: "Validate Default = None"
  using b64.rnd_nonneg [of "1 / 10"] b64.rnd_nonneg [of "1 / 2"]
  by (simp add: Validate_def Default_def duration_defs validateRetry_def validateHedging_def
      validateBreaker_def validateBulkhead_def validateRateLimit_def validateLoadShedding_def
      ValidateStream_def invalidRatio_def f_IsNaN_def f_IsInf_def to_float64_small
      zero_RateLimitPolicy_def zero_LoadSheddingPolicy_def zero_StreamPolicy_def)

lemma Validate_timeout: "0 < t \<Longrightarrow> Validate (Default\<lparr>pol_Timeout := t\<rparr>) = None"
  using Validate_Default by (simp add: Validate_def split: if_splits)

lemma Patch_apply_timeout [simp]:
  "Patch_apply no_patch p = p"
  "Patch_apply (no_patch\<lparr>pt_Timeout := Some t\<rparr>) p = p\<lparr>pol_Timeout := t\<rparr>"
  by (simp_all add: Patch_apply_def no_patch_def)

lemma Overrides_patch_timeout [simp]:
  "Overrides_patch no_overrides p = no_patch"
  "Overrides_patch (no_overrides\<lparr>ov_Timeout := Some t\<rparr>) p = no_patch\<lparr>pt_Timeout := Some t\<rparr>"
  by (simp_all add: Overrides_patch_def no_patch_def no_overrides_def)

lemma policy_validIdentity_graphic: "graphic s \<Longrightarrow> s \<noteq> [] \<Longrightarrow> policy_validIdentity s"
  by (auto simp: policy_validIdentity_def TrimSpace_graphic containsControl_def runes_graphic
      graphic_def list_all_iff list_ex_iff IsControl_def)



lemmas policy_eval = compile_def policy_validIdentity_graphic byte_of_def Validate_Default
  Validate_timeout validateMatchPatch_def validOperation_def demo_op_def duration_defs

lemma demo_bootstrap_compiles: "is_Ok (NewStore demo_bootstrap)"
  by (simp add: demo_bootstrap_def policy_eval NewStore_def is_Ok_def)

lemma demo_definition_compiles: "is_Ok (compile demo_definition)"
  by (simp add: demo_definition_def policy_eval is_Ok_def)



section \<open>Properties\<close>

text \<open>
  C25. Whatever sequence of updates a policy store receives, accepted, rejected or repeated, it
  resolves every operation to a policy that passes validation.
\<close>

theorem store_resolves_valid:
  assumes "NewStore d = Ok st" and "wf_definition d"
    and "run_ok store_step (\<lambda>st d. wf_definition d) st ds"
  shows "\<exists>p. Store_Resolve (run store_step st ds) target = Some p \<and> Validate p = None"
  using assms
  by (auto simp: NewStore_Ok store_of_def store_inv_def intro!: store_inv_resolve policy_store.run_inv)

theorem store_resolves_valid_witness:
  "\<exists>st p. NewStore demo_bootstrap = Ok st \<and>
     Store_Resolve (run store_step st [demo_definition]) demo_op = Some p \<and> Validate p = None"
proof -
  obtain st where st: "NewStore demo_bootstrap = Ok st"
    using demo_bootstrap_compiles by (auto simp: is_Ok_iff)
  have "wf_definition demo_bootstrap" "wf_definition demo_definition"
    by (simp_all add: wf_definition_def demo_bootstrap_def demo_definition_def)
  with st store_resolves_valid [of demo_bootstrap st "[demo_definition]" demo_op]
  show ?thesis by simp
qed

text \<open>
  C1. The store implements its definitions: after any updates it resolves by the declared
  precedence (the exact method rule of that very operation, else the first matching rule on the
  service or global base, else that base) of the last definition whose revision was new and
  which compiles; a rejected or repeated update changes nothing.
\<close>

theorem store_refines_definitions:
  assumes "NewStore d = Ok st"
  shows "Store_Resolve (run store_step st ds) target = Some (spec_resolve (run accept d ds) target)"
proof -
  have "store_of d st" using assms by (auto simp: NewStore_Ok store_of_def)
  then have "store_of (run accept d ds) (run store_step st ds)" by (rule store_run_accept)
  then show ?thesis
    by (auto simp: store_of_def Store_Resolve_def compile_refines_precedence)
qed

theorem store_refines_definitions_witness:
  "\<exists>st. NewStore demo_bootstrap = Ok st \<and>
     map_option pol_Timeout (Store_Resolve (run store_step st [demo_definition]) demo_op) = Some 5"
proof -
  obtain st where st: "NewStore demo_bootstrap = Ok st"
    using demo_bootstrap_compiles by (auto simp: is_Ok_iff)
  have "run accept demo_bootstrap [demo_definition] = demo_definition"
    using demo_definition_compiles
    by (simp add: accept_def) (simp add: demo_bootstrap_def demo_definition_def)
  moreover have "pol_Timeout (spec_resolve demo_definition demo_op) = 5"
    by (simp add: spec_resolve_def demo_definition_def Let_def)
  ultimately show ?thesis
    using st store_refines_definitions [OF st, of "[demo_definition]" demo_op] by simp
qed



end
