(* ===== verification/Context.thy ===== *)
theory Context
  imports Policy_Store
begin

text \<open>
  Invocation contexts and handlers: the request facts (\<open>operation/request_info.go\<close>), the
  attempt and probe marks (\<open>governance/attempt/context.go\<close>), the policy snapshot of an
  invocation (\<open>governance/policy/context.go\<close>), and the handler model with its composition
  and panic recovery (\<open>middleware\<close>).
\<close>

section \<open>Request facts\<close>

definition maxPeerAddressBytes :: nat where "maxPeerAddressBytes = 2 * 1024"

record Peer =
  pr_network :: string
  pr_address :: string

definition NewPeer :: "(string \<Rightarrow> string) \<Rightarrow> string \<Rightarrow> string \<Rightarrow> goerr + Peer" where
  "NewPeer lower network address =
     (let normalizedNetwork = lower (TrimSpace network);
          normalizedAddress = TrimSpace address in
      if \<not> validTransport normalizedNetwork
      then Err (Wrapf ''peer network'' [ErrInvalidOperation])
      else if normalizedAddress = [] \<or> length normalizedAddress > maxPeerAddressBytes \<or>
        \<not> ValidString normalizedAddress
      then Err (Wrapf ''peer address is empty, oversized, or malformed'' [ErrInvalidOperation])
      else if containsControl normalizedAddress
      then Err (Wrapf ''peer address contains a control character'' [ErrInvalidOperation])
      else Ok \<lparr>pr_network = normalizedNetwork, pr_address = normalizedAddress\<rparr>)"

record RequestInfo =
  ri_operation :: Operation
  ri_peer :: "Peer option"
  ri_attempt :: int
  ri_deadline :: "go_time option"

text \<open>The only request option is \<open>WithPeer\<close>; a nil option is None.\<close>

fun request_options :: "Peer option list \<Rightarrow> Peer option \<Rightarrow> goerr + Peer option" where
  "request_options [] acc = Ok acc"
| "request_options (None # os) acc =
     Err (Wrapf ''request info option is nil'' [ErrInvalidOperation])"
| "request_options (Some p # os) acc =
     (if pr_network p = [] \<or> pr_address p = []
      then Err (Wrapf ''request info option'' [ErrInvalidOperation,
        Wrapf ''peer is invalid'' [ErrInvalidOperation]])
      else request_options os (Some p))"

definition NewRequestInfo :: "Operation \<Rightarrow> Peer option list \<Rightarrow> goerr + RequestInfo" where
  "NewRequestInfo target options =
     (if transport target = [] \<or> service target = [] \<or> op_method target = [] \<or>
         \<not> validKind (op_kind target)
      then Err (Wrapf ''request operation is invalid'' [ErrInvalidOperation])
      else case request_options options None of Err e \<Rightarrow> Err e
        | Ok peer \<Rightarrow> Ok \<lparr>ri_operation = target, ri_peer = peer, ri_attempt = 1,
            ri_deadline = None\<rparr>)"

definition RequestInfo_Attempt :: "RequestInfo \<Rightarrow> int" where
  "RequestInfo_Attempt i = (if ri_attempt i < 1 then 1 else ri_attempt i)"

section \<open>Contexts\<close>

text \<open>
  The values Keelith stores in a context, under its private keys, and the two answers of the
  context itself: its deadline and, once done, its cause. A nil context is None.
\<close>

record Context =
  ctx_cause :: "goerr option"
  ctx_deadline :: "go_time option"
  ctx_info :: "RequestInfo option"
  ctx_attempt :: "int option"
  ctx_probe :: "bool option"
  ctx_resolved :: "(string \<times> Policy) option"
  ctx_instance :: "string option"
  ctx_fence :: "u64 option"

definition Background :: Context where
  "Background = \<lparr>ctx_cause = None, ctx_deadline = None, ctx_info = None, ctx_attempt = None,
     ctx_probe = None, ctx_resolved = None, ctx_instance = None, ctx_fence = None\<rparr>"

definition WithRequestInfo :: "Context \<Rightarrow> RequestInfo \<Rightarrow> Context" where
  "WithRequestInfo ctx info = ctx\<lparr>ctx_info := Some info\<rparr>"

definition operation_WithContext :: "Context \<Rightarrow> Operation \<Rightarrow> Context" where
  "operation_WithContext ctx target = ctx\<lparr>ctx_info := Some \<lparr>ri_operation = target,
     ri_peer = None, ri_attempt = 1, ri_deadline = None\<rparr>\<rparr>"

definition WithAttempt :: "Context \<Rightarrow> int \<Rightarrow> Context" where
  "WithAttempt ctx number = ctx\<lparr>ctx_attempt := Some (if number < 1 then 1 else number)\<rparr>"

definition AttemptFromContext :: "Context option \<Rightarrow> int" where
  "AttemptFromContext ctx = (case Option.bind ctx ctx_attempt of
     None \<Rightarrow> 1 | Some number \<Rightarrow> if number < 1 then 1 else number)"

definition RequestInfoFromContext :: "Context option \<Rightarrow> RequestInfo option" where
  "RequestInfoFromContext ctx = (case ctx of None \<Rightarrow> None
   | Some c \<Rightarrow> (case ctx_info c of None \<Rightarrow> None
     | Some info \<Rightarrow> if transport (ri_operation info) = [] then None
         else Some (info\<lparr>ri_attempt := AttemptFromContext ctx, ri_deadline := ctx_deadline c\<rparr>)))"

definition operation_FromContext :: "Context option \<Rightarrow> Operation option" where
  "operation_FromContext ctx = map_option ri_operation (RequestInfoFromContext ctx)"

definition WithProbe :: "Context \<Rightarrow> Context" where
  "WithProbe ctx = ctx\<lparr>ctx_probe := Some True\<rparr>"

definition IsProbe :: "Context option \<Rightarrow> bool" where
  "IsProbe ctx = (case Option.bind ctx ctx_probe of None \<Rightarrow> False | Some probe \<Rightarrow> probe)"

definition WithResolved :: "Context \<Rightarrow> Operation \<Rightarrow> Policy \<Rightarrow> Context" where
  "WithResolved ctx target v = ctx\<lparr>ctx_resolved := Some (PolicyKey target, v)\<rparr>"

definition policy_FromContext :: "Context option \<Rightarrow> Operation \<Rightarrow> Policy option" where
  "policy_FromContext ctx target = (case Option.bind ctx ctx_resolved of
     None \<Rightarrow> None
   | Some (key, v) \<Rightarrow> if key \<noteq> PolicyKey target then None else Some v)"

definition policy_Resolve :: "Context option \<Rightarrow> (Operation \<Rightarrow> Policy) \<Rightarrow> Operation \<Rightarrow> Policy" where
  "policy_Resolve ctx resolver target = (case policy_FromContext ctx target of
     Some resolved \<Rightarrow> resolved | None \<Rightarrow> resolver target)"

definition WithInstance :: "Context \<Rightarrow> string \<Rightarrow> Context" where
  "WithInstance ctx inst = ctx\<lparr>ctx_instance := Some (TrimSpace inst)\<rparr>"

definition instanceFromContext :: "Context \<Rightarrow> string option" where
  "instanceFromContext ctx = (case ctx_instance ctx of
     None \<Rightarrow> None | Some inst \<Rightarrow> if inst \<noteq> [] then Some inst else None)"

section \<open>Handlers\<close>

text \<open>
  A handler runs in a state shared with its caller and either returns a response and an
  error, nil being None, or panics.
\<close>

datatype 'r outcome = Return "'r option" "goerr option" | Panic

type_synonym ('st, 'q, 'r) Handler = "Context option \<Rightarrow> 'q \<Rightarrow> 'st \<Rightarrow> 'r outcome \<times> 'st"
type_synonym ('st, 'q, 'r) Middleware = "('st, 'q, 'r) Handler option \<Rightarrow> ('st, 'q, 'r) Handler option"

definition fail :: "goerr \<Rightarrow> 'st \<Rightarrow> 'r outcome \<times> 'st" where
  "fail e st = (Return None (Some e), st)"

fun Chain :: "('st, 'q, 'r) Middleware list \<Rightarrow> ('st, 'q, 'r) Middleware" where
  "Chain [] final = final"
| "Chain (m # ms) final = m (Chain ms final)"

text \<open>
  \<open>Recovery\<close>. The panic reporter is the argument \<open>reporter\<close>: it may change the shared
  state, and its own panics are swallowed.
\<close>

definition Recovery ::
  "(Context option \<Rightarrow> 'st \<Rightarrow> 'st) option \<Rightarrow> ('st, 'q, 'r) Handler \<Rightarrow> ('st, 'q, 'r) Handler" where
  "Recovery reporter next ctx request st =
     (case next ctx request st of
        (Panic, st') \<Rightarrow>
          (Return None (Some (errors_New 500 ''INTERNAL'' ''internal server error'')),
           case reporter of None \<Rightarrow> st' | Some report \<Rightarrow> report ctx st')
      | r \<Rightarrow> r)"

section \<open>Facts\<close>

named_theorems ctx_simps

lemma WithResolved_Resolve [ctx_simps]:
  "policy_Resolve (Some (WithResolved ctx target v)) resolver other =
     (if other = target then v else resolver other)"
  by (auto simp: policy_Resolve_def policy_FromContext_def WithResolved_def)

lemma operation_FromContext_With [ctx_simps]:
  "operation_FromContext (Some (operation_WithContext ctx target)) =
     (if transport target = [] then None else Some target)"
  by (simp add: operation_FromContext_def RequestInfoFromContext_def operation_WithContext_def)

lemma AttemptFromContext_pos: "1 \<le> AttemptFromContext ctx"
  by (simp add: AttemptFromContext_def split: option.splits)

lemma Recovery_no_panic: "fst (Recovery reporter next ctx request st) \<noteq> Panic"
  by (simp add: Recovery_def split: prod.splits outcome.splits)

end
