(* ===== verification/Breaker.thy ===== *)
theory Breaker
  imports Context
begin

text \<open>
  Circuit breakers (\<open>governance/breaker\<close>): the state machine of one breaker with its
  permits, the pool that owns them by scope and key, and the middleware. The clock is read
  once per operation and passed as \<open>now\<close>; the mutex makes every operation one step.
\<close>

section \<open>One breaker\<close>

text \<open>\<open>StateOther\<close> stands for any other string, such as that of a zero \<open>Breaker\<close>.\<close>

datatype BreakerState = StateClosed | StateOpen | StateHalfOpen | StateOther

abbreviation ErrOpen :: goerr where
  "ErrOpen \<equiv> errors_New 503 ''CIRCUIT_OPEN'' ''circuit breaker is open''"

abbreviation ErrBreakerOption :: goerr where
  "ErrBreakerOption \<equiv> Sentinel ''breaker: invalid option''"

record Breaker =
  b_state :: BreakerState
  b_windowStart :: go_time
  b_requests :: u64
  b_failures :: u64
  b_openUntil :: go_time
  b_probesInFlight :: int
  b_probeSuccesses :: int
  b_generation :: u64

text \<open>\<open>p_live\<close> is the non-nil breaker pointer, \<open>p_once\<close> that \<open>once\<close> has run.\<close>

record Permit =
  p_live :: bool
  p_config :: BreakerPolicy
  p_state :: BreakerState
  p_generation :: u64
  p_once :: bool

definition NewBreaker :: Breaker where
  "NewBreaker = \<lparr>b_state = StateClosed, b_windowStart = 0, b_requests = 0, b_failures = 0,
     b_openUntil = 0, b_probesInFlight = 0, b_probeSuccesses = 0, b_generation = 0\<rparr>"

definition breaker_validate :: "BreakerPolicy \<Rightarrow> goerr option" where
  "breaker_validate config =
     (if f_le (br_FailureRatio config) (Fin 0) \<or> f_less (Fin 1) (br_FailureRatio config) \<or>
         br_Window config \<le> 0 \<or> br_MinRequests config \<le> 0 \<or> br_OpenTimeout config \<le> 0 \<or>
         br_HalfOpenProbes config \<le> 0
      then Some (Wrapf ''resolved breaker policy is invalid'' [ErrInvalidPolicy])
      else None)"

definition instanceFailure :: "goerr option \<Rightarrow> bool" where
  "instanceFailure err \<longleftrightarrow> Classify err \<in> {KTransport, KTimeout}"

definition rollWindow :: "go_time \<Rightarrow> duration \<Rightarrow> Breaker \<Rightarrow> Breaker" where
  "rollWindow now window b =
     (if time_IsZero (b_windowStart b) \<or> window \<le> time_Sub now (b_windowStart b) \<or>
         time_Before now (b_windowStart b)
      then b\<lparr>b_windowStart := now, b_requests := 0, b_failures := 0\<rparr> else b)"

definition Breaker_open :: "go_time \<Rightarrow> duration \<Rightarrow> Breaker \<Rightarrow> Breaker" where
  "Breaker_open now duration b = b\<lparr>b_state := StateOpen, b_openUntil := time_Add now duration,
     b_probesInFlight := 0, b_probeSuccesses := 0, b_generation := b_generation b + 1\<rparr>"

definition Breaker_close :: "go_time \<Rightarrow> Breaker \<Rightarrow> Breaker" where
  "Breaker_close now b = b\<lparr>b_state := StateClosed, b_windowStart := now, b_requests := 0,
     b_failures := 0, b_openUntil := 0, b_probesInFlight := 0, b_probeSuccesses := 0,
     b_generation := b_generation b + 1\<rparr>"

text \<open>The switch of \<open>Allow\<close>; None is the rejection of an open breaker.\<close>

definition Breaker_advance :: "go_time \<Rightarrow> BreakerPolicy \<Rightarrow> Breaker \<Rightarrow> Breaker option" where
  "Breaker_advance now config b =
     (case b_state b of
        StateClosed \<Rightarrow> Some (rollWindow now (br_Window config) b)
      | StateOpen \<Rightarrow> if time_Before now (b_openUntil b) then None
          else Some (b\<lparr>b_state := StateHalfOpen, b_probesInFlight := 0, b_probeSuccesses := 0\<rparr>)
      | StateHalfOpen \<Rightarrow> Some b
      | StateOther \<Rightarrow> Some (rollWindow now (br_Window config) (b\<lparr>b_state := StateClosed\<rparr>)))"

definition Permit_new :: "BreakerPolicy \<Rightarrow> Breaker \<Rightarrow> Permit" where
  "Permit_new config b = \<lparr>p_live = True, p_config = config, p_state = b_state b,
     p_generation = b_generation b, p_once = False\<rparr>"

definition Permit_zero :: Permit where
  "Permit_zero = \<lparr>p_live = False, p_config = \<lparr>br_Enabled = False, br_FailureRatio = Fin 0,
     br_Window = 0, br_MinRequests = 0, br_OpenTimeout = 0, br_HalfOpenProbes = 0\<rparr>,
     p_state = StateOther, p_generation = 0, p_once = False\<rparr>"

definition Breaker_Allow ::
  "go_time \<Rightarrow> BreakerPolicy \<Rightarrow> Breaker option \<Rightarrow> (goerr + Permit) \<times> Breaker option" where
  "Breaker_Allow now config br =
     (case br of
        None \<Rightarrow> (Err (Wrapf ''breaker is nil'' [ErrBreakerOption]), None)
      | Some b \<Rightarrow>
        if \<not> br_Enabled config then (Ok (Permit_zero), Some b)
        else (case breaker_validate config of
          Some e \<Rightarrow> (Err e, Some b)
        | None \<Rightarrow> (case Breaker_advance now config b of
            None \<Rightarrow> (Err ErrOpen, Some b)
          | Some b' \<Rightarrow>
              if b_state b' = StateHalfOpen then
                (if b_probesInFlight b' \<ge> br_HalfOpenProbes config then (Err ErrOpen, Some b')
                 else (let b'' = b'\<lparr>b_probesInFlight := b_probesInFlight b' + 1\<rparr> in
                   (Ok (Permit_new config b''), Some b'')))
              else (Ok (Permit_new config b'), Some b'))))"

definition tripped :: "BreakerPolicy \<Rightarrow> u64 \<Rightarrow> u64 \<Rightarrow> bool" where
  "tripped config requests failures \<longleftrightarrow> of_int (br_MinRequests config) \<le> requests \<and>
     f_le (br_FailureRatio config)
       (f_div (f_of_int (uint failures)) (f_of_int (uint requests)))"

definition Breaker_complete ::
  "go_time \<Rightarrow> BreakerPolicy \<Rightarrow> BreakerState \<Rightarrow> u64 \<Rightarrow> goerr option \<Rightarrow> Breaker \<Rightarrow> Breaker" where
  "Breaker_complete now config permittedState generation err b =
     (if generation \<noteq> b_generation b \<or> permittedState \<noteq> b_state b then b
      else (let failed = instanceFailure err in
        case b_state b of
          StateClosed \<Rightarrow>
            (let b1 = rollWindow now (br_Window config) b;
                 b2 = b1\<lparr>b_requests := b_requests b1 + 1\<rparr>;
                 b3 = (if failed then b2\<lparr>b_failures := b_failures b2 + 1\<rparr> else b2) in
             if tripped config (b_requests b3) (b_failures b3)
             then Breaker_open now (br_OpenTimeout config) b3 else b3)
        | StateHalfOpen \<Rightarrow>
            (let b1 = (if b_probesInFlight b > 0
                  then b\<lparr>b_probesInFlight := b_probesInFlight b - 1\<rparr> else b) in
             if failed then Breaker_open now (br_OpenTimeout config) b1
             else (let b2 = b1\<lparr>b_probeSuccesses := b_probeSuccesses b1 + 1\<rparr> in
               if b_probeSuccesses b2 \<ge> br_HalfOpenProbes config
               then Breaker_close now b2 else b2))
        | _ \<Rightarrow> b))"

definition Permit_Done :: "go_time \<Rightarrow> goerr option \<Rightarrow> Permit \<Rightarrow> Breaker \<Rightarrow> Permit \<times> Breaker" where
  "Permit_Done now err permit b =
     (if \<not> p_live permit \<or> p_once permit then (permit, b)
      else (permit\<lparr>p_once := True\<rparr>,
        Breaker_complete now (p_config permit) (p_state permit) (p_generation permit) err b))"

definition Permit_Probe :: "Permit option \<Rightarrow> bool" where
  "Permit_Probe permit = (case permit of None \<Rightarrow> False
     | Some p \<Rightarrow> p_live p \<and> p_state p = StateHalfOpen)"

record BreakerDescription =
  bd_Scope :: string
  bd_Key :: string
  bd_State :: BreakerState
  bd_Requests :: u64
  bd_Failures :: u64
  bd_OpenUntil :: go_time
  bd_ProbesInFlight :: int
  bd_ProbeSuccesses :: int

definition Breaker_Describe :: "Breaker option \<Rightarrow> BreakerDescription" where
  "Breaker_Describe br = (case br of
     None \<Rightarrow> \<lparr>bd_Scope = [], bd_Key = [], bd_State = StateOpen, bd_Requests = 0,
       bd_Failures = 0, bd_OpenUntil = 0, bd_ProbesInFlight = 0, bd_ProbeSuccesses = 0\<rparr>
   | Some b \<Rightarrow> \<lparr>bd_Scope = [], bd_Key = [], bd_State = b_state b, bd_Requests = b_requests b,
       bd_Failures = b_failures b, bd_OpenUntil = b_openUntil b,
       bd_ProbesInFlight = b_probesInFlight b, bd_ProbeSuccesses = b_probeSuccesses b\<rparr>)"

section \<open>The pool and the middleware\<close>

definition ScopeService :: string where "ScopeService = ''service''"
definition ScopeInstance :: string where "ScopeInstance = ''instance''"

type_synonym poolKey = "string \<times> string"
type_synonym BreakerPool = "(poolKey, Breaker) gomap"

definition Pool_identity :: "string \<Rightarrow> string \<Rightarrow> poolKey" where
  "Pool_identity scope key = (scope, TrimSpace key)"

definition Pool_Get :: "string \<Rightarrow> string \<Rightarrow> BreakerPool \<Rightarrow> Breaker \<times> BreakerPool" where
  "Pool_Get scope key pool =
     (case gm_get pool (Pool_identity scope key) of
        Some b \<Rightarrow> (b, pool)
      | None \<Rightarrow> (NewBreaker, gm_put (Pool_identity scope key) NewBreaker pool))"

definition Pool_Describe :: "BreakerPool option \<Rightarrow> BreakerDescription list" where
  "Pool_Describe pool = (case pool of None \<Rightarrow> []
   | Some m \<Rightarrow> map (\<lambda>(scope, key).
       (Breaker_Describe (gm_get m (scope, key)))\<lparr>bd_Scope := scope, bd_Key := key\<rparr>)
       (sort_key fst (sort_key snd (gm_keys m))))"

abbreviation ErrMissingInstance :: goerr where
  "ErrMissingInstance \<equiv> errors_New 500 ''BREAKER_INSTANCE_MISSING''
     ''instance breaker requires a selected instance''"

text \<open>The deferred function: \<open>Done\<close> on the breaker the permit belongs to.\<close>

definition Pool_Done ::
  "go_time \<Rightarrow> poolKey \<Rightarrow> goerr option \<Rightarrow> Permit \<Rightarrow> BreakerPool \<Rightarrow> BreakerPool" where
  "Pool_Done now k err permit pool = (case gm_get pool k of None \<Rightarrow> pool
     | Some b \<Rightarrow> gm_put k (snd (Permit_Done now err permit b)) pool)"

definition invocation_panic :: goerr where
  "invocation_panic = Sentinel ''breaker: downstream invocation panic''"

definition breaker_call ::
  "go_time \<Rightarrow> go_time \<Rightarrow> poolKey \<Rightarrow> BreakerPolicy \<Rightarrow> Context \<Rightarrow>
     (BreakerPool, 'q, 'r) Handler \<Rightarrow> 'q \<Rightarrow> BreakerPool \<Rightarrow> 'r outcome \<times> BreakerPool" where
  "breaker_call t0 t1 k config ctx next request pool =
     (let (b, pool1) = Pool_Get (fst k) (snd k) pool; id = Pool_identity (fst k) (snd k) in
      case Breaker_Allow t0 config (Some b) of
        (Err e, b') \<Rightarrow> fail e (gm_put id (the b') pool1)
      | (Ok permit, b') \<Rightarrow>
        (let pool2 = gm_put id (the b') pool1;
             ictx = (if Permit_Probe (Some permit) then WithProbe ctx else ctx) in
         case next (Some ictx) request pool2 of
           (Panic, pool3) \<Rightarrow>
             (Panic, Pool_Done t1 id (MarkTransport (Some invocation_panic)) permit pool3)
         | (Return response err, pool3) \<Rightarrow>
             (Return response err, Pool_Done t1 id err permit pool3)))"

definition breaker_middleware ::
  "string \<Rightarrow> (Operation \<Rightarrow> Policy) \<Rightarrow> go_time \<Rightarrow> go_time \<Rightarrow>
     (BreakerPool, 'q, 'r) Handler option \<Rightarrow> (BreakerPool, 'q, 'r) Handler" where
  "breaker_middleware scope resolver t0 t1 next ctx request pool =
     (case next of None \<Rightarrow> fail (Wrapf ''next handler is nil'' [ErrBreakerOption]) pool
      | Some nxt \<Rightarrow> (case ctx of None \<Rightarrow> fail (Wrapf ''context is nil'' [ErrBreakerOption]) pool
      | Some c \<Rightarrow> (case operation_FromContext ctx of
          None \<Rightarrow> fail (Sentinel ''breaker: operation is missing'') pool
        | Some target \<Rightarrow>
          (let config = pol_Breaker (policy_Resolve ctx resolver target) in
           if \<not> br_Enabled config then nxt ctx request pool
           else if scope = ScopeInstance then
             (case instanceFromContext c of
                None \<Rightarrow> fail ErrMissingInstance pool
              | Some inst \<Rightarrow> breaker_call t0 t1 (scope, inst) config c nxt request pool)
           else breaker_call t0 t1 (scope, transport target @ ''/'' @ service target)
             config c nxt request pool))))"

definition breaker_New ::
  "(Operation \<Rightarrow> Policy) option \<Rightarrow> bool \<Rightarrow> string \<Rightarrow> go_time \<Rightarrow> go_time \<Rightarrow>
     goerr + ((BreakerPool, 'q, 'r) Handler option \<Rightarrow> (BreakerPool, 'q, 'r) Handler)" where
  "breaker_New resolver pool_set scope t0 t1 =
     (case resolver of None \<Rightarrow> Err (Wrapf ''resolver or pool is nil'' [ErrBreakerOption])
      | Some r \<Rightarrow>
        if \<not> pool_set then Err (Wrapf ''resolver or pool is nil'' [ErrBreakerOption])
        else if scope \<noteq> ScopeService \<and> scope \<noteq> ScopeInstance
        then Err (Wrapf ''scope'' [ErrBreakerOption])
        else Ok (breaker_middleware scope r t0 t1))"

section \<open>A breaker and its permits\<close>













subsection \<open>Permits\<close>











subsection \<open>Operations\<close>

lemma rollWindow_fields [simp]:
  "b_state (rollWindow now w b) = b_state b"
  "b_generation (rollWindow now w b) = b_generation b"
  "b_probesInFlight (rollWindow now w b) = b_probesInFlight b"
  "b_probeSuccesses (rollWindow now w b) = b_probeSuccesses b"
  "b_openUntil (rollWindow now w b) = b_openUntil b"
  by (simp_all add: rollWindow_def)

















section \<open>Open breakers\<close>






section \<open>Tripping\<close>





section \<open>Recovery\<close>


lemma Classify_None [simp]: "\<not> instanceFailure None"
  by (simp add: instanceFailure_def Classify_def)





section \<open>A concrete run\<close>




lemma instanceFailure_deadline [simp]: "instanceFailure (Some DeadlineExceeded)"
  by (simp add: instanceFailure_def Classify_def errors_As_def errors_Is_def)







section \<open>Properties\<close>









end
