(* ===== verification/Bulkhead.thy ===== *)
theory Bulkhead
  imports Context
begin

text \<open>
  Dependency bulkheads (\<open>governance/bulkhead\<close>). The waiters are objects shared by the queue
  and by the callers blocked on them; the model keeps them in a store and the queue holds their
  addresses. \<open>Acquire\<close> runs its locked section in one step and then, if the caller queued,
  ends in one of the three cases of its \<open>select\<close>.
\<close>

section \<open>State\<close>

datatype waiterState = waiterQueued | waiterGranted | waiterCanceled

text \<open>\<open>w_ready\<close>: the channel of the waiter has been closed.\<close>

record waiter =
  w_ready :: bool
  w_state :: waiterState

record Bulkhead =
  k_maxConcurrency :: int
  k_maxQueue :: int
  k_inflight :: int
  k_waiters :: "nat list"
  k_queueHighWater :: nat
  k_accepted :: u64
  k_rejected :: u64
  k_queueTimeouts :: u64
  k_queueCancellations :: u64
  k_store :: "waiter list"

record bulkheadPermit =
  kp_live :: bool
  kp_once :: bool

abbreviation ErrFull :: goerr where
  "ErrFull \<equiv> errors_New 503 ''BULKHEAD_FULL'' ''dependency bulkhead is full''"

abbreviation ErrQueueTimeout :: goerr where
  "ErrQueueTimeout \<equiv>
     errors_New 503 ''BULKHEAD_QUEUE_TIMEOUT'' ''dependency bulkhead queue timed out''"

abbreviation ErrBulkheadOption :: goerr where
  "ErrBulkheadOption \<equiv> Sentinel ''bulkhead: invalid option''"

definition NewBulkhead :: Bulkhead where
  "NewBulkhead = \<lparr>k_maxConcurrency = 0, k_maxQueue = 0, k_inflight = 0, k_waiters = [],
     k_queueHighWater = 0, k_accepted = 0, k_rejected = 0, k_queueTimeouts = 0,
     k_queueCancellations = 0, k_store = []\<rparr>"

definition bulkhead_validate :: "BulkheadPolicy \<Rightarrow> goerr option" where
  "bulkhead_validate config =
     (if bh_MaxConcurrency config \<le> 0 \<or> bh_MaxQueue config < 0 \<or> bh_QueueTimeout config < 0 \<or>
         bh_MaxQueue config > 0 \<and> bh_QueueTimeout config \<le> 0 \<or>
         bh_MaxQueue config = 0 \<and> bh_QueueTimeout config > 0
      then Some (Wrapf ''resolved bulkhead policy is invalid'' [ErrInvalidPolicy])
      else None)"

section \<open>Operations\<close>

definition set_state :: "nat \<Rightarrow> waiterState \<Rightarrow> Bulkhead \<Rightarrow> Bulkhead" where
  "set_state w s b = b\<lparr>k_store := (k_store b)[w := (k_store b ! w)\<lparr>w_state := s\<rparr>]\<rparr>"

definition grant :: "nat \<Rightarrow> Bulkhead \<Rightarrow> Bulkhead" where
  "grant w b = b\<lparr>k_store := (k_store b)[w := \<lparr>w_ready = True, w_state = waiterGranted\<rparr>],
     k_inflight := k_inflight b + 1, k_accepted := k_accepted b + 1\<rparr>"

text \<open>The loop of \<open>grantNextLocked\<close>: waiters no longer queued are dropped.\<close>

fun grant_first :: "nat list \<Rightarrow> Bulkhead \<Rightarrow> Bulkhead" where
  "grant_first [] b = b\<lparr>k_waiters := []\<rparr>"
| "grant_first (w # ws) b =
     (if w_state (k_store b ! w) \<noteq> waiterQueued then grant_first ws b
      else grant w (b\<lparr>k_waiters := ws\<rparr>))"

definition grantNextLocked :: "Bulkhead \<Rightarrow> Bulkhead" where
  "grantNextLocked b =
     (if k_maxConcurrency b \<le> 0 \<or> k_inflight b \<ge> k_maxConcurrency b then b
      else grant_first (k_waiters b) b)"

text \<open>
  The loop at the start of \<open>Acquire\<close>. Every round removes a waiter, so the length of the
  queue bounds the rounds.
\<close>

fun grant_all :: "nat \<Rightarrow> Bulkhead \<Rightarrow> Bulkhead" where
  "grant_all 0 b = b"
| "grant_all (Suc n) b =
     (if k_inflight b < k_maxConcurrency b \<and> k_waiters b \<noteq> []
      then grant_all n (grantNextLocked b) else b)"

datatype acquired = Acquired "goerr + bulkheadPermit" | Waiting nat

definition new_permit :: bulkheadPermit where
  "new_permit = \<lparr>kp_live = True, kp_once = False\<rparr>"

definition enqueue :: "Bulkhead \<Rightarrow> acquired \<times> Bulkhead" where
  "enqueue b =
     (let w = length (k_store b);
          b1 = b\<lparr>k_store := k_store b @ [\<lparr>w_ready = False, w_state = waiterQueued\<rparr>],
            k_waiters := k_waiters b @ [w]\<rparr> in
      (Waiting w, b1\<lparr>k_queueHighWater := max (k_queueHighWater b1) (length (k_waiters b1))\<rparr>))"

definition Bulkhead_locked :: "BulkheadPolicy \<Rightarrow> Bulkhead \<Rightarrow> acquired \<times> Bulkhead" where
  "Bulkhead_locked config b =
     (let b1 = b\<lparr>k_maxConcurrency := bh_MaxConcurrency config, k_maxQueue := bh_MaxQueue config\<rparr>;
          b2 = grant_all (length (k_waiters b1)) b1 in
      if k_inflight b2 < bh_MaxConcurrency config \<and> k_waiters b2 = [] then
        (Acquired (Ok new_permit),
         b2\<lparr>k_inflight := k_inflight b2 + 1, k_accepted := k_accepted b2 + 1\<rparr>)
      else if bh_MaxQueue config = 0 \<or> int (length (k_waiters b2)) \<ge> bh_MaxQueue config then
        (Acquired (Err ErrFull), b2\<lparr>k_rejected := k_rejected b2 + 1\<rparr>)
      else enqueue b2)"

definition Bulkhead_Acquire ::
  "Context option \<Rightarrow> BulkheadPolicy \<Rightarrow> Bulkhead option \<Rightarrow> acquired \<times> Bulkhead option" where
  "Bulkhead_Acquire ctx config bk =
     (case bk of
        None \<Rightarrow> (Acquired (Err (Wrapf ''bulkhead is nil'' [ErrBulkheadOption])), None)
      | Some b \<Rightarrow>
        (case ctx of
           None \<Rightarrow> (Acquired (Err (Wrapf ''context is nil'' [ErrBulkheadOption])), Some b)
         | Some c \<Rightarrow>
           (case ctx_cause c of
              Some cause \<Rightarrow> (Acquired (Err cause), Some b)
            | None \<Rightarrow>
              if \<not> bh_Enabled config
              then (Acquired (Ok \<lparr>kp_live = False, kp_once = False\<rparr>), Some b)
              else (case bulkhead_validate config of
                Some e \<Rightarrow> (Acquired (Err e), Some b)
              | None \<Rightarrow> map_prod id Some (Bulkhead_locked config b)))))"

definition removeWaiterLocked :: "nat \<Rightarrow> Bulkhead \<Rightarrow> Bulkhead" where
  "removeWaiterLocked w b = b\<lparr>k_waiters := remove1 w (k_waiters b)\<rparr>"

definition count_cancel :: "bool \<Rightarrow> Bulkhead \<Rightarrow> Bulkhead" where
  "count_cancel timedOut b = (if timedOut then b\<lparr>k_queueTimeouts := k_queueTimeouts b + 1\<rparr>
     else b\<lparr>k_queueCancellations := k_queueCancellations b + 1\<rparr>)"

definition cancelGranted :: "nat \<Rightarrow> bool \<Rightarrow> Bulkhead \<Rightarrow> bool \<times> Bulkhead" where
  "cancelGranted w timedOut b =
     (case w_state (k_store b ! w) of
        waiterQueued \<Rightarrow> (True, grantNextLocked (count_cancel timedOut
          (removeWaiterLocked w (set_state w waiterCanceled b))))
      | waiterGranted \<Rightarrow>
          (let b1 = set_state w waiterCanceled b;
               b2 = (if k_inflight b1 > 0 then b1\<lparr>k_inflight := k_inflight b1 - 1\<rparr> else b1) in
           (False, grantNextLocked (count_cancel timedOut b2)))
      | waiterCanceled \<Rightarrow> (True, b))"

text \<open>The three cases of the \<open>select\<close> of a queued caller.\<close>

definition select_ready :: "nat \<Rightarrow> goerr option \<Rightarrow> Bulkhead \<Rightarrow> (goerr + bulkheadPermit) \<times> Bulkhead" where
  "select_ready w cause b = (case cause of
     Some e \<Rightarrow> (Err e, snd (cancelGranted w False b))
   | None \<Rightarrow> (Ok new_permit, b))"

definition select_done :: "nat \<Rightarrow> goerr \<Rightarrow> Bulkhead \<Rightarrow> (goerr + bulkheadPermit) \<times> Bulkhead" where
  "select_done w cause b = (Err cause, snd (cancelGranted w False b))"

definition select_timeout :: "nat \<Rightarrow> Bulkhead \<Rightarrow> (goerr + bulkheadPermit) \<times> Bulkhead" where
  "select_timeout w b = (Err ErrQueueTimeout, snd (cancelGranted w True b))"

definition Bulkhead_release :: "Bulkhead \<Rightarrow> Bulkhead" where
  "Bulkhead_release b = grantNextLocked
     (if k_inflight b > 0 then b\<lparr>k_inflight := k_inflight b - 1\<rparr> else b)"

definition bulkheadPermit_Release :: "bulkheadPermit \<Rightarrow> Bulkhead \<Rightarrow> bulkheadPermit \<times> Bulkhead" where
  "bulkheadPermit_Release permit b =
     (if \<not> kp_live permit \<or> kp_once permit then (permit, b)
      else (permit\<lparr>kp_once := True\<rparr>, Bulkhead_release b))"

record BulkheadDescription =
  kd_Key :: string
  kd_MaxConcurrency :: int
  kd_MaxQueue :: int
  kd_Inflight :: int
  kd_Queued :: nat
  kd_QueueHighWater :: nat
  kd_Accepted :: u64
  kd_Rejected :: u64
  kd_QueueTimeouts :: u64
  kd_QueueCancellations :: u64

definition Bulkhead_Describe :: "Bulkhead option \<Rightarrow> BulkheadDescription" where
  "Bulkhead_Describe bk = (case bk of
     None \<Rightarrow> \<lparr>kd_Key = [], kd_MaxConcurrency = 0, kd_MaxQueue = 0, kd_Inflight = 0,
       kd_Queued = 0, kd_QueueHighWater = 0, kd_Accepted = 0, kd_Rejected = 0,
       kd_QueueTimeouts = 0, kd_QueueCancellations = 0\<rparr>
   | Some b \<Rightarrow> \<lparr>kd_Key = [], kd_MaxConcurrency = k_maxConcurrency b, kd_MaxQueue = k_maxQueue b,
       kd_Inflight = k_inflight b, kd_Queued = length (k_waiters b),
       kd_QueueHighWater = k_queueHighWater b, kd_Accepted = k_accepted b,
       kd_Rejected = k_rejected b, kd_QueueTimeouts = k_queueTimeouts b,
       kd_QueueCancellations = k_queueCancellations b\<rparr>)"

type_synonym BulkheadPool = "(string, Bulkhead) gomap"

definition BulkheadPool_Get :: "string \<Rightarrow> BulkheadPool \<Rightarrow> Bulkhead \<times> BulkheadPool" where
  "BulkheadPool_Get key pool = (case gm_get pool (TrimSpace key) of
     Some b \<Rightarrow> (b, pool)
   | None \<Rightarrow> (NewBulkhead, gm_put (TrimSpace key) NewBulkhead pool))"

definition BulkheadPool_Describe :: "BulkheadPool option \<Rightarrow> BulkheadDescription list" where
  "BulkheadPool_Describe pool = (case pool of None \<Rightarrow> []
   | Some m \<Rightarrow> map (\<lambda>key. (Bulkhead_Describe (gm_get m key))\<lparr>kd_Key := key\<rparr>) (sort (gm_keys m)))"

section \<open>A bulkhead and its callers\<close>

text \<open>
  \<open>ks_waiting\<close> are the callers blocked in the \<open>select\<close>, oldest first; \<open>ks_permits\<close> the
  permits handed out.
\<close>

record BulkheadSystem =
  ks_bulkhead :: Bulkhead
  ks_permits :: "bulkheadPermit list"
  ks_waiting :: "nat list"

datatype BulkheadOp =
  KAcquire "Context option" BulkheadPolicy
| KReady nat "goerr option"
| KDone nat goerr
| KTimeout nat
| KRelease nat

definition ks_init :: BulkheadSystem where
  "ks_init = \<lparr>ks_bulkhead = NewBulkhead, ks_permits = [], ks_waiting = []\<rparr>"

definition settle ::
  "BulkheadSystem \<Rightarrow> nat \<Rightarrow> (goerr + bulkheadPermit) \<times> Bulkhead \<Rightarrow> BulkheadSystem" where
  "settle s w r = \<lparr>ks_bulkhead = snd r,
     ks_permits = ks_permits s @ (case fst r of Err _ \<Rightarrow> [] | Ok p \<Rightarrow> [p]),
     ks_waiting = remove1 w (ks_waiting s)\<rparr>"

fun bulkhead_step :: "BulkheadSystem \<Rightarrow> BulkheadOp \<Rightarrow> BulkheadSystem" where
  "bulkhead_step s (KAcquire ctx config) =
     (case Bulkhead_Acquire ctx config (Some (ks_bulkhead s)) of
        (Acquired (Ok p), b) \<Rightarrow> s\<lparr>ks_bulkhead := the b, ks_permits := ks_permits s @ [p]\<rparr>
      | (Acquired (Err _), b) \<Rightarrow> s\<lparr>ks_bulkhead := the b\<rparr>
      | (Waiting w, b) \<Rightarrow> s\<lparr>ks_bulkhead := the b, ks_waiting := ks_waiting s @ [w]\<rparr>)"
| "bulkhead_step s (KReady w cause) = settle s w (select_ready w cause (ks_bulkhead s))"
| "bulkhead_step s (KDone w cause) = settle s w (select_done w cause (ks_bulkhead s))"
| "bulkhead_step s (KTimeout w) = settle s w (select_timeout w (ks_bulkhead s))"
| "bulkhead_step s (KRelease i) =
     (if i < length (ks_permits s) then
        (case bulkheadPermit_Release (ks_permits s ! i) (ks_bulkhead s) of
           (p, b) \<Rightarrow> s\<lparr>ks_bulkhead := b, ks_permits := (ks_permits s)[i := p]\<rparr>)
      else s)"

text \<open>
  A case of the \<open>select\<close> is taken only by a caller blocked there, the first one only when the
  channel of the waiter is closed.
\<close>

fun bulkhead_guard :: "BulkheadSystem \<Rightarrow> BulkheadOp \<Rightarrow> bool" where
  "bulkhead_guard s (KReady w cause) =
     (w \<in> set (ks_waiting s) \<and> w_ready (k_store (ks_bulkhead s) ! w))"
| "bulkhead_guard s (KDone w cause) = (w \<in> set (ks_waiting s))"
| "bulkhead_guard s (KTimeout w) = (w \<in> set (ks_waiting s))"
| "bulkhead_guard s _ = True"

section \<open>The invariant\<close>

text \<open>
  The blocked callers are, oldest first, those already granted (\<open>gs\<close>) and then the queue;
  the slots in use are the permits held (\<open>h\<close>) and the granted callers.
\<close>

definition gate :: "Bulkhead \<Rightarrow> nat list \<Rightarrow> nat \<Rightarrow> bool" where
  "gate b gs h \<longleftrightarrow> distinct (gs @ k_waiters b) \<and>
     list_all (\<lambda>w. w < length (k_store b)) (gs @ k_waiters b) \<and>
     list_all (\<lambda>w. k_store b ! w = \<lparr>w_ready = True, w_state = waiterGranted\<rparr>) gs \<and>
     list_all (\<lambda>w. k_store b ! w = \<lparr>w_ready = False, w_state = waiterQueued\<rparr>) (k_waiters b) \<and>
     k_inflight b = int (h + length gs) \<and> length (k_waiters b) \<le> k_queueHighWater b"

text \<open>Nobody queues while a slot is free.\<close>

definition busy :: "Bulkhead \<Rightarrow> bool" where
  "busy b \<longleftrightarrow> k_waiters b \<noteq> [] \<longrightarrow> 0 < k_maxConcurrency b \<and> k_maxConcurrency b \<le> k_inflight b"

definition capped :: "int \<Rightarrow> int \<Rightarrow> Bulkhead \<Rightarrow> bool" where
  "capped C Q b \<longleftrightarrow> k_inflight b \<le> C \<and> k_maxConcurrency b \<le> C \<and> int (length (k_waiters b)) \<le> Q"

definition holders :: "bulkheadPermit list \<Rightarrow> nat" where
  "holders ps = length (filter (\<lambda>p. kp_live p \<and> \<not> kp_once p) ps)"

definition bulkhead_inv :: "int \<Rightarrow> int \<Rightarrow> BulkheadSystem \<Rightarrow> bool" where
  "bulkhead_inv C Q s \<longleftrightarrow> (\<exists>gs. ks_waiting s = gs @ k_waiters (ks_bulkhead s) \<and>
     gate (ks_bulkhead s) gs (holders (ks_permits s))) \<and>
     busy (ks_bulkhead s) \<and> capped C Q (ks_bulkhead s)"

section \<open>Granting\<close>

lemma grant_next_idle: "k_maxConcurrency b \<le> k_inflight b \<Longrightarrow> grantNextLocked b = b"
  by (simp add: grantNextLocked_def)

lemma grant_next_empty: "k_waiters b = [] \<Longrightarrow> grantNextLocked b = b"
  by (simp add: grantNextLocked_def)

lemma grant_next_head:
  assumes "gate b gs h" and "k_waiters b = w # ws" and "0 < k_maxConcurrency b"
    and "k_inflight b < k_maxConcurrency b"
  shows "gate (grantNextLocked b) (gs @ [w]) h" and "k_waiters (grantNextLocked b) = ws"
    and "k_inflight (grantNextLocked b) = k_inflight b + 1"
    and "k_maxConcurrency (grantNextLocked b) = k_maxConcurrency b"
proof -
  have eq: "grantNextLocked b = grant w (b\<lparr>k_waiters := ws\<rparr>)"
    using assms by (auto simp: grantNextLocked_def gate_def)
  show "gate (grantNextLocked b) (gs @ [w]) h"
    unfolding eq using assms(1,2)
    by (auto simp: gate_def grant_def list_all_iff nth_list_update)
  show "k_waiters (grantNextLocked b) = ws" "k_inflight (grantNextLocked b) = k_inflight b + 1"
    "k_maxConcurrency (grantNextLocked b) = k_maxConcurrency b"
    unfolding eq by (simp_all add: grant_def)
qed

text \<open>After one slot was freed, granting restores the invariant.\<close>

lemma grant_next_gate:
  assumes "gate b gs h"
    and "k_waiters b \<noteq> [] \<Longrightarrow> 0 < k_maxConcurrency b \<and> k_maxConcurrency b \<le> k_inflight b + 1"
    and "capped C Q b"
  obtains gs' where "gs' @ k_waiters (grantNextLocked b) = gs @ k_waiters b"
    and "gate (grantNextLocked b) gs' h" and "busy (grantNextLocked b)"
    and "capped C Q (grantNextLocked b)"
proof (cases "k_waiters b = [] \<or> k_maxConcurrency b \<le> k_inflight b")
  case True
  then have eq: "grantNextLocked b = b" using grant_next_idle grant_next_empty by blast
  have "busy b" using True assms(2) by (auto simp: busy_def)
  with that [of gs] assms(1,3) eq show ?thesis by simp
next
  case False
  then obtain w ws where ws: "k_waiters b = w # ws" by (cases "k_waiters b") auto
  have m: "0 < k_maxConcurrency b" "k_maxConcurrency b \<le> k_inflight b + 1" "k_inflight b < k_maxConcurrency b"
    using assms(2) ws False by auto
  note head = grant_next_head [OF assms(1) ws m(1,3)]
  show ?thesis
    by (rule that [of "gs @ [w]"]) (use head ws m assms(3) in \<open>auto simp: busy_def capped_def\<close>)
qed

lemma grant_all_gate:
  assumes "gate b gs h" and "0 < k_maxConcurrency b" and "capped C Q b"
    and "length (k_waiters b) \<le> n"
  obtains gs' where "gs' @ k_waiters (grant_all n b) = gs @ k_waiters b"
    and "gate (grant_all n b) gs' h" and "busy (grant_all n b)" and "capped C Q (grant_all n b)"
    and "k_maxConcurrency (grant_all n b) = k_maxConcurrency b"
  using assms
proof (induction n arbitrary: b gs thesis)
  case 0
  then show ?case by (auto simp: busy_def)
next
  case (Suc n)
  show ?case
  proof (cases "k_inflight b < k_maxConcurrency b \<and> k_waiters b \<noteq> []")
    case True
    then obtain w ws where ws: "k_waiters b = w # ws" by (cases "k_waiters b") auto
    note head = grant_next_head [OF Suc.prems(2) ws Suc.prems(3)]
    have "capped C Q (grantNextLocked b)" "length (k_waiters (grantNextLocked b)) \<le> n"
      using head(2-4) True ws Suc.prems by (auto simp: capped_def)
    then obtain gs' where "gs' @ k_waiters (grant_all n (grantNextLocked b)) =
        (gs @ [w]) @ k_waiters (grantNextLocked b)"
      "gate (grant_all n (grantNextLocked b)) gs' h" "busy (grant_all n (grantNextLocked b))"
      "capped C Q (grant_all n (grantNextLocked b))"
      "k_maxConcurrency (grant_all n (grantNextLocked b)) = k_maxConcurrency (grantNextLocked b)"
      using Suc.IH [of "grantNextLocked b" "gs @ [w]"] head True Suc.prems(3) by auto
    then show ?thesis using Suc.prems(1) [of gs'] True ws head by simp
  next
    case False
    then show ?thesis using Suc.prems(1) [of gs] Suc.prems(2-4) by (auto simp: busy_def)
  qed
qed

section \<open>Every operation keeps the invariant\<close>

text \<open>A caller leaves the blocked ones; \<open>b\<close> is the bulkhead before slots are handed on.\<close>

lemma gate_free:
  assumes "gate b gs (Suc h)" and "busy b" and "capped C Q b"
  obtains gs' where "gs' @ k_waiters (Bulkhead_release b) = gs @ k_waiters b"
    and "gate (Bulkhead_release b) gs' h" and "busy (Bulkhead_release b)"
    and "capped C Q (Bulkhead_release b)"
proof -
  let ?b = "b\<lparr>k_inflight := k_inflight b - 1\<rparr>"
  have pos: "0 < k_inflight b" using assms(1) by (simp add: gate_def)
  have g: "gate ?b gs h" and c: "capped C Q ?b"
    using assms(1,3) by (auto simp: gate_def capped_def)
  have w: "k_waiters ?b \<noteq> [] \<Longrightarrow>
      0 < k_maxConcurrency ?b \<and> k_maxConcurrency ?b \<le> k_inflight ?b + 1"
    using assms(2) by (simp add: busy_def)
  obtain gs' where "gs' @ k_waiters (grantNextLocked ?b) = gs @ k_waiters ?b"
    "gate (grantNextLocked ?b) gs' h" "busy (grantNextLocked ?b)" "capped C Q (grantNextLocked ?b)"
    by (rule grant_next_gate [OF g w c])
  moreover have "Bulkhead_release b = grantNextLocked ?b"
    using pos by (simp add: Bulkhead_release_def)
  ultimately show ?thesis using that [of gs'] by simp
qed

lemma count_cancel_fields [simp]:
  "k_waiters (count_cancel t b) = k_waiters b" "k_store (count_cancel t b) = k_store b"
  "k_inflight (count_cancel t b) = k_inflight b"
  "k_maxConcurrency (count_cancel t b) = k_maxConcurrency b"
  "k_queueHighWater (count_cancel t b) = k_queueHighWater b"
  by (simp_all add: count_cancel_def)

lemma count_cancel_inv [simp]:
  "gate (count_cancel t b) gs h = gate b gs h" "busy (count_cancel t b) = busy b"
  "capped C Q (count_cancel t b) = capped C Q b"
  by (simp_all add: gate_def busy_def capped_def)

lemma count_cancel_inflight:
  "count_cancel t (b\<lparr>k_inflight := n\<rparr>) = (count_cancel t b)\<lparr>k_inflight := n\<rparr>"
  by (cases b) (simp add: count_cancel_def)

lemma set_state_fields [simp]:
  "k_waiters (set_state w st b) = k_waiters b" "k_inflight (set_state w st b) = k_inflight b"
  "k_maxConcurrency (set_state w st b) = k_maxConcurrency b"
  "k_queueHighWater (set_state w st b) = k_queueHighWater b"
  by (simp_all add: set_state_def)

lemma cancel_queued:
  assumes "gate b gs h" and "busy b" and "capped C Q b" and "w \<in> set (k_waiters b)"
    and "b' = snd (cancelGranted w t b)"
  shows "gs @ k_waiters b' = remove1 w (gs @ k_waiters b) \<and> gate b' gs h \<and> busy b' \<and> capped C Q b'"
proof -
  let ?b = "count_cancel t (removeWaiterLocked w (set_state w waiterCanceled b))"
  have st: "w_state (k_store b ! w) = waiterQueued"
    using assms(1,4) by (auto simp: gate_def list_all_iff)
  have notin: "w \<notin> set gs" using assms(1,4) by (auto simp: gate_def)
  have "grantNextLocked ?b = ?b"
  proof (rule grant_next_idle)
    show "k_maxConcurrency ?b \<le> k_inflight ?b"
      using assms(2,4) by (auto simp: busy_def removeWaiterLocked_def)
  qed
  then have b': "b' = ?b" using assms(5) st by (simp add: cancelGranted_def)
  have "gate ?b gs h"
    using assms(1,4) notin
    by (auto simp: gate_def removeWaiterLocked_def set_state_def list_all_iff nth_list_update
        length_remove1 distinct_remove1 dest: in_set_remove1)
  moreover have "busy ?b" "capped C Q ?b"
    using assms(2-4) by (auto simp: busy_def capped_def removeWaiterLocked_def length_remove1)
  ultimately show ?thesis using b' notin by (simp add: removeWaiterLocked_def remove1_append)
qed

lemma cancel_granted:
  assumes "gate b gs h" and "busy b" and "capped C Q b" and "w \<in> set gs"
    and "b' = snd (cancelGranted w t b)"
  obtains gs' where "gs' @ k_waiters b' = remove1 w (gs @ k_waiters b)" and "gate b' gs' h"
    and "busy b'" and "capped C Q b'"
proof -
  let ?b = "count_cancel t (set_state w waiterCanceled b)"
  have st: "w_state (k_store b ! w) = waiterGranted"
    using assms(1,4) by (auto simp: gate_def list_all_iff)
  have notin: "w \<notin> set (k_waiters b)" using assms(1,4) by (auto simp: gate_def)
  have "length gs = Suc (length (remove1 w gs))"
    using assms(4) by (rule length_remove1_Suc)
  then have "gate ?b (remove1 w gs) (Suc h)"
    using assms(1,4) notin
    by (auto simp: gate_def set_state_def list_all_iff nth_list_update
        dest: notin_set_remove1)
  moreover have "busy ?b" "capped C Q ?b"
    using assms(2,3) by (simp_all add: busy_def capped_def)
  ultimately obtain gs' where
    "gs' @ k_waiters (Bulkhead_release ?b) = remove1 w gs @ k_waiters ?b"
    "gate (Bulkhead_release ?b) gs' h" "busy (Bulkhead_release ?b)" "capped C Q (Bulkhead_release ?b)"
    by (rule gate_free)
  moreover have "0 < k_inflight b" using assms(1,4) by (cases gs) (auto simp: gate_def)
  then have "b' = Bulkhead_release ?b"
    using assms(5) st by (simp add: cancelGranted_def Bulkhead_release_def count_cancel_inflight)
  ultimately show ?thesis using that [of gs'] assms(4) by (simp add: remove1_append)
qed

lemma cancel_inv:
  assumes "bulkhead_inv C Q s" and "w \<in> set (ks_waiting s)"
    and "b' = snd (cancelGranted w t (ks_bulkhead s))"
  shows "bulkhead_inv C Q (s\<lparr>ks_bulkhead := b', ks_waiting := remove1 w (ks_waiting s)\<rparr>)"
proof -
  from assms(1) obtain gs where ws: "ks_waiting s = gs @ k_waiters (ks_bulkhead s)"
    and g: "gate (ks_bulkhead s) gs (holders (ks_permits s))"
    and b: "busy (ks_bulkhead s)" and c: "capped C Q (ks_bulkhead s)"
    by (auto simp: bulkhead_inv_def)
  from assms(2) ws consider "w \<in> set (k_waiters (ks_bulkhead s))" | "w \<in> set gs" by auto
  then obtain gs' where "gs' @ k_waiters b' = remove1 w (gs @ k_waiters (ks_bulkhead s))"
    "gate b' gs' (holders (ks_permits s))" "busy b'" "capped C Q b'"
  proof cases
    case 1
    from cancel_queued [OF g b c 1 assms(3)] that [of gs] show ?thesis by blast
  next
    case 2
    from cancel_granted [OF g b c 2 assms(3)] that show ?thesis by blast
  qed
  then show ?thesis
    unfolding bulkhead_inv_def using ws by (intro conjI exI [of _ gs']) simp_all
qed

lemma settle_Err: "fst r = Err e \<Longrightarrow> settle s w r =
    s\<lparr>ks_bulkhead := snd r, ks_waiting := remove1 w (ks_waiting s)\<rparr>"
  by (simp add: settle_def)

text \<open>A granted caller takes its slot over as a permit.\<close>

lemma take_inv:
  assumes "bulkhead_inv C Q s" and "w \<in> set (ks_waiting s)" and "w_ready (k_store (ks_bulkhead s) ! w)"
  shows "bulkhead_inv C Q (settle s w (Ok new_permit, ks_bulkhead s))"
proof -
  let ?b = "ks_bulkhead s"
  from assms(1) obtain gs where ws: "ks_waiting s = gs @ k_waiters ?b"
    and g: "gate ?b gs (holders (ks_permits s))"
    and b: "busy ?b" and c: "capped C Q ?b"
    by (auto simp: bulkhead_inv_def)
  have w: "w \<in> set gs" using assms(2,3) g ws by (auto simp: gate_def list_all_iff)
  have "length gs = Suc (length (remove1 w gs))" using w by (rule length_remove1_Suc)
  then have "gate ?b (remove1 w gs) (Suc (holders (ks_permits s)))"
    using g w by (auto simp: gate_def list_all_iff dest: notin_set_remove1)
  then have "gate ?b (remove1 w gs) (holders (ks_permits s @ [new_permit]))"
    by (simp add: holders_def new_permit_def)
  with b c ws w show ?thesis
    by (auto simp: bulkhead_inv_def settle_def remove1_append intro!: exI [of _ "remove1 w gs"])
qed

lemma release_inv:
  assumes "bulkhead_inv C Q s" and "i < length (ks_permits s)"
    and "kp_live (ks_permits s ! i)" and "\<not> kp_once (ks_permits s ! i)"
  shows "bulkhead_inv C Q (s\<lparr>ks_bulkhead := Bulkhead_release (ks_bulkhead s),
     ks_permits := (ks_permits s)[i := (ks_permits s ! i)\<lparr>kp_once := True\<rparr>]\<rparr>)"
proof -
  let ?b = "ks_bulkhead s" and ?ps = "(ks_permits s)[i := (ks_permits s ! i)\<lparr>kp_once := True\<rparr>]"
  from assms(1) obtain gs where ws: "ks_waiting s = gs @ k_waiters ?b"
    and g: "gate ?b gs (holders (ks_permits s))"
    and b: "busy ?b" and c: "capped C Q ?b"
    by (auto simp: bulkhead_inv_def)
  have "holders (ks_permits s) = Suc (holders ?ps)"
    using assms(2-4) length_filter_update [of i "ks_permits s" "\<lambda>p. kp_live p \<and> \<not> kp_once p"]
    by (simp add: holders_def)
  with g have "gate ?b gs (Suc (holders ?ps))" by simp
  from gate_free [OF this b c] obtain gs' where
    "gs' @ k_waiters (Bulkhead_release ?b) = gs @ k_waiters ?b"
    "gate (Bulkhead_release ?b) gs' (holders ?ps)" "busy (Bulkhead_release ?b)"
    "capped C Q (Bulkhead_release ?b)" .
  then show ?thesis
    unfolding bulkhead_inv_def using ws by (intro conjI exI [of _ gs']) simp_all
qed

text \<open>The locked section of \<open>Acquire\<close>, by its result.\<close>

lemma locked_inv:
  assumes "bulkhead_inv C Q s" and "bulkhead_validate config = None"
    and "bh_MaxConcurrency config \<le> C" and "bh_MaxQueue config \<le> Q"
    and "Bulkhead_locked config (ks_bulkhead s) = (r, b')"
  shows "bulkhead_inv C Q (case r of
      Acquired (Ok p) \<Rightarrow> s\<lparr>ks_bulkhead := b', ks_permits := ks_permits s @ [p]\<rparr>
    | Acquired (Err _) \<Rightarrow> s\<lparr>ks_bulkhead := b'\<rparr>
    | Waiting w \<Rightarrow> s\<lparr>ks_bulkhead := b', ks_waiting := ks_waiting s @ [w]\<rparr>)"
proof -
  from assms(1) obtain gs where ws: "ks_waiting s = gs @ k_waiters (ks_bulkhead s)"
    and g: "gate (ks_bulkhead s) gs (holders (ks_permits s))"
    and c: "capped C Q (ks_bulkhead s)"
    by (auto simp: bulkhead_inv_def)
  define b1 where "b1 = (ks_bulkhead s)\<lparr>k_maxConcurrency := bh_MaxConcurrency config,
    k_maxQueue := bh_MaxQueue config\<rparr>"
  define b2 where "b2 = grant_all (length (k_waiters b1)) b1"
  have "gate b1 gs (holders (ks_permits s))" "0 < k_maxConcurrency b1" "capped C Q b1"
    using g c assms(2,3)
    by (auto simp: b1_def gate_def capped_def bulkhead_validate_def split: if_splits)
  from grant_all_gate [OF this order_refl] obtain gs' where
    ws': "gs' @ k_waiters b2 = gs @ k_waiters (ks_bulkhead s)"
    and g': "gate b2 gs' (holders (ks_permits s))" and b: "busy b2" and c': "capped C Q b2"
    and m: "k_maxConcurrency b2 = bh_MaxConcurrency config"
    unfolding b2_def by (auto simp: b1_def)
  have pos: "0 < k_maxConcurrency b2" using m assms(2) by (simp add: bulkhead_validate_def split: if_splits)
  let ?free = "k_inflight b2 < bh_MaxConcurrency config \<and> k_waiters b2 = []"
  let ?full = "bh_MaxQueue config = 0 \<or> bh_MaxQueue config \<le> int (length (k_waiters b2))"
  have res: "(r, b') = (if ?free then (Acquired (Ok new_permit),
        b2\<lparr>k_inflight := k_inflight b2 + 1, k_accepted := k_accepted b2 + 1\<rparr>)
      else if ?full then (Acquired (Err ErrFull), b2\<lparr>k_rejected := k_rejected b2 + 1\<rparr>)
      else enqueue b2)"
    using assms(5) unfolding Bulkhead_locked_def Let_def b2_def b1_def by simp
  note facts = ws [folded ws'] g' b c' m
  consider (free) ?free | (full) "\<not> ?free" ?full | (wait) "\<not> ?free" "\<not> ?full" by blast
  then show ?thesis
  proof cases
    case free
    with res facts assms(3) show ?thesis
      by (auto simp: bulkhead_inv_def gate_def busy_def capped_def holders_def new_permit_def)
  next
    case full
    with res facts show ?thesis
      by (auto simp: bulkhead_inv_def gate_def busy_def capped_def)
  next
    case wait
    then have "k_maxConcurrency b2 \<le> k_inflight b2"
      using b m by (auto simp: busy_def)
    with wait res facts pos assms(4) show ?thesis
      by (auto simp: enqueue_def Let_def bulkhead_inv_def gate_def busy_def capped_def list_all_iff
          nth_append less_Suc_eq)
  qed
qed

definition bulkhead_within :: "int \<Rightarrow> int \<Rightarrow> BulkheadSystem \<Rightarrow> BulkheadOp \<Rightarrow> bool" where
  "bulkhead_within C Q s op \<longleftrightarrow> bulkhead_guard s op \<and> (case op of
     KAcquire _ config \<Rightarrow> bh_MaxConcurrency config \<le> C \<and> bh_MaxQueue config \<le> Q | _ \<Rightarrow> True)"

lemma holders_dead: "\<not> kp_live p \<Longrightarrow> holders (ps @ [p]) = holders ps"
  by (simp add: holders_def)

lemma acquire_inv:
  assumes "bulkhead_inv C Q s" and "bh_MaxConcurrency config \<le> C" and "bh_MaxQueue config \<le> Q"
  shows "bulkhead_inv C Q (bulkhead_step s (KAcquire ctx config))"
proof -
  consider (locked) c where "ctx = Some c" "ctx_cause c = None" "bh_Enabled config"
      "bulkhead_validate config = None"
    | (off) c where "ctx = Some c" "ctx_cause c = None" "\<not> bh_Enabled config"
    | (err) e where "Bulkhead_Acquire ctx config (Some (ks_bulkhead s)) =
        (Acquired (Err e), Some (ks_bulkhead s))"
    by (cases ctx; cases "ctx_cause (the ctx)"; cases "bulkhead_validate config";
        cases "bh_Enabled config")
      (auto simp: Bulkhead_Acquire_def)
  then show ?thesis
  proof cases
    case locked
    obtain r b' where r: "Bulkhead_locked config (ks_bulkhead s) = (r, b')" by force
    from locked_inv [OF assms(1) locked(4) assms(2,3) r] locked r show ?thesis
      by (auto simp: Bulkhead_Acquire_def split: acquired.splits sum.splits)
  next
    case off
    with assms(1) show ?thesis
      by (simp add: Bulkhead_Acquire_def bulkhead_inv_def holders_dead)
  next
    case err
    with assms(1) show ?thesis by simp
  qed
qed

lemma bulkhead_step_inv:
  assumes "bulkhead_inv C Q s" and "bulkhead_within C Q s op"
  shows "bulkhead_inv C Q (bulkhead_step s op)"
proof (cases op)
  case (KAcquire ctx config)
  with assms acquire_inv show ?thesis by (simp add: bulkhead_within_def del: bulkhead_step.simps)
next
  case (KReady w cause)
  with assms(2) have w: "w \<in> set (ks_waiting s)" "w_ready (k_store (ks_bulkhead s) ! w)"
    by (simp_all add: bulkhead_within_def)
  show ?thesis
  proof (cases cause)
    case None
    with take_inv [OF assms(1) w] KReady show ?thesis by (simp add: select_ready_def)
  next
    case (Some e)
    with cancel_inv [OF assms(1) w(1) refl] KReady show ?thesis
      by (simp add: select_ready_def settle_Err)
  qed
next
  case (KDone w cause)
  with assms(2) cancel_inv [OF assms(1) _ refl] show ?thesis
    by (simp add: bulkhead_within_def select_done_def settle_Err)
next
  case (KTimeout w)
  with assms(2) cancel_inv [OF assms(1) _ refl] show ?thesis
    by (simp add: bulkhead_within_def select_timeout_def settle_Err)
next
  case (KRelease i)
  show ?thesis
  proof (cases "i < length (ks_permits s) \<and> kp_live (ks_permits s ! i) \<and> \<not> kp_once (ks_permits s ! i)")
    case True
    with release_inv [OF assms(1)] KRelease show ?thesis
      by (simp add: bulkheadPermit_Release_def)
  next
    case False
    then have "bulkhead_step s (KRelease i) = s" by (auto simp: bulkheadPermit_Release_def)
    with assms(1) KRelease show ?thesis by simp
  qed
qed

interpretation bulkhead_sys: guarded_machine bulkhead_step "bulkhead_within C Q" "bulkhead_inv C Q"
  for C Q
  by unfold_locales (rule bulkhead_step_inv)

lemma ks_init_inv: "0 \<le> C \<Longrightarrow> 0 \<le> Q \<Longrightarrow> bulkhead_inv C Q ks_init"
  by (simp add: bulkhead_inv_def ks_init_def NewBulkhead_def gate_def busy_def capped_def holders_def)

section \<open>A concrete run\<close>

definition demo_bulkhead :: BulkheadPolicy where
  "demo_bulkhead = \<lparr>bh_Enabled = True, bh_MaxConcurrency = 1, bh_MaxQueue = 2,
     bh_QueueTimeout = 5\<rparr>"

definition demo_acquire :: BulkheadOp where
  "demo_acquire = KAcquire (Some Background) demo_bulkhead"

definition demo_calls :: "BulkheadOp list" where
  "demo_calls = [demo_acquire, demo_acquire, demo_acquire]"

definition demo_system :: BulkheadSystem where
  "demo_system = \<lparr>ks_bulkhead = \<lparr>k_maxConcurrency = 1, k_maxQueue = 2, k_inflight = 1,
       k_waiters = [0, 1], k_queueHighWater = 2, k_accepted = 1, k_rejected = 0,
       k_queueTimeouts = 0, k_queueCancellations = 0,
       k_store = [\<lparr>w_ready = False, w_state = waiterQueued\<rparr>,
         \<lparr>w_ready = False, w_state = waiterQueued\<rparr>]\<rparr>,
     ks_permits = [new_permit], ks_waiting = [0, 1]\<rparr>"


lemma demo_calls_run:
  "run bulkhead_step ks_init demo_calls = demo_system"
  "run_ok bulkhead_step (bulkhead_within 1 2) ks_init demo_calls"
  by code_simp+


section \<open>Properties\<close>

text \<open>
  C3. However callers arrive, time out, are cancelled or release, the slots in use are exactly
  the unreleased permits and the callers already granted, never more than the configured
  concurrency, and the queue never exceeds its bound.
\<close>

theorem bulkhead_capacity:
  assumes "0 \<le> C" and "0 \<le> Q" and "run_ok bulkhead_step (bulkhead_within C Q) ks_init ops"
    and "s = run bulkhead_step ks_init ops"
  shows "int (holders (ks_permits s)) + int (length (filter (\<lambda>w.
        w_state (k_store (ks_bulkhead s) ! w) = waiterGranted) (ks_waiting s)))
      = k_inflight (ks_bulkhead s) \<and> k_inflight (ks_bulkhead s) \<le> C \<and>
    int (length (k_waiters (ks_bulkhead s))) \<le> Q"
proof -
  have "bulkhead_inv C Q s"
    using bulkhead_sys.run_inv [OF ks_init_inv [OF assms(1,2)] assms(3)] assms(4) by simp
  then obtain gs where ws: "ks_waiting s = gs @ k_waiters (ks_bulkhead s)"
    and g: "gate (ks_bulkhead s) gs (holders (ks_permits s))" and c: "capped C Q (ks_bulkhead s)"
    by (auto simp: bulkhead_inv_def)
  have "filter (\<lambda>w. w_state (k_store (ks_bulkhead s) ! w) = waiterGranted) (ks_waiting s) = gs"
    using g unfolding ws gate_def by (auto simp: list_all_iff filter_empty_conv)
  with g c show ?thesis by (simp add: gate_def capped_def)
qed

theorem bulkhead_capacity_witness:
  "k_inflight (ks_bulkhead (run bulkhead_step ks_init demo_calls)) \<le> 1 \<and>
   int (length (k_waiters (ks_bulkhead (run bulkhead_step ks_init demo_calls)))) \<le> 2"
  using bulkhead_capacity [OF _ _ demo_calls_run(2) refl] by simp

text \<open>
  C30. No slot stays free while a caller queues, also after the limits changed: whenever the
  queue is not empty, the concurrency limit in force is used up.
\<close>

theorem bulkhead_work_conserving:
  assumes "0 \<le> C" and "0 \<le> Q" and "run_ok bulkhead_step (bulkhead_within C Q) ks_init ops"
    and "s = run bulkhead_step ks_init ops" and "k_waiters (ks_bulkhead s) \<noteq> []"
  shows "k_maxConcurrency (ks_bulkhead s) \<le> k_inflight (ks_bulkhead s)"
  using bulkhead_sys.run_inv [OF ks_init_inv [OF assms(1,2)] assms(3)] assms(4,5)
  by (simp add: bulkhead_inv_def busy_def)

theorem bulkhead_work_conserving_witness:
  "k_waiters (ks_bulkhead (run bulkhead_step ks_init demo_calls)) = [0, 1] \<and>
   k_maxConcurrency (ks_bulkhead (run bulkhead_step ks_init demo_calls)) \<le>
     k_inflight (ks_bulkhead (run bulkhead_step ks_init demo_calls))"
  using bulkhead_work_conserving [OF _ _ demo_calls_run(2) refl] demo_calls_run(1)
  by (simp add: demo_system_def)



end
