(* ===== verification/Text_Encoding.thy ===== *)
theory Text_Encoding
  imports Go_Strings
begin

text \<open>
  The textual encodings of Go's standard library that the framework uses: decimal numbers
  (\<open>strconv\<close>), hexadecimal bytes (\<open>encoding/hex\<close>) and base64 (\<open>encoding/base64\<close> with the standard
  alphabet and padding), each with the law that decoding undoes encoding.
\<close>

lemma byte_of_inject: "byte_of c = byte_of d \<longleftrightarrow> c = d"
  by (metis char_of_byte_of)

section \<open>Decimal numbers\<close>

text \<open>\<open>strconv.FormatUint\<close> and \<open>strconv.ParseUint\<close> in base ten.\<close>

fun digits :: "nat \<Rightarrow> string" where
  "digits n = (if n < 10 then [char_of (48 + n)] else digits (n div 10) @ [char_of (48 + n mod 10)])"

declare digits.simps [simp del]

definition is_digit :: "char \<Rightarrow> bool" where
  "is_digit c \<longleftrightarrow> in_range 48 57 (byte_of c)"

definition digit_val :: "char \<Rightarrow> nat" where
  "digit_val c = byte_of c - 48"

definition digits_val :: "string \<Rightarrow> nat" where
  "digits_val s = foldl (\<lambda>n c. n * 10 + digit_val c) 0 s"

definition ParseUint :: "nat \<Rightarrow> string \<Rightarrow> nat option" where
  "ParseUint bits s = (if s \<noteq> [] \<and> list_all is_digit s \<and> digits_val s < 2 ^ bits then Some (digits_val s) else None)"

lemma digit_char: assumes "n < 10" shows "is_digit (char_of (48 + n))" "digit_val (char_of (48 + n)) = n"
  using assms by (simp_all add: is_digit_def digit_val_def in_range_def byte_of_char_of)

lemma digits_nonempty [simp]: "digits n \<noteq> []"
  by (subst digits.simps) simp

lemma digits_digits: "list_all is_digit (digits n)"
  by (induction n rule: digits.induct) (subst digits.simps, auto simp: digit_char)

lemma digits_val_digits: "digits_val (digits n) = n"
proof (induction n rule: digits.induct)
  case (1 n)
  then show ?case
    by (subst digits.simps) (auto simp: digits_val_def digit_char)
qed

lemma ParseUint_digits: "n < 2 ^ bits \<Longrightarrow> ParseUint bits (digits n) = Some n"
  by (simp add: ParseUint_def digits_digits digits_val_digits)

lemma digits_head: "digits n = CHR ''0'' # s \<Longrightarrow> s = []"
proof (induction n arbitrary: s rule: digits.induct)
  case (1 n)
  show ?case
  proof (cases "n < 10")
    case True
    then show ?thesis using 1(2) by (subst (asm) digits.simps) simp
  next
    case False
    obtain t where t: "digits (n div 10) = CHR ''0'' # t"
      using 1(2) False by (subst (asm) digits.simps) (auto simp: append_eq_Cons_conv)
    then have "digits_val (digits (n div 10)) = 0" using 1(1) [OF False t] by (simp add: digits_val_def digit_val_def byte_of_def)
    with False show ?thesis by (simp add: digits_val_digits)
  qed
qed

section \<open>Hexadecimal bytes\<close>

definition lower_hex :: "nat \<Rightarrow> char" where
  "lower_hex n = (if n < 10 then char_of (48 + n) else char_of (87 + n))"

definition hex_value :: "char \<Rightarrow> nat option" where
  "hex_value c = (if in_range 48 57 (byte_of c) then Some (byte_of c - 48)
     else if in_range 97 102 (byte_of c) then Some (byte_of c - 87)
     else if in_range 65 70 (byte_of c) then Some (byte_of c - 55) else None)"

definition hex_encode :: "string \<Rightarrow> string" where
  "hex_encode s = concat (map (\<lambda>c. [lower_hex (byte_of c div 16), lower_hex (byte_of c mod 16)]) s)"

fun hex_decode :: "string \<Rightarrow> string option" where
  "hex_decode [] = Some []"
| "hex_decode [c] = None"
| "hex_decode (c # d # s) = (case (hex_value c, hex_value d, hex_decode s) of
     (Some x, Some y, Some t) \<Rightarrow> Some (char_of (16 * x + y) # t) | _ \<Rightarrow> None)"

lemma hex_value_lower: "n < 16 \<Longrightarrow> hex_value (lower_hex n) = Some n"
  by (auto simp: hex_value_def lower_hex_def byte_of_char_of in_range_def)

lemma hex_decode_encode: "hex_decode (hex_encode s) = Some s"
proof (induction s)
  case (Cons c s)
  have "16 * (byte_of c div 16) + byte_of c mod 16 = byte_of c" "byte_of c div 16 < 16"
    using byte_of_less [of c] by (simp_all add: less_mult_imp_div_less)
  then show ?case using Cons by (simp add: hex_encode_def hex_value_lower)
qed (simp add: hex_encode_def)

lemma length_hex_encode [simp]: "length (hex_encode s) = 2 * length s"
  by (induction s) (simp_all add: hex_encode_def)

lemma lower_hex_range: "n < 16 \<Longrightarrow> graphic [lower_hex n]"
  by (simp add: lower_hex_def byte_of_char_of)

lemma graphic_append [simp]: "graphic (s @ t) \<longleftrightarrow> graphic s \<and> graphic t"
  by (simp add: graphic_def)

lemma hex_encode_graphic: "graphic (hex_encode s)"
proof (induction s)
  case (Cons c s)
  have "graphic [lower_hex (byte_of c div 16)]" "graphic [lower_hex (byte_of c mod 16)]"
    using byte_of_less [of c] by (auto intro!: lower_hex_range simp del: graphic_simps simp: less_mult_imp_div_less)
  then show ?case using Cons by (simp add: hex_encode_def)
qed (simp add: hex_encode_def)

section \<open>Base64\<close>

definition base64_char :: "nat \<Rightarrow> char" where
  "base64_char n = (if n < 26 then char_of (65 + n) else if n < 52 then char_of (71 + n)
     else if n < 62 then char_of (n - 4) else if n = 62 then CHR ''+'' else CHR ''/'')"

definition base64_value :: "char \<Rightarrow> nat option" where
  "base64_value c = (let b = byte_of c in
     if in_range 65 90 b then Some (b - 65) else if in_range 97 122 b then Some (b - 71)
     else if in_range 48 57 b then Some (b + 4) else if c = CHR ''+'' then Some 62
     else if c = CHR ''/'' then Some 63 else None)"

fun base64_encode :: "string \<Rightarrow> string" where
  "base64_encode [] = []"
| "base64_encode [a] = [base64_char (byte_of a div 4), base64_char (byte_of a mod 4 * 16), CHR ''='', CHR ''='']"
| "base64_encode [a, b] = [base64_char (byte_of a div 4), base64_char (byte_of a mod 4 * 16 + byte_of b div 16),
     base64_char (byte_of b mod 16 * 4), CHR ''='']"
| "base64_encode (a # b # c # s) = [base64_char (byte_of a div 4), base64_char (byte_of a mod 4 * 16 + byte_of b div 16),
     base64_char (byte_of b mod 16 * 4 + byte_of c div 64), base64_char (byte_of c mod 64)] @ base64_encode s"

text \<open>
  The decoder skips carriage returns and line feeds, wants the padding, and ignores the unused bits
  of the last character.
\<close>

fun base64_groups :: "string \<Rightarrow> string option" where
  "base64_groups [] = Some []"
| "base64_groups (p # q # r # t # s) = (case (base64_value p, base64_value q) of
     (Some w, Some x) \<Rightarrow>
       if t = CHR ''='' then
         (if s \<noteq> [] then None
          else if r = CHR ''='' then Some [char_of (w * 4 + x div 16)]
          else (case base64_value r of None \<Rightarrow> None
            | Some y \<Rightarrow> Some [char_of (w * 4 + x div 16), char_of (x mod 16 * 16 + y div 4)]))
       else (case (base64_value r, base64_value t, base64_groups s) of
           (Some y, Some z, Some rest) \<Rightarrow> Some (char_of (w * 4 + x div 16) # char_of (x mod 16 * 16 + y div 4) #
             char_of (y mod 4 * 64 + z) # rest)
         | _ \<Rightarrow> None)
   | _ \<Rightarrow> None)"
| "base64_groups _ = None"

definition base64_decode :: "string \<Rightarrow> string option" where
  "base64_decode s = base64_groups (filter (\<lambda>c. byte_of c \<noteq> 10 \<and> byte_of c \<noteq> 13) s)"

lemma base64_char_value: "n < 64 \<Longrightarrow> base64_value (base64_char n) = Some n"
  by (auto simp: base64_value_def base64_char_def byte_of_char_of in_range_def Let_def byte_of_def [of "CHR ''+''"]
      byte_of_def [of "CHR ''/''"])

lemma base64_char_graphic: "n < 64 \<Longrightarrow> graphic [base64_char n]"
  by (auto simp: base64_char_def byte_of_char_of byte_of_def [of "CHR ''+''"] byte_of_def [of "CHR ''/''"])

lemma base64_char_special: "n < 64 \<Longrightarrow> base64_char n \<noteq> CHR ''=''"
  using base64_char_value [of n] by (auto simp: base64_value_def byte_of_def in_range_def Let_def)

lemma base64_bits:
  fixes a b c :: nat
  assumes "a < 256" and "b < 256" and "c < 256"
  shows "a div 4 < 64" "a mod 4 * 16 + b div 16 < 64" "b mod 16 * 4 + c div 64 < 64" "c mod 64 < 64"
    "a div 4 * 4 + (a mod 4 * 16 + b div 16) div 16 = a"
    "(a mod 4 * 16 + b div 16) mod 16 * 16 + (b mod 16 * 4 + c div 64) div 4 = b"
    "(b mod 16 * 4 + c div 64) mod 4 * 64 + c mod 64 = c" "b div 16 mod 16 * 16 + b mod 16 = b"
proof -
  have "b div 16 < 16" "c div 64 < 4" "a mod 4 < 4" "b mod 16 < 16" using assms by auto
  then show "a div 4 < 64" "a mod 4 * 16 + b div 16 < 64" "b mod 16 * 4 + c div 64 < 64" "c mod 64 < 64"
    "a div 4 * 4 + (a mod 4 * 16 + b div 16) div 16 = a"
    "(a mod 4 * 16 + b div 16) mod 16 * 16 + (b mod 16 * 4 + c div 64) div 4 = b"
    "(b mod 16 * 4 + c div 64) mod 4 * 64 + c mod 64 = c" "b div 16 mod 16 * 16 + b mod 16 = b"
    using assms by auto
qed

lemma base64_groups_encode: "base64_groups (base64_encode s) = Some s"
proof (induction s rule: base64_encode.induct)
  case (2 a)
  show ?case using base64_bits [of "byte_of a" 0 0] by (simp add: base64_char_value byte_of_less)
next
  case (3 a b)
  show ?case using base64_bits [of "byte_of a" "byte_of b" 0]
    by (simp add: base64_char_value base64_char_special byte_of_less)
next
  case (4 a b c s)
  then show ?case using base64_bits [of "byte_of a" "byte_of b" "byte_of c"]
    by (simp add: base64_char_value base64_char_special byte_of_less)
qed simp

lemma base64_encode_graphic: "graphic (base64_encode s)"
proof (induction s rule: base64_encode.induct)
  case (2 a)
  show ?case using base64_bits [of "byte_of a" 0 0] base64_char_graphic by (simp add: byte_of_less byte_of_def [of "CHR ''=''"])
next
  case (3 a b)
  show ?case using base64_bits [of "byte_of a" "byte_of b" 0] base64_char_graphic
    by (simp add: byte_of_less byte_of_def [of "CHR ''=''"])
next
  case (4 a b c s)
  then show ?case using base64_bits [of "byte_of a" "byte_of b" "byte_of c"] base64_char_graphic
    by (simp add: byte_of_less)
qed simp

lemma base64_decode_encode: "base64_decode (base64_encode s) = Some s"
proof -
  have "filter (\<lambda>c. byte_of c \<noteq> 10 \<and> byte_of c \<noteq> 13) (base64_encode s) = base64_encode s"
    using base64_encode_graphic [of s] by (intro filter_True) (auto simp: graphic_def list_all_iff)
  then show ?thesis by (simp add: base64_decode_def base64_groups_encode)
qed

end
