(* ===== verification/RateLimit.thy ===== *)
theory RateLimit
  imports Context Text_Encoding
begin

text \<open>
  Local rate limits (\<open>governance/ratelimit/limiter.go\<close>): a token bucket in \<open>float64\<close>
  with a concurrency gate, its pool and middleware; and the shared quota controller with its
  failure modes (\<open>governance/ratelimit/distributed.go\<close>).
\<close>

section \<open>The local limiter\<close>

abbreviation ErrLimited :: goerr where
  "ErrLimited \<equiv> errors_New 429 ''RATE_LIMITED'' ''request rate is limited''"

abbreviation ErrRateOption :: goerr where
  "ErrRateOption \<equiv> Sentinel ''ratelimit: invalid option''"

record Limiter =
  l_initialized :: bool
  l_rate :: float64
  l_burst :: int
  l_last :: go_time
  l_tokens :: float64
  l_inflight :: int
  l_accepted :: u64
  l_rejected :: u64

record limiterPermit =
  lp_live :: bool
  lp_once :: bool

definition NewLimiter :: Limiter where
  "NewLimiter = \<lparr>l_initialized = False, l_rate = Fin 0, l_burst = 0, l_last = 0, l_tokens = Fin 0,
     l_inflight = 0, l_accepted = 0, l_rejected = 0\<rparr>"

definition ratelimit_validate :: "RateLimitPolicy \<Rightarrow> goerr option" where
  "ratelimit_validate config =
     (let hasRate = f_less (Fin 0) (rl_RequestsPerSecond config) \<or> rl_Burst config > 0 in
      if f_less (rl_RequestsPerSecond config) (Fin 0) \<or> f_IsNaN (rl_RequestsPerSecond config) \<or>
         f_IsInf (rl_RequestsPerSecond config) \<or> rl_Burst config < 0 \<or>
         rl_MaxConcurrency config < 0 \<or>
         hasRate \<and> (f_le (rl_RequestsPerSecond config) (Fin 0) \<or> rl_Burst config \<le> 0) \<or>
         \<not> hasRate \<and> rl_MaxConcurrency config \<le> 0
      then Some (Wrapf ''resolved rate-limit policy is invalid'' [ErrInvalidPolicy])
      else None)"

definition Limiter_configure :: "go_time \<Rightarrow> RateLimitPolicy \<Rightarrow> Limiter \<Rightarrow> Limiter" where
  "Limiter_configure now config l =
     (if l_initialized l \<and> f_eq (l_rate l) (rl_RequestsPerSecond config) \<and>
         l_burst l = rl_Burst config then l
      else l\<lparr>l_initialized := True, l_rate := rl_RequestsPerSecond config,
        l_burst := rl_Burst config, l_last := now, l_tokens := f_of_int (rl_Burst config)\<rparr>)"

definition Limiter_refill :: "go_time \<Rightarrow> Limiter \<Rightarrow> Limiter" where
  "Limiter_refill now l =
     (if f_le (l_rate l) (Fin 0) \<or> time_Before now (l_last l) then l\<lparr>l_last := now\<rparr>
      else (let elapsed = duration_Seconds (time_Sub now (l_last l)) in
        l\<lparr>l_tokens := f_min (f_of_int (l_burst l)) (f_add (l_tokens l) (f_mul elapsed (l_rate l))),
          l_last := now\<rparr>))"

definition Limiter_locked ::
  "go_time \<Rightarrow> RateLimitPolicy \<Rightarrow> Limiter \<Rightarrow> (goerr + limiterPermit) \<times> Limiter" where
  "Limiter_locked now config l =
     (let l1 = Limiter_refill now (Limiter_configure now config l) in
      if rl_MaxConcurrency config > 0 \<and> l_inflight l1 \<ge> rl_MaxConcurrency config
      then (Err ErrLimited, l1\<lparr>l_rejected := l_rejected l1 + 1\<rparr>)
      else if f_less (Fin 0) (rl_RequestsPerSecond config) \<and> f_less (l_tokens l1) (Fin 1)
      then (Err ErrLimited, l1\<lparr>l_rejected := l_rejected l1 + 1\<rparr>)
      else (let l2 = (if f_less (Fin 0) (rl_RequestsPerSecond config)
              then l1\<lparr>l_tokens := f_sub (l_tokens l1) (Fin 1)\<rparr> else l1) in
        (Ok \<lparr>lp_live = True, lp_once = False\<rparr>,
         l2\<lparr>l_inflight := l_inflight l2 + 1, l_accepted := l_accepted l2 + 1\<rparr>)))"

definition Limiter_Acquire ::
  "go_time \<Rightarrow> RateLimitPolicy \<Rightarrow> Limiter option \<Rightarrow> (goerr + limiterPermit) \<times> Limiter option" where
  "Limiter_Acquire now config subj =
     (case subj of
        None \<Rightarrow> (Err (Wrapf ''limiter is nil'' [ErrRateOption]), None)
      | Some l \<Rightarrow>
        if \<not> rl_Enabled config then (Ok \<lparr>lp_live = False, lp_once = False\<rparr>, Some l)
        else (case ratelimit_validate config of
          Some e \<Rightarrow> (Err e, Some l)
        | None \<Rightarrow> map_prod id Some (Limiter_locked now config l)))"

definition limiterPermit_Release :: "limiterPermit \<Rightarrow> Limiter \<Rightarrow> limiterPermit \<times> Limiter" where
  "limiterPermit_Release p l =
     (if \<not> lp_live p \<or> lp_once p then (p, l)
      else (p\<lparr>lp_once := True\<rparr>,
        if l_inflight l > 0 then l\<lparr>l_inflight := l_inflight l - 1\<rparr> else l))"

record LimiterDescription =
  ld_Key :: string
  ld_Tokens :: float64
  ld_Inflight :: int
  ld_Accepted :: u64
  ld_Rejected :: u64

definition Limiter_Describe :: "Limiter option \<Rightarrow> LimiterDescription" where
  "Limiter_Describe subj = (case subj of
     None \<Rightarrow> \<lparr>ld_Key = [], ld_Tokens = Fin 0, ld_Inflight = 0, ld_Accepted = 0, ld_Rejected = 0\<rparr>
   | Some l \<Rightarrow> \<lparr>ld_Key = [], ld_Tokens = l_tokens l, ld_Inflight = l_inflight l,
       ld_Accepted = l_accepted l, ld_Rejected = l_rejected l\<rparr>)"

type_synonym LimiterPool = "(string, Limiter) gomap"

definition LimiterPool_Get :: "string \<Rightarrow> LimiterPool \<Rightarrow> Limiter \<times> LimiterPool" where
  "LimiterPool_Get key pool = (case gm_get pool (TrimSpace key) of
     Some l \<Rightarrow> (l, pool)
   | None \<Rightarrow> (NewLimiter, gm_put (TrimSpace key) NewLimiter pool))"

definition LimiterPool_Describe :: "LimiterPool option \<Rightarrow> LimiterDescription list" where
  "LimiterPool_Describe pool = (case pool of None \<Rightarrow> []
   | Some m \<Rightarrow> map (\<lambda>key. (Limiter_Describe (gm_get m key))\<lparr>ld_Key := key\<rparr>) (sort (gm_keys m)))"

text \<open>\<open>pool.Get(key).Acquire(config)\<close> and the release of a permit, on the pool.\<close>

definition LimiterPool_Acquire ::
  "go_time \<Rightarrow> string \<Rightarrow> RateLimitPolicy \<Rightarrow> LimiterPool \<Rightarrow> (goerr + limiterPermit) \<times> LimiterPool" where
  "LimiterPool_Acquire now key config pool =
     (let (l, pool1) = LimiterPool_Get key pool in
      case Limiter_Acquire now config (Some l) of
        (r, l') \<Rightarrow> (r, gm_put (TrimSpace key) (the l') pool1))"

definition LimiterPool_Release :: "string \<Rightarrow> limiterPermit \<Rightarrow> LimiterPool \<Rightarrow> LimiterPool" where
  "LimiterPool_Release key p pool = (case gm_get pool (TrimSpace key) of None \<Rightarrow> pool
     | Some l \<Rightarrow> gm_put (TrimSpace key) (snd (limiterPermit_Release p l)) pool)"

definition ratelimit_middleware ::
  "(Operation \<Rightarrow> Policy) \<Rightarrow> go_time \<Rightarrow> (LimiterPool, 'q, 'r) Handler option \<Rightarrow>
     (LimiterPool, 'q, 'r) Handler" where
  "ratelimit_middleware resolver now next ctx request pool =
     (case next of None \<Rightarrow> fail (Wrapf ''next handler is nil'' [ErrRateOption]) pool
      | Some nxt \<Rightarrow> (case ctx of None \<Rightarrow> fail (Wrapf ''context is nil'' [ErrRateOption]) pool
      | Some c \<Rightarrow> (case operation_FromContext ctx of
          None \<Rightarrow> fail (Wrapf ''operation is missing'' [ErrRateOption]) pool
        | Some target \<Rightarrow>
          (let config = pol_RateLimit (policy_Resolve ctx resolver target) in
           if \<not> rl_Enabled config then nxt ctx request pool
           else (case LimiterPool_Acquire now (PolicyKey target) config pool of
             (Err e, pool1) \<Rightarrow> fail e pool1
           | (Ok permit, pool1) \<Rightarrow>
             (case nxt ctx request pool1 of
               (r, pool2) \<Rightarrow> (r, LimiterPool_Release (PolicyKey target) permit pool2)))))))"

section \<open>The shared quota controller\<close>

text \<open>A mode outside the three declared ones is \<open>OtherMode\<close>.\<close>

datatype FailureMode = FailClosed | FailOpen | LocalFallback | OtherMode

datatype Degradation = DegradationNone | DegradationFailOpen | DegradationLocalFallback

record Subject =
  sb_Key :: string
  sb_Cost :: int

record Quota =
  q_Key :: string
  q_Rate :: float64
  q_Burst :: int
  q_Cost :: int

record Decision =
  dc_Allowed :: bool
  dc_Remaining :: float64
  dc_RetryAfter :: duration

definition admitted :: Decision where
  "admitted = \<lparr>dc_Allowed = True, dc_Remaining = Fin 0, dc_RetryAfter = 0\<rparr>"

text \<open>
  The controller. \<open>dl_lastError\<close> is the backend error whose bounded text the code records.
\<close>

record DistributedLimiter =
  dl_mode :: FailureMode
  dl_local :: LimiterPool
  dl_backendTimeout :: duration
  dl_accepted :: u64
  dl_rejected :: u64
  dl_backendErrors :: u64
  dl_failOpen :: u64
  dl_localFallback :: u64
  dl_lastError :: "goerr option"

record DistributedPermit =
  dp_local :: "(string \<times> limiterPermit) option"
  dp_decision :: Decision
  dp_degradation :: Degradation

abbreviation ErrUnavailable :: goerr where
  "ErrUnavailable \<equiv>
     errors_New 503 ''RATE_LIMIT_UNAVAILABLE'' ''distributed rate limit is unavailable''"

abbreviation ErrInvalidSubject :: goerr where
  "ErrInvalidSubject \<equiv> Sentinel ''ratelimit: invalid distributed subject''"

abbreviation ErrInvalidDecision :: goerr where
  "ErrInvalidDecision \<equiv> Sentinel ''ratelimit: invalid distributed decision''"

definition maxSubjectBytes :: nat where "maxSubjectBytes = 256"

definition NewDistributedLimiter ::
  "bool \<Rightarrow> FailureMode \<Rightarrow> LimiterPool option \<Rightarrow> duration \<Rightarrow> goerr + DistributedLimiter" where
  "NewDistributedLimiter backend_set mode localPool backendTimeout =
     (if \<not> backend_set then Err (Wrapf ''distributed backend is nil'' [ErrRateOption])
      else if mode = OtherMode then Err (Wrapf ''failure mode'' [ErrRateOption])
      else (let timeout = (if backendTimeout = 0 then 50 * millisecond else backendTimeout) in
        if timeout \<le> 0 then Err (Wrapf ''backend timeout must be positive'' [ErrRateOption])
        else Ok \<lparr>dl_mode = mode, dl_local = (case localPool of None \<Rightarrow> [] | Some p \<Rightarrow> p),
          dl_backendTimeout = timeout, dl_accepted = 0, dl_rejected = 0, dl_backendErrors = 0,
          dl_failOpen = 0, dl_localFallback = 0, dl_lastError = None\<rparr>))"

definition default_subject :: "Operation \<Rightarrow> Subject" where
  "default_subject target = \<lparr>sb_Key = PolicyKey target, sb_Cost = 1\<rparr>"

definition concurrencyPolicy :: "RateLimitPolicy \<Rightarrow> RateLimitPolicy" where
  "concurrencyPolicy config =
     (if rl_MaxConcurrency config \<le> 0 then zero_RateLimitPolicy
      else zero_RateLimitPolicy\<lparr>rl_Enabled := True,
        rl_MaxConcurrency := rl_MaxConcurrency config\<rparr>)"

definition validateSubject :: "Subject \<Rightarrow> goerr option" where
  "validateSubject s =
     (if TrimSpace (sb_Key s) \<noteq> sb_Key s \<or> sb_Key s = [] \<or> length (sb_Key s) > maxSubjectBytes \<or>
         \<not> ValidString (sb_Key s) \<or> sb_Cost s \<le> 0
      then Some (Wrapf ''key or cost is invalid'' [ErrInvalidSubject])
      else if containsControl (sb_Key s)
      then Some (Wrapf ''key contains control characters'' [ErrInvalidSubject])
      else None)"

definition validateDecision :: "Decision \<Rightarrow> goerr option" where
  "validateDecision d =
     (if f_less (dc_Remaining d) (Fin 0) \<or> f_IsNaN (dc_Remaining d) \<or> f_IsInf (dc_Remaining d) \<or>
         dc_RetryAfter d < 0
      then Some (Wrapf ''negative or non-finite value'' [ErrInvalidDecision]) else None)"

definition limitedError :: "Decision \<Rightarrow> goerr" where
  "limitedError d =
     (if dc_RetryAfter d \<le> 0 then ErrLimited
      else (let ms = dc_RetryAfter d sdiv millisecond;
                milliseconds = (if ms \<le> 0 then 1 else ms) in
        errors_Clone ErrLimited [WithMetadata [(''retry-after-ms'', digits (nat milliseconds))]]))"

definition recordAccepted :: "DistributedLimiter \<Rightarrow> DistributedLimiter" where
  "recordAccepted l = l\<lparr>dl_accepted := dl_accepted l + 1\<rparr>"

definition recordRejected :: "DistributedLimiter \<Rightarrow> DistributedLimiter" where
  "recordRejected l = l\<lparr>dl_rejected := dl_rejected l + 1\<rparr>"

definition recordBackendError :: "goerr \<Rightarrow> DistributedLimiter \<Rightarrow> DistributedLimiter" where
  "recordBackendError e l = l\<lparr>dl_backendErrors := dl_backendErrors l + 1, dl_lastError := Some e\<rparr>"

definition recordFailOpen :: "DistributedLimiter \<Rightarrow> DistributedLimiter" where
  "recordFailOpen l = l\<lparr>dl_failOpen := dl_failOpen l + 1\<rparr>"

definition recordLocalFallback :: "DistributedLimiter \<Rightarrow> DistributedLimiter" where
  "recordLocalFallback l = l\<lparr>dl_localFallback := dl_localFallback l + 1\<rparr>"

definition acquireLocal ::
  "go_time \<Rightarrow> string \<Rightarrow> RateLimitPolicy \<Rightarrow> Decision \<Rightarrow> Degradation \<Rightarrow> DistributedLimiter \<Rightarrow>
     (goerr + DistributedPermit) \<times> DistributedLimiter" where
  "acquireLocal now key config decision degradation l =
     (if \<not> rl_Enabled config
      then (Ok \<lparr>dp_local = None, dp_decision = decision, dp_degradation = degradation\<rparr>,
        recordAccepted l)
      else (case LimiterPool_Acquire now key config (dl_local l) of
        (Err e, pool) \<Rightarrow> (Err e, recordRejected (l\<lparr>dl_local := pool\<rparr>))
      | (Ok permit, pool) \<Rightarrow>
          (Ok \<lparr>dp_local = Some (key, permit), dp_decision = decision,
             dp_degradation = degradation\<rparr>, recordAccepted (l\<lparr>dl_local := pool\<rparr>))))"

text \<open>
  The part of \<open>Acquire\<close> after the backend answered with \<open>decision\<close> or \<open>backendErr\<close>.
\<close>

definition settle_backend ::
  "go_time \<Rightarrow> Operation \<Rightarrow> RateLimitPolicy \<Rightarrow> goerr + Decision \<Rightarrow> DistributedLimiter \<Rightarrow>
     (goerr + DistributedPermit) \<times> DistributedLimiter" where
  "settle_backend now target config answer l =
     (let checked = (case answer of Err e \<Rightarrow> Err e
        | Ok d \<Rightarrow> (case validateDecision d of None \<Rightarrow> Ok d | Some e \<Rightarrow> Err e)) in
      case checked of
        Ok d \<Rightarrow>
          (let l1 = l\<lparr>dl_lastError := None\<rparr> in
           if \<not> dc_Allowed d then (Err (limitedError d), recordRejected l1)
           else acquireLocal now (PolicyKey target) (concurrencyPolicy config) d DegradationNone l1)
      | Err e \<Rightarrow>
          (let l1 = recordBackendError e l in
           case dl_mode l1 of
             FailClosed \<Rightarrow> (Err (errors_Wrap (Some e) 503 ''RATE_LIMIT_UNAVAILABLE''
               ''distributed rate limit is unavailable''), recordRejected l1)
           | FailOpen \<Rightarrow> acquireLocal now (PolicyKey target) (concurrencyPolicy config) admitted
               DegradationFailOpen (recordFailOpen l1)
           | LocalFallback \<Rightarrow> acquireLocal now (PolicyKey target) config admitted
               DegradationLocalFallback (recordLocalFallback l1)
           | OtherMode \<Rightarrow> (Err (Wrapf ''failure mode'' [ErrRateOption]), l1)))"

text \<open>
  \<open>Acquire\<close>. The subject function and the backend are arguments; \<open>cause1\<close> is the cause of
  the caller's context when the backend has answered.
\<close>

definition Distributed_Acquire ::
  "(Operation \<Rightarrow> 'q \<Rightarrow> goerr + Subject) \<Rightarrow> (Quota \<Rightarrow> goerr + Decision) \<Rightarrow> go_time \<Rightarrow>
     goerr option \<Rightarrow> Context option \<Rightarrow> Operation \<Rightarrow> 'q \<Rightarrow> RateLimitPolicy \<Rightarrow>
     DistributedLimiter \<Rightarrow> (goerr + DistributedPermit) \<times> DistributedLimiter" where
  "Distributed_Acquire subject backend now cause1 ctx target request config l =
     (case ctx of None \<Rightarrow> (Err (Wrapf ''limiter or context is nil'' [ErrRateOption]), l)
      | Some c \<Rightarrow> (case ctx_cause c of Some cause \<Rightarrow> (Err cause, l)
      | None \<Rightarrow>
        if transport target = [] \<or> service target = [] \<or> op_method target = []
        then (Err (Wrapf ''operation is invalid'' [ErrInvalidSubject]), l)
        else if \<not> rl_Enabled config
        then (Ok \<lparr>dp_local = None, dp_decision = \<lparr>dc_Allowed = False, dc_Remaining = Fin 0,
          dc_RetryAfter = 0\<rparr>, dp_degradation = DegradationNone\<rparr>, l)
        else (case ratelimit_validate config of Some e \<Rightarrow> (Err e, l)
        | None \<Rightarrow>
          if \<not> f_less (Fin 0) (rl_RequestsPerSecond config)
          then acquireLocal now (PolicyKey target) (concurrencyPolicy config) admitted
            DegradationNone l
          else (case subject target request of
            Err e \<Rightarrow> (Err (Wrapf ''subject'' [ErrInvalidSubject, e]), l)
          | Ok s \<Rightarrow> (case validateSubject s of Some e \<Rightarrow> (Err e, l)
          | None \<Rightarrow>
            if sb_Cost s > rl_Burst config then (Err ErrLimited, recordRejected l)
            else (let answer = backend \<lparr>q_Key = sb_Key s, q_Rate = rl_RequestsPerSecond config,
                    q_Burst = rl_Burst config, q_Cost = sb_Cost s\<rparr> in
              case cause1 of Some cause \<Rightarrow> (Err cause, l)
              | None \<Rightarrow> settle_backend now target config answer l))))))"


definition DistributedPermit_Degraded :: "DistributedPermit option \<Rightarrow> bool" where
  "DistributedPermit_Degraded p = (case p of None \<Rightarrow> False
     | Some q \<Rightarrow> dp_degradation q \<noteq> DegradationNone)"

section \<open>Floating point steps\<close>

lemma to_float64_nonneg:
  assumes "0 \<le> q"
  obtains x where "to_float64 q = Fin x" and "0 \<le> x" and "representable x" | "to_float64 q = PInf"
proof (cases "2 ^ 1024 \<le> round64 q")
  case True
  with that(2) show ?thesis by (simp add: to_float64_def)
next
  case False
  have "0 \<le> round64 q" using assms by (rule b64.rnd_nonneg)
  moreover from this have "\<not> round64 q \<le> - (2 ^ 1024)"
    using zero_less_power [of "2 :: rat" 1024] by linarith
  ultimately show ?thesis
    using False that(1) [of "round64 q"] b64.repr_rnd by (simp add: to_float64_def)
qed

lemma f_of_int_u63:
  assumes "0 \<le> n" and "n < 2 ^ 63"
  shows "f_of_int n = Fin (round64 (of_int n)) \<and> 0 \<le> round64 (of_int n) \<and>
    representable (round64 (of_int n))"
proof -
  have "(of_int n :: rat) \<le> of_int (2 ^ 64)" using assms by (simp only: of_int_le_iff) simp
  then have "to_float64 (of_int n) = Fin (round64 (of_int n))"
    using assms by (intro to_float64_small) simp_all
  then show ?thesis using assms b64.rnd_nonneg [of "of_int n"] b64.repr_rnd
    by (simp add: f_of_int_def)
qed

lemma duration_Seconds_nonneg:
  assumes "0 \<le> d" and "d \<le> maxDuration"
  obtains e where "duration_Seconds d = Fin e" and "0 \<le> e"
proof -
  have sdiv_nonneg: "d sdiv second = d div second" and smod_nonneg: "d smod second = d mod second"
    using assms by (simp_all add: sdiv_int_nonneg second_def)
  let ?q = "d sdiv second" and ?r = "d smod second"
  have q: "0 \<le> ?q" "?q \<le> 2 ^ 40" and r: "0 \<le> ?r" "?r < 1000000000"
    unfolding sdiv_nonneg smod_nonneg unfolding second_def using assms by (auto simp: maxDuration_def)
  have "f_of_int ?q = Fin (of_int ?q)" "f_of_int ?r = Fin (of_int ?r)"
    using q r by (intro f_of_int_small; simp)+
  moreover have "to_float64 (of_int ?r / 1000000000) = Fin (round64 (of_int ?r / 1000000000))"
    using r by (intro to_float64_unit) simp_all
  moreover have "0 \<le> round64 (of_int ?r / 1000000000 :: rat)" "round64 (of_int ?r / 1000000000) \<le> 1"
    using r b64.rnd_unit_quotient [of "of_int ?r" 1000000000] by simp_all
  moreover have "(of_int ?q :: rat) \<le> of_int (2 ^ 40)" using q by (simp only: of_int_le_iff)
  ultimately have "duration_Seconds d = Fin (round64 (of_int ?q + round64 (of_int ?r / 1000000000)))"
    "0 \<le> of_int ?q + round64 (of_int ?r / 1000000000)"
    using q by (simp_all add: duration_Seconds_def to_float64_small)
  with that b64.rnd_nonneg show ?thesis by blast
qed

lemma f_min_fin:
  assumes "0 \<le> B" and "y = PInf \<or> (\<exists>x. y = Fin x \<and> 0 \<le> x \<and> representable x)" and "representable B"
  obtains t where "f_min (Fin B) y = Fin t" and "0 \<le> t" and "t \<le> B" and "representable t"
proof (cases "\<exists>x. y = Fin x \<and> x \<le> B")
  case True
  then obtain x where "y = Fin x" "x \<le> B" by blast
  with that [of x] assms(2) show ?thesis by (auto simp: f_min_def)
next
  case False
  with assms(2) have "f_min (Fin B) y = Fin B" by (auto simp: f_min_def)
  with that [of B] assms show ?thesis by blast
qed

section \<open>A limiter and its permits\<close>

record LimiterSystem =
  ls_limiter :: Limiter
  ls_permits :: "limiterPermit list"

datatype LimiterOp = LAcquire go_time RateLimitPolicy | LRelease nat

definition lim_init :: LimiterSystem where
  "lim_init = \<lparr>ls_limiter = NewLimiter, ls_permits = []\<rparr>"

fun limiter_step :: "LimiterSystem \<Rightarrow> LimiterOp \<Rightarrow> LimiterSystem" where
  "limiter_step s (LAcquire now config) =
     (case Limiter_Acquire now config (Some (ls_limiter s)) of
        (r, l) \<Rightarrow> \<lparr>ls_limiter = the l,
          ls_permits = ls_permits s @ (case r of Err _ \<Rightarrow> [] | Ok p \<Rightarrow> [p])\<rparr>)"
| "limiter_step s (LRelease i) =
     (if i < length (ls_permits s) then
        (case limiterPermit_Release (ls_permits s ! i) (ls_limiter s) of
           (p, l) \<Rightarrow> \<lparr>ls_limiter = l, ls_permits = (ls_permits s)[i := p]\<rparr>)
      else s)"

text \<open>The burst is a 64-bit \<open>int\<close>.\<close>

fun limiter_guard :: "LimiterSystem \<Rightarrow> LimiterOp \<Rightarrow> bool" where
  "limiter_guard s (LAcquire now config) = (rl_Burst config < 2 ^ 63)"
| "limiter_guard s (LRelease i) = True"

definition unreleased :: "limiterPermit list \<Rightarrow> nat" where
  "unreleased ps = length (filter (\<lambda>p. lp_live p \<and> \<not> lp_once p) ps)"

definition bucket_ok :: "Limiter \<Rightarrow> bool" where
  "bucket_ok l \<longleftrightarrow> 0 \<le> l_burst l \<and> l_burst l < 2 ^ 63 \<and> (\<exists>r. l_rate l = Fin r \<and> 0 \<le> r) \<and>
     (\<exists>t. l_tokens l = Fin t \<and> representable t \<and> 0 \<le> t \<and> t \<le> round64 (of_int (l_burst l)))"

definition limiter_inv :: "LimiterSystem \<Rightarrow> bool" where
  "limiter_inv s \<longleftrightarrow> bucket_ok (ls_limiter s) \<and>
     l_inflight (ls_limiter s) = int (unreleased (ls_permits s))"

lemma validate_rate:
  assumes "ratelimit_validate config = None"
  obtains r where "rl_RequestsPerSecond config = Fin r" and "0 \<le> r" and "0 \<le> rl_Burst config"
    and "0 < r \<Longrightarrow> 0 < rl_Burst config"
  using assms
  by (cases "rl_RequestsPerSecond config")
    (auto simp: ratelimit_validate_def f_IsNaN_def f_IsInf_def Let_def split: if_splits)

lemma configure_ok:
  assumes "bucket_ok l" and "ratelimit_validate config = None" and "rl_Burst config < 2 ^ 63"
  shows "bucket_ok (Limiter_configure now config l)"
proof -
  obtain r where r: "rl_RequestsPerSecond config = Fin r" "0 \<le> r" "0 \<le> rl_Burst config"
    using assms(2) by (rule validate_rate)
  with f_of_int_u63 [OF r(3) assms(3)] assms(1,3) show ?thesis
    by (auto simp: Limiter_configure_def bucket_ok_def)
qed

lemma refill_tokens:
  assumes "bucket_ok l"
  shows "bucket_ok (Limiter_refill now l)"
proof (cases "f_le (l_rate l) (Fin 0) \<or> time_Before now (l_last l)")
  case True
  with assms show ?thesis by (simp add: Limiter_refill_def bucket_ok_def)
next
  case False
  let ?B = "round64 (of_int (l_burst l))"
  from assms obtain r t where r: "l_rate l = Fin r" "0 \<le> r" and t: "l_tokens l = Fin t" "0 \<le> t"
    by (auto simp: bucket_ok_def)
  have B: "f_of_int (l_burst l) = Fin ?B" "0 \<le> ?B" "representable ?B"
    using f_of_int_u63 [of "l_burst l"] assms by (simp_all add: bucket_ok_def)
  have "0 \<le> time_Sub now (l_last l)" "time_Sub now (l_last l) \<le> maxDuration"
    using False by (auto simp: gotime_simps time_Sub_def minDuration_def maxDuration_def)
  then obtain e where e: "duration_Seconds (time_Sub now (l_last l)) = Fin e" "0 \<le> e"
    by (rule duration_Seconds_nonneg)
  define y where "y = f_add (l_tokens l) (f_mul (Fin e) (l_rate l))"
  have "0 \<le> e * r" using e r by simp
  then consider x where "f_mul (Fin e) (l_rate l) = Fin x" "0 \<le> x" | "f_mul (Fin e) (l_rate l) = PInf"
    by (rule to_float64_nonneg) (simp_all add: r)
  then have "y = PInf \<or> (\<exists>x. y = Fin x \<and> 0 \<le> x \<and> representable x)"
  proof cases
    case (1 x)
    then have y: "y = to_float64 (t + x)" and "0 \<le> t + x" using t by (simp_all add: y_def)
    from this(2) show ?thesis by (rule to_float64_nonneg) (simp_all add: y)
  qed (simp add: y_def t)
  from f_min_fin [OF B(2) this B(3)] obtain t' where
    "f_min (Fin ?B) y = Fin t'" "0 \<le> t'" "t' \<le> ?B" "representable t'" .
  with assms False e B show ?thesis
    by (simp add: Limiter_refill_def bucket_ok_def y_def Let_def)
qed

lemma refill_fields [simp]:
  "l_inflight (Limiter_refill now l) = l_inflight l" "l_burst (Limiter_refill now l) = l_burst l"
  "l_rate (Limiter_refill now l) = l_rate l" "l_last (Limiter_refill now l) = now"
  "l_initialized (Limiter_refill now l) = l_initialized l"
  by (simp_all add: Limiter_refill_def Let_def)

lemma configure_fields [simp]:
  "l_inflight (Limiter_configure now config l) = l_inflight l"
  "l_burst (Limiter_configure now config l) = rl_Burst config"
  "l_initialized (Limiter_configure now config l)"
  by (simp_all add: Limiter_configure_def)

lemma take_token:
  assumes "representable t" and "1 \<le> t" and "t \<le> 2 ^ 63"
  shows "f_sub (Fin t) (Fin 1) = Fin (round64 (t - 1))" and "0 \<le> round64 (t - 1)"
    and "round64 (t - 1) \<le> t"
proof -
  have "to_float64 (t - 1) = Fin (round64 (t - 1))"
    using assms(2,3) by (intro to_float64_small) simp_all
  then show "f_sub (Fin t) (Fin 1) = Fin (round64 (t - 1))" by (simp add: f_sub_def)
  show "0 \<le> round64 (t - 1)" using assms(2) by (simp add: b64.rnd_nonneg)
  show "round64 (t - 1) \<le> t" using assms(1) by (intro b64.rnd_le_repr) simp_all
qed

lemma representable_2_63: "representable 9223372036854775808"
  unfolding representable_def
  by (rule exI [of _ 1], rule exI [of _ 63]) (simp add: power_int_def)

lemma bucket_bound:
  assumes "bucket_ok l" and "l_tokens l = Fin t"
  shows "t \<le> 2 ^ 63"
proof -
  have "(of_int (l_burst l) :: rat) \<le> of_int (2 ^ 63)"
    using assms(1) by (simp only: of_int_le_iff) (simp add: bucket_ok_def)
  then have "round64 (of_int (l_burst l)) \<le> of_int (2 ^ 63)"
    by (rule b64.rnd_le_repr) (simp add: representable_2_63)
  with assms show ?thesis by (auto simp: bucket_ok_def)
qed

lemma locked_cases:
  fixes now config l
  defines "l1 \<equiv> Limiter_refill now (Limiter_configure now config l)"
  obtains (rejected) "Limiter_locked now config l = (Err ErrLimited, l1\<lparr>l_rejected := l_rejected l1 + 1\<rparr>)"
  | (token) l2 where "0 < rl_MaxConcurrency config \<longrightarrow> l_inflight l1 < rl_MaxConcurrency config"
      "f_less (Fin 0) (rl_RequestsPerSecond config)" "\<not> f_less (l_tokens l1) (Fin 1)"
      "l2 = l1\<lparr>l_tokens := f_sub (l_tokens l1) (Fin 1), l_inflight := l_inflight l1 + 1,
         l_accepted := l_accepted l1 + 1\<rparr>"
      "Limiter_locked now config l = (Ok \<lparr>lp_live = True, lp_once = False\<rparr>, l2)"
  | (free) l2 where "0 < rl_MaxConcurrency config \<longrightarrow> l_inflight l1 < rl_MaxConcurrency config"
      "\<not> f_less (Fin 0) (rl_RequestsPerSecond config)"
      "l2 = l1\<lparr>l_inflight := l_inflight l1 + 1, l_accepted := l_accepted l1 + 1\<rparr>"
      "Limiter_locked now config l = (Ok \<lparr>lp_live = True, lp_once = False\<rparr>, l2)"
  by (cases "f_less (Fin 0) (rl_RequestsPerSecond config)"; cases "f_less (l_tokens l1) (Fin 1)";
      cases "0 < rl_MaxConcurrency config \<and> rl_MaxConcurrency config \<le> l_inflight l1")
    (auto simp: Limiter_locked_def Let_def l1_def [symmetric])

lemma locked_ok:
  assumes "bucket_ok l" and "ratelimit_validate config = None" and "rl_Burst config < 2 ^ 63"
    and "Limiter_locked now config l = (res, l')"
  shows "bucket_ok l' \<and> l_inflight l' = l_inflight l + (if is_Ok res then 1 else 0)"
proof -
  define l1 where "l1 = Limiter_refill now (Limiter_configure now config l)"
  have ok: "bucket_ok l1" unfolding l1_def
    using configure_ok [OF assms(1-3)] by (rule refill_tokens)
  have fl: "l_inflight l1 = l_inflight l" by (simp add: l1_def)
  from ok obtain t where t: "l_tokens l1 = Fin t" "representable t"
    by (auto simp: bucket_ok_def)
  show ?thesis
  proof (cases rule: locked_cases [of now config l])
    case rejected
    with assms(4) ok fl show ?thesis by (auto simp: l1_def [symmetric] bucket_ok_def)
  next
    case (token l2)
    then have "1 \<le> t" using t by (simp add: l1_def [symmetric])
    note sub = take_token [OF t(2) this bucket_bound [OF ok t(1)]]
    have "bucket_ok (l1\<lparr>l_tokens := Fin (round64 (t - 1))\<rparr>)"
      using ok sub t b64.repr_rnd by (auto simp: bucket_ok_def)
    then have "bucket_ok l2"
      using token(4) sub(1) t(1) unfolding l1_def [symmetric] bucket_ok_def by simp
    with token(4,5) assms(4) fl show ?thesis by (simp add: l1_def [symmetric])
  next
    case (free l2)
    then have "bucket_ok l2" using ok unfolding l1_def [symmetric] bucket_ok_def by simp
    with free(3,4) assms(4) fl show ?thesis by (simp add: l1_def [symmetric])
  qed
qed

lemma unreleased_append: "unreleased (ps @ [p]) = unreleased ps + (if lp_live p \<and> \<not> lp_once p then 1 else 0)"
  by (simp add: unreleased_def)

lemma limiter_acquire_inv:
  assumes "limiter_inv s" and "rl_Burst config < 2 ^ 63"
  shows "limiter_inv (limiter_step s (LAcquire now config))"
proof -
  let ?l = "ls_limiter s"
  consider (off) "\<not> rl_Enabled config" | (bad) e where "rl_Enabled config" "ratelimit_validate config = Some e"
    | (ok) "rl_Enabled config" "ratelimit_validate config = None" by fastforce
  then show ?thesis
  proof cases
    case ok
    obtain r l' where l': "Limiter_locked now config ?l = (r, l')" by force
    with locked_ok [OF _ ok(2) assms(2) l'] assms(1)
    have "bucket_ok l'" "l_inflight l' = l_inflight ?l + (if is_Ok r then 1 else 0)"
      by (auto simp: limiter_inv_def)
    moreover have "is_Ok r \<longrightarrow> r = Ok \<lparr>lp_live = True, lp_once = False\<rparr>"
      using l' by (auto simp: Limiter_locked_def Let_def split: if_splits)
    ultimately show ?thesis using ok l' assms(1)
      by (cases r) (auto simp: Limiter_Acquire_def limiter_inv_def unreleased_append)
  qed (use assms(1) in \<open>simp_all add: Limiter_Acquire_def limiter_inv_def unreleased_append\<close>)
qed

lemma limiter_release_inv:
  assumes "limiter_inv s"
  shows "limiter_inv (limiter_step s (LRelease i))"
proof (cases "i < length (ls_permits s) \<and> lp_live (ls_permits s ! i) \<and> \<not> lp_once (ls_permits s ! i)")
  case True
  let ?ps = "(ls_permits s)[i := (ls_permits s ! i)\<lparr>lp_once := True\<rparr>]"
  have "unreleased (ls_permits s) = Suc (unreleased ?ps)"
    using True length_filter_update [of i "ls_permits s" "\<lambda>p. lp_live p \<and> \<not> lp_once p"]
    by (simp add: unreleased_def)
  with True assms show ?thesis
    by (simp add: limiterPermit_Release_def limiter_inv_def bucket_ok_def)
next
  case False
  then have "limiter_step s (LRelease i) = s" by (auto simp: limiterPermit_Release_def)
  with assms show ?thesis by simp
qed

interpretation limiter_sys: guarded_machine limiter_step limiter_guard limiter_inv
proof
  fix s op
  assume "limiter_inv s" and "limiter_guard s op"
  then show "limiter_inv (limiter_step s op)"
    by (cases op) (simp_all only: limiter_acquire_inv limiter_release_inv limiter_guard.simps)
qed

lemma lim_init_inv: "limiter_inv lim_init"
  using b64.repr_of_int [of 0]
  by (simp add: limiter_inv_def lim_init_def NewLimiter_def bucket_ok_def unreleased_def)

section \<open>The burst\<close>

text \<open>The limiter has been used at \<open>now\<close> under \<open>config\<close> and has \<open>t\<close> tokens left.\<close>

definition drained :: "go_time \<Rightarrow> RateLimitPolicy \<Rightarrow> rat \<Rightarrow> Limiter \<Rightarrow> bool" where
  "drained now config t l \<longleftrightarrow> l_initialized l \<and> l_rate l = rl_RequestsPerSecond config \<and>
     l_burst l = rl_Burst config \<and> l_last l = now \<and> l_tokens l = Fin t \<and> bucket_ok l"

definition issued :: "LimiterSystem \<Rightarrow> nat" where
  "issued s = length (filter lp_live (ls_permits s))"

fun at_instant :: "go_time \<Rightarrow> RateLimitPolicy \<Rightarrow> LimiterOp \<Rightarrow> bool" where
  "at_instant now config (LAcquire t c) = (t = now \<and> c = config)"
| "at_instant now config (LRelease i) = True"

lemma duration_Seconds_0: "duration_Seconds 0 = Fin 0"
  by (simp add: duration_Seconds_def f_of_int_small to_float64_unit)

lemma refill_same_instant:
  assumes "bucket_ok l" and "l_last l = now" and "l_tokens l = Fin t"
  shows "l_tokens (Limiter_refill now l) = Fin t"
proof -
  let ?B = "round64 (of_int (l_burst l))"
  from assms obtain r where r: "l_rate l = Fin r" and t: "representable t" "0 \<le> t" "t \<le> ?B"
    by (auto simp: bucket_ok_def)
  have B: "f_of_int (l_burst l) = Fin ?B"
    using f_of_int_u63 [of "l_burst l"] assms(1) by (simp add: bucket_ok_def)
  have "t \<le> 2 ^ 63" using assms(1,3) by (rule bucket_bound)
  then have "to_float64 t = Fin (round64 t)" using t(2) by (intro to_float64_small) simp_all
  then have "to_float64 t = Fin t" using t(1) by (simp add: b64.rnd_exact)
  with t r B assms(2,3) show ?thesis
    by (auto simp: Limiter_refill_def duration_Seconds_0 to_float64_unit f_min_def gotime_simps)
qed

lemma acquire_live:
  assumes "bucket_ok l" and "rl_Enabled config" and "ratelimit_validate config = None"
    and "f_less (Fin 0) (rl_RequestsPerSecond config)" and "rl_Burst config \<le> 2 ^ 53"
    and "l1 = Limiter_refill now (Limiter_configure now config l)" and "l_tokens l1 = Fin t"
    and "s' = limiter_step s (LAcquire now config)" and "ls_limiter s = l"
  obtains t' where "drained now config t' (ls_limiter s')"
    and "of_nat (issued s') + t' \<le> of_nat (issued s) + t"
proof -
  have burst: "rl_Burst config < 2 ^ 63" using assms(5) by simp
  have ok1: "bucket_ok l1" unfolding assms(6)
    using configure_ok [OF assms(1,3) burst] by (rule refill_tokens)
  have fields: "l_initialized l1" "l_burst l1 = rl_Burst config" "l_last l1 = now"
    "l_rate l1 = rl_RequestsPerSecond config"
    unfolding assms(6) by (simp_all add: Limiter_configure_def f_eq_def)
  have step: "s' = (case Limiter_locked now config l of (r, l') \<Rightarrow>
      \<lparr>ls_limiter = l', ls_permits = ls_permits s @ (case r of Err _ \<Rightarrow> [] | Ok p \<Rightarrow> [p])\<rparr>)"
    using assms(2,3,8,9) by (simp add: Limiter_Acquire_def split: prod.splits)
  show ?thesis
  proof (cases rule: locked_cases [of now config l])
    case rejected
    with step fields ok1 assms(7) show ?thesis
      by (intro that [of t]) (simp_all add: drained_def issued_def bucket_ok_def assms(6) [symmetric])
  next
    case (token l2)
    note token = token [folded assms(6)]
    have t: "representable t" "t \<le> round64 (of_int (rl_Burst config))" "1 \<le> t"
      using ok1 assms(7) fields token(3) by (auto simp: bucket_ok_def)
    have b: "round64 (of_int (rl_Burst config)) = (of_int (rl_Burst config) :: rat)"
      using assms(5) ok1 fields by (intro b64.rnd_exact representable_of_int) (simp add: bucket_ok_def)
    have "(of_int (rl_Burst config) :: rat) \<le> of_int (2 ^ 53)"
      using assms(5) by (simp only: of_int_le_iff)
    then have t53: "t \<le> 2 ^ 53" using t(2) b by simp
    have sub: "f_sub (Fin t) (Fin 1) = Fin (t - 1)"
      using take_token(1) [OF t(1,3) bucket_bound [OF ok1 assms(7)]] b64.rnd_pred [OF t(1,3) t53]
      by simp
    have "representable (t - 1)" using b64.rnd_pred [OF t(1,3) t53] b64.repr_rnd by metis
    then have "drained now config (t - 1) l2"
      using token(4) sub fields ok1 t(2,3) assms(7) by (simp add: drained_def bucket_ok_def)
    with token(5) step show ?thesis
      by (intro that [of "t - 1"]) (simp_all add: issued_def)
  next
    case (free l2)
    with assms(4) show ?thesis by simp
  qed
qed

lemma release_issued: "issued (limiter_step s (LRelease i)) = issued s"
  by (auto simp: limiterPermit_Release_def issued_def intro!: length_filter_same)

lemma drained_inflight [simp]: "drained now config t (l\<lparr>l_inflight := n\<rparr>) = drained now config t l"
  by (simp add: drained_def bucket_ok_def)

lemma release_drained:
  "drained now config t (ls_limiter s) \<Longrightarrow> drained now config t (ls_limiter (limiter_step s (LRelease i)))"
  by (simp add: limiterPermit_Release_def)

lemma drained_run:
  assumes "rl_Enabled config" and "ratelimit_validate config = None"
    and "f_less (Fin 0) (rl_RequestsPerSecond config)" and "rl_Burst config \<le> 2 ^ 53"
    and "list_all (at_instant now config) ops" and "drained now config t (ls_limiter s)"
  shows "of_nat (issued (run limiter_step s ops)) \<le> of_nat (issued s) + t"
  using assms(5,6)
proof (induction ops arbitrary: s t)
  case Nil
  then show ?case by (auto simp: drained_def bucket_ok_def)
next
  case (Cons op ops)
  show ?case
  proof (cases op)
    case (LRelease i)
    with Cons.IH [OF _ release_drained [OF Cons.prems(2), of i]] Cons.prems(1) show ?thesis
      by (simp add: release_issued del: limiter_step.simps)
  next
    case (LAcquire now' config')
    with Cons.prems(1) have op: "op = LAcquire now config" by simp
    let ?l = "ls_limiter s" and ?l1 = "Limiter_refill now (Limiter_configure now config (ls_limiter s))"
    have ok: "bucket_ok ?l" using Cons.prems(2) by (simp add: drained_def)
    have "Limiter_configure now config ?l = ?l"
      using Cons.prems(2) assms(3) by (auto simp: drained_def Limiter_configure_def f_eq_def)
    then have "l_tokens ?l1 = Fin t"
      using refill_same_instant [OF ok] Cons.prems(2) by (simp add: drained_def)
    from acquire_live [OF ok assms(1-4) refl this refl refl] obtain t' where
      "drained now config t' (ls_limiter (limiter_step s op))"
      "of_nat (issued (limiter_step s op)) + t' \<le> of_nat (issued s) + t"
      unfolding op .
    with Cons.IH [of t' "limiter_step s op"] Cons.prems(1) show ?thesis
      by (simp del: limiter_step.simps)
  qed
qed

lemma instant_run:
  assumes "rl_Enabled config" and "ratelimit_validate config = None"
    and "f_less (Fin 0) (rl_RequestsPerSecond config)" and "rl_Burst config \<le> 2 ^ 53"
    and "list_all (at_instant now config) ops" and "limiter_inv s"
  shows "int (issued (run limiter_step s ops)) \<le> int (issued s) + rl_Burst config"
  using assms(5,6)
proof (induction ops arbitrary: s)
  case Nil
  obtain r where "0 \<le> rl_Burst config" using assms(2) by (rule validate_rate)
  then show ?case by simp
next
  case (Cons op ops)
  show ?case
  proof (cases op)
    case (LRelease i)
    with Cons.IH [of "limiter_step s op"] Cons.prems limiter_release_inv [OF Cons.prems(2), of i]
    show ?thesis by (simp add: release_issued del: limiter_step.simps)
  next
    case (LAcquire now' config')
    with Cons.prems(1) have op: "op = LAcquire now config" by simp
    let ?l1 = "Limiter_refill now (Limiter_configure now config (ls_limiter s))"
    have ok: "bucket_ok (ls_limiter s)" using Cons.prems(2) by (simp add: limiter_inv_def)
    have burst: "rl_Burst config < 2 ^ 63" using assms(4) by simp
    have "bucket_ok ?l1" using configure_ok [OF ok assms(2) burst] by (rule refill_tokens)
    then obtain t where t: "l_tokens ?l1 = Fin t" "t \<le> round64 (of_int (rl_Burst config))"
      "0 \<le> rl_Burst config" by (auto simp: bucket_ok_def)
    moreover have "round64 (of_int (rl_Burst config)) = (of_int (rl_Burst config) :: rat)"
      using assms(4) t(3) by (intro b64.rnd_exact representable_of_int) simp
    ultimately have tb: "t \<le> of_int (rl_Burst config)" by simp
    from acquire_live [OF ok assms(1-4) refl t(1) refl refl] obtain t' where
      "drained now config t' (ls_limiter (limiter_step s op))"
      "of_nat (issued (limiter_step s op)) + t' \<le> of_nat (issued s) + t" unfolding op .
    with drained_run [OF assms(1-4), of now ops t' "limiter_step s op"] Cons.prems(1) tb
    have "(of_nat (issued (run limiter_step s (op # ops))) :: rat) \<le>
        of_nat (issued s) + of_int (rl_Burst config)"
      by (simp del: limiter_step.simps)
    then have "(of_int (int (issued (run limiter_step s (op # ops)))) :: rat) \<le>
        of_int (int (issued s) + rl_Burst config)" by simp
    then show ?thesis by (simp only: of_int_le_iff)
  qed
qed

section \<open>The bucket of the local fallback\<close>

lemma locked_fresh_config:
  assumes "bucket_ok l" and "ratelimit_validate config = None" and "rl_Burst config < 2 ^ 63"
    and "f_less (Fin 0) (rl_RequestsPerSecond config)"
    and "0 < rl_MaxConcurrency config \<longrightarrow> l_inflight l < rl_MaxConcurrency config"
    and "l_burst l = 0"
  shows "is_Ok (fst (Limiter_locked now config l))"
proof -
  obtain r where r: "rl_RequestsPerSecond config = Fin r" "0 < rl_Burst config"
    using assms(2,4) by (elim validate_rate) auto
  then have l1: "Limiter_configure now config l = l\<lparr>l_initialized := True, l_rate := Fin r,
      l_burst := rl_Burst config, l_last := now, l_tokens := f_of_int (rl_Burst config)\<rparr>"
    using assms(6) by (simp add: Limiter_configure_def)
  have ok: "bucket_ok (Limiter_configure now config l)" using assms(1-3) by (rule configure_ok)
  have B: "f_of_int (rl_Burst config) = Fin (round64 (of_int (rl_Burst config)))"
    using f_of_int_u63 [of "rl_Burst config"] r assms(3) by simp
  then have "l_tokens (Limiter_refill now (Limiter_configure now config l)) =
      Fin (round64 (of_int (rl_Burst config)))"
    by (intro refill_same_instant [OF ok]) (simp_all add: l1)
  moreover have "1 \<le> round64 (of_int (rl_Burst config) :: rat)"
    using r b64.rnd_ge_repr [of 1 "of_int (rl_Burst config)"] b64.repr_of_int [of 1] by simp
  ultimately show ?thesis using assms(5)
    by (auto simp: Limiter_locked_def Let_def)
qed

definition pool_limiter :: "string \<Rightarrow> LimiterPool \<Rightarrow> Limiter" where
  "pool_limiter key pool = fst (LimiterPool_Get key pool)"





lemma pool_limiter_put [simp]: "pool_limiter key (gm_put (TrimSpace key) l pool) = l"
  by (simp add: pool_limiter_def LimiterPool_Get_def gm_get_put)


lemma record_local [simp]:
  "dl_local (recordAccepted l) = dl_local l" "dl_local (recordRejected l) = dl_local l"
  "dl_local (recordBackendError e l) = dl_local l" "dl_local (recordFailOpen l) = dl_local l"
  "dl_local (recordLocalFallback l) = dl_local l" "dl_mode (recordAccepted l) = dl_mode l"
  "dl_mode (recordRejected l) = dl_mode l" "dl_mode (recordBackendError e l) = dl_mode l"
  "dl_mode (recordLocalFallback l) = dl_mode l"
  by (simp_all add: recordAccepted_def recordRejected_def recordBackendError_def
      recordFailOpen_def recordLocalFallback_def)




lemma bucket_ok_inflight [simp]: "bucket_ok (l\<lparr>l_inflight := n\<rparr>) = bucket_ok l"
  by (simp add: bucket_ok_def)



section \<open>A concrete limiter\<close>

definition demo_rate :: RateLimitPolicy where
  "demo_rate = \<lparr>rl_Enabled = True, rl_RequestsPerSecond = Fin 1, rl_Burst = 2,
     rl_MaxConcurrency = 5\<rparr>"



lemma demo_rate_facts:
  "rl_Enabled demo_rate" "rl_RequestsPerSecond demo_rate = Fin 1" "rl_Burst demo_rate = 2"
  "rl_MaxConcurrency demo_rate = 5" "ratelimit_validate demo_rate = None"
  by (simp_all add: demo_rate_def ratelimit_validate_def f_IsNaN_def f_IsInf_def)


section \<open>Properties\<close>

text \<open>
  C32. The token bucket never leaves its range: after any sequence of acquisitions, with any
  configurations and at any times, and releases, the token count is a finite number between
  zero and the burst as a \<open>float64\<close>; the in-flight counter is the number of unreleased permits.
\<close>

theorem limiter_bucket_range:
  assumes "run_ok limiter_step limiter_guard lim_init ops" and "s = run limiter_step lim_init ops"
  shows "\<exists>t. l_tokens (ls_limiter s) = Fin t \<and> 0 \<le> t \<and> f_le (Fin t) (f_of_int (l_burst (ls_limiter s))) \<and>
    l_inflight (ls_limiter s) = int (unreleased (ls_permits s))"
proof -
  have inv: "limiter_inv s" using limiter_sys.run_inv [OF lim_init_inv assms(1)] assms(2) by simp
  then show ?thesis
    using f_of_int_u63 [of "l_burst (ls_limiter s)"] by (auto simp: limiter_inv_def bucket_ok_def)
qed

theorem limiter_bucket_range_witness:
  "\<exists>t. l_tokens (ls_limiter (run limiter_step lim_init [LAcquire 5 demo_rate, LRelease 0])) = Fin t \<and>
     0 \<le> t"
  using limiter_bucket_range [OF _ refl, of "[LAcquire 5 demo_rate, LRelease 0]"]
  by (auto simp: demo_rate_facts simp del: limiter_step.simps)

text \<open>
  C34. Concurrency: a call is admitted under a positive \<open>MaxConcurrency\<close> only while fewer than
  that many permits are unreleased.
\<close>

theorem limiter_concurrency:
  assumes "run_ok limiter_step limiter_guard lim_init ops" and "s = run limiter_step lim_init ops"
    and "rl_Enabled config" and "0 < rl_MaxConcurrency config"
    and "Limiter_Acquire now config (Some (ls_limiter s)) = (Ok p, Some l)"
  shows "int (unreleased (ls_permits s @ [p])) \<le> rl_MaxConcurrency config"
proof -
  have inv: "limiter_inv s" using limiter_sys.run_inv [OF lim_init_inv assms(1)] assms(2) by simp
  have "l_inflight (ls_limiter s) < rl_MaxConcurrency config" "p = \<lparr>lp_live = True, lp_once = False\<rparr>"
    using assms(3-5)
    by (auto simp: Limiter_Acquire_def Limiter_locked_def Let_def split: option.splits if_splits)
  with inv show ?thesis by (simp add: limiter_inv_def unreleased_append)
qed

theorem limiter_concurrency_witness:
  "\<exists>p l. Limiter_Acquire 7 demo_rate (Some NewLimiter) = (Ok p, Some l) \<and> int (unreleased [p]) \<le> 5"
proof -
  obtain r l where rl: "Limiter_locked 7 demo_rate NewLimiter = (r, l)" by force
  have "is_Ok (fst (Limiter_locked 7 demo_rate NewLimiter))"
    using lim_init_inv
    by (intro locked_fresh_config)
      (simp_all add: demo_rate_facts limiter_inv_def lim_init_def NewLimiter_def)
  with rl obtain p where "Limiter_Acquire 7 demo_rate (Some NewLimiter) = (Ok p, Some l)"
    by (auto simp: Limiter_Acquire_def demo_rate_facts is_Ok_iff)
  with limiter_concurrency [of "[]" lim_init demo_rate 7 p l] show ?thesis
    by (auto simp: demo_rate_facts lim_init_def)
qed

text \<open>
  C33. The burst: at one instant, a limiter in any reachable state admits at most \<open>Burst\<close> calls,
  however acquisitions and releases interleave (for bursts up to \<open>2 ^ 53\<close>, where the float
  count is exact).
\<close>

theorem limiter_burst:
  assumes "run_ok limiter_step limiter_guard lim_init ops" and "s = run limiter_step lim_init ops"
    and "rl_Enabled config" and "ratelimit_validate config = None"
    and "f_less (Fin 0) (rl_RequestsPerSecond config)" and "rl_Burst config \<le> 2 ^ 53"
    and "list_all (at_instant now config) calls"
  shows "int (issued (run limiter_step s calls)) \<le> int (issued s) + rl_Burst config"
proof -
  have "limiter_inv s" using limiter_sys.run_inv [OF lim_init_inv assms(1)] assms(2) by simp
  then show ?thesis by (rule instant_run [OF assms(3-7)])
qed

theorem limiter_burst_witness:
  "issued (run limiter_step lim_init [LAcquire 9 demo_rate, LAcquire 9 demo_rate, LRelease 0,
     LAcquire 9 demo_rate]) \<le> 2"
  using limiter_burst [of "[]" lim_init demo_rate 9
      "[LAcquire 9 demo_rate, LAcquire 9 demo_rate, LRelease 0, LAcquire 9 demo_rate]"]
  by (simp add: demo_rate_facts issued_def lim_init_def del: limiter_step.simps)



end
