(* ===== verification/LoadShed.thy ===== *)
theory LoadShed
  imports Context
begin

text \<open>
  Load shedding (\<open>governance/loadshed\<close>): the hard concurrency cap with the CPU-gated adaptive
  limit (\<open>shedder.go\<close>), its pool and middleware, and the sampler that turns cumulative
  runtime CPU readings into a busy ratio (\<open>cpu.go\<close>).
\<close>

section \<open>The shedder\<close>

abbreviation ErrOverloaded :: goerr where
  "ErrOverloaded \<equiv> errors_New 503 ''OVERLOADED'' ''instance is overloaded''"

abbreviation ErrShedOption :: goerr where
  "ErrShedOption \<equiv> Sentinel ''loadshed: invalid option''"

definition sampleWindow :: duration where "sampleWindow = second"
definition bbrGain :: float64 where "bbrGain = Fin 2"

record Shedder =
  sh_initialized :: bool
  sh_windowStart :: go_time
  sh_completed :: u64
  sh_minLatency :: duration
  sh_adaptiveLimit :: int
  sh_inflight :: int
  sh_accepted :: u64
  sh_rejected :: u64

record shedPermit =
  sp_live :: bool
  sp_start :: go_time
  sp_once :: bool

definition NewShedder :: Shedder where
  "NewShedder = \<lparr>sh_initialized = False, sh_windowStart = 0, sh_completed = 0, sh_minLatency = 0,
     sh_adaptiveLimit = 0, sh_inflight = 0, sh_accepted = 0, sh_rejected = 0\<rparr>"

definition loadshed_validate :: "LoadSheddingPolicy \<Rightarrow> goerr option" where
  "loadshed_validate config =
     (if ls_MaxConcurrency config < 0 \<or> f_less (ls_CPUThreshold config) (Fin 0) \<or>
         f_less (Fin 1) (ls_CPUThreshold config) \<or> f_IsNaN (ls_CPUThreshold config) \<or>
         f_IsInf (ls_CPUThreshold config) \<or>
         ls_MaxConcurrency config \<le> 0 \<and> f_le (ls_CPUThreshold config) (Fin 0)
      then Some (Wrapf ''resolved load-shed policy is invalid'' [ErrInvalidPolicy])
      else None)"

text \<open>
  Conversion of a \<open>float64\<close> to \<open>int\<close>: Go leaves it open outside the range of the type, so
  that part is the argument \<open>conv\<close>.
\<close>

definition f_to_int :: "(float64 \<Rightarrow> int) \<Rightarrow> float64 \<Rightarrow> int" where
  "f_to_int conv x = (case x of
     Fin a \<Rightarrow> if - (2 ^ 63) \<le> a \<and> a < 2 ^ 63 then (if 0 \<le> a then \<lfloor>a\<rfloor> else \<lceil>a\<rceil>) else conv x
   | _ \<Rightarrow> conv x)"

definition bbr_estimate :: "(float64 \<Rightarrow> int) \<Rightarrow> LoadSheddingPolicy \<Rightarrow> u64 \<Rightarrow> duration \<Rightarrow> duration \<Rightarrow> int" where
  "bbr_estimate conv config completed elapsed minLatency =
     (let throughput = f_div (f_of_int (uint completed)) (duration_Seconds elapsed);
          estimate = f_to_int conv (f_ceil
            (f_mul (f_mul throughput (duration_Seconds minLatency)) bbrGain));
          estimate1 = (if estimate < 1 then 1 else estimate) in
      if ls_MaxConcurrency config > 0 \<and> estimate1 > ls_MaxConcurrency config
      then ls_MaxConcurrency config else estimate1)"

definition Shedder_rollWindow ::
  "(float64 \<Rightarrow> int) \<Rightarrow> go_time \<Rightarrow> LoadSheddingPolicy \<Rightarrow> Shedder \<Rightarrow> Shedder" where
  "Shedder_rollWindow conv now config s =
     (if \<not> sh_initialized s then
        s\<lparr>sh_initialized := True, sh_windowStart := now,
          sh_adaptiveLimit := (if ls_MaxConcurrency config \<le> 0 then 1
            else ls_MaxConcurrency config)\<rparr>
      else (let elapsed = time_Sub now (sh_windowStart s) in
        if elapsed < sampleWindow \<and> elapsed \<ge> 0 then s
        else (let s1 = (if sh_completed s > 0 \<and> sh_minLatency s > 0 \<and> elapsed > 0
                then s\<lparr>sh_adaptiveLimit :=
                  bbr_estimate conv config (sh_completed s) elapsed (sh_minLatency s)\<rparr>
                else s) in
          s1\<lparr>sh_windowStart := now, sh_completed := 0, sh_minLatency := 0\<rparr>)))"

definition clamp_usage :: "float64 \<Rightarrow> float64" where
  "clamp_usage usage =
     f_max (Fin 0) (f_min (Fin 1) (if f_IsNaN usage \<or> f_IsInf usage then Fin 1 else usage))"

definition Shedder_locked ::
  "(float64 \<Rightarrow> int) \<Rightarrow> go_time \<Rightarrow> float64 \<Rightarrow> LoadSheddingPolicy \<Rightarrow> Shedder \<Rightarrow>
     (goerr + shedPermit) \<times> Shedder" where
  "Shedder_locked conv now usage config s =
     (let s1 = Shedder_rollWindow conv now config s;
          hardLimited = ls_MaxConcurrency config > 0 \<and> sh_inflight s1 \<ge> ls_MaxConcurrency config;
          adaptiveLimited = f_less (Fin 0) (ls_CPUThreshold config) \<and>
            f_le (ls_CPUThreshold config) usage \<and> sh_inflight s1 \<ge> sh_adaptiveLimit s1 in
      if hardLimited \<or> adaptiveLimited
      then (Err ErrOverloaded, s1\<lparr>sh_rejected := sh_rejected s1 + 1\<rparr>)
      else (Ok \<lparr>sp_live = True, sp_start = now, sp_once = False\<rparr>,
        s1\<lparr>sh_inflight := sh_inflight s1 + 1, sh_accepted := sh_accepted s1 + 1\<rparr>))"

text \<open>\<open>usage\<close> is the reading of the CPU provider.\<close>

definition Shedder_Acquire ::
  "(float64 \<Rightarrow> int) \<Rightarrow> go_time \<Rightarrow> float64 \<Rightarrow> LoadSheddingPolicy \<Rightarrow> Shedder option \<Rightarrow>
     (goerr + shedPermit) \<times> Shedder option" where
  "Shedder_Acquire conv now usage config subj =
     (case subj of
        None \<Rightarrow> (Err (Wrapf ''shedder is nil'' [ErrShedOption]), None)
      | Some s \<Rightarrow>
        if \<not> ls_Enabled config
        then (Ok \<lparr>sp_live = False, sp_start = 0, sp_once = False\<rparr>, Some s)
        else (case loadshed_validate config of
          Some e \<Rightarrow> (Err e, Some s)
        | None \<Rightarrow> map_prod id Some (Shedder_locked conv now (clamp_usage usage) config s)))"

definition shedPermit_Release :: "go_time \<Rightarrow> shedPermit \<Rightarrow> Shedder \<Rightarrow> shedPermit \<times> Shedder" where
  "shedPermit_Release now p s =
     (if \<not> sp_live p \<or> sp_once p then (p, s)
      else (let elapsed = time_Sub now (sp_start p);
                latency = (if elapsed \<le> 0 then nanosecond else elapsed);
                s1 = (if sh_inflight s > 0 then s\<lparr>sh_inflight := sh_inflight s - 1\<rparr> else s);
                s2 = s1\<lparr>sh_completed := sh_completed s1 + 1\<rparr> in
        (p\<lparr>sp_once := True\<rparr>,
         if sh_minLatency s2 = 0 \<or> latency < sh_minLatency s2
         then s2\<lparr>sh_minLatency := latency\<rparr> else s2)))"

record ShedderDescription =
  hd_Key :: string
  hd_Inflight :: int
  hd_AdaptiveLimit :: int
  hd_CPUUsage :: float64
  hd_Accepted :: u64
  hd_Rejected :: u64
  hd_MinLatency :: duration

definition Shedder_Describe :: "float64 \<Rightarrow> Shedder option \<Rightarrow> ShedderDescription" where
  "Shedder_Describe usage subj = (case subj of
     None \<Rightarrow> \<lparr>hd_Key = [], hd_Inflight = 0, hd_AdaptiveLimit = 0, hd_CPUUsage = Fin 0,
       hd_Accepted = 0, hd_Rejected = 0, hd_MinLatency = 0\<rparr>
   | Some s \<Rightarrow> \<lparr>hd_Key = [], hd_Inflight = sh_inflight s, hd_AdaptiveLimit = sh_adaptiveLimit s,
       hd_CPUUsage = usage, hd_Accepted = sh_accepted s, hd_Rejected = sh_rejected s,
       hd_MinLatency = sh_minLatency s\<rparr>)"

type_synonym ShedderPool = "(string, Shedder) gomap"

definition ShedderPool_Get :: "string \<Rightarrow> ShedderPool \<Rightarrow> Shedder \<times> ShedderPool" where
  "ShedderPool_Get key pool = (case gm_get pool (TrimSpace key) of
     Some s \<Rightarrow> (s, pool)
   | None \<Rightarrow> (NewShedder, gm_put (TrimSpace key) NewShedder pool))"

definition ShedderPool_Describe :: "float64 \<Rightarrow> ShedderPool option \<Rightarrow> ShedderDescription list" where
  "ShedderPool_Describe usage pool = (case pool of None \<Rightarrow> []
   | Some m \<Rightarrow> map (\<lambda>key. (Shedder_Describe usage (gm_get m key))\<lparr>hd_Key := key\<rparr>)
       (sort (gm_keys m)))"

definition ShedderPool_Release :: "go_time \<Rightarrow> string \<Rightarrow> shedPermit \<Rightarrow> ShedderPool \<Rightarrow> ShedderPool" where
  "ShedderPool_Release now key p pool = (case gm_get pool (TrimSpace key) of None \<Rightarrow> pool
     | Some s \<Rightarrow> gm_put (TrimSpace key) (snd (shedPermit_Release now p s)) pool)"

definition loadshed_middleware ::
  "(float64 \<Rightarrow> int) \<Rightarrow> (Operation \<Rightarrow> Policy) \<Rightarrow> float64 \<Rightarrow> go_time \<Rightarrow> go_time \<Rightarrow>
     (ShedderPool, 'q, 'r) Handler option \<Rightarrow> (ShedderPool, 'q, 'r) Handler" where
  "loadshed_middleware conv resolver usage t0 t1 next ctx request pool =
     (case next of None \<Rightarrow> fail (Wrapf ''next handler is nil'' [ErrShedOption]) pool
      | Some nxt \<Rightarrow> (case ctx of None \<Rightarrow> fail (Wrapf ''context is nil'' [ErrShedOption]) pool
      | Some c \<Rightarrow> (case operation_FromContext ctx of
          None \<Rightarrow> fail (Wrapf ''operation is missing'' [ErrShedOption]) pool
        | Some target \<Rightarrow>
          (let config = pol_LoadShedding (policy_Resolve ctx resolver target);
               key = PolicyKey target in
           if \<not> ls_Enabled config then nxt ctx request pool
           else (let (s, pool1) = ShedderPool_Get key pool in
             case Shedder_Acquire conv t0 usage config (Some s) of
               (Err e, s') \<Rightarrow> fail e (gm_put (TrimSpace key) (the s') pool1)
             | (Ok permit, s') \<Rightarrow>
               (case nxt ctx request (gm_put (TrimSpace key) (the s') pool1) of
                  (r, pool2) \<Rightarrow> (r, ShedderPool_Release t1 key permit pool2)))))))"

section \<open>The CPU sampler\<close>

datatype CPUState = CPUStateNew | CPUStateRunning | CPUStateStopping | CPUStateStopped

record RuntimeCPU =
  rc_state :: CPUState
  rc_usage :: float64
  rc_samples :: u64
  rc_failures :: u64
  rc_failed :: bool
  rc_initialized :: bool
  rc_total :: float64
  rc_idle :: float64

definition NewRuntimeCPU :: RuntimeCPU where
  "NewRuntimeCPU = \<lparr>rc_state = CPUStateNew, rc_usage = Fin 0, rc_samples = 0, rc_failures = 0,
     rc_failed = False, rc_initialized = False, rc_total = Fin 0, rc_idle = Fin 0\<rparr>"

text \<open>\<open>readRuntimeCPU\<close> on the two runtime metrics, None when one is not a \<open>float64\<close>.\<close>

definition readRuntimeCPU :: "float64 option \<Rightarrow> float64 option \<Rightarrow> goerr + (float64 \<times> float64)" where
  "readRuntimeCPU tot idle = (case (tot, idle) of
     (Some t, Some i) \<Rightarrow>
       if f_less t (Fin 0) \<or> f_less i (Fin 0) \<or> f_IsNaN t \<or> f_IsInf t \<or> f_IsNaN i \<or> f_IsInf i
       then Err (Sentinel ''loadshed: runtime cpu metrics unsupported'') else Ok (t, i)
   | _ \<Rightarrow> Err (Sentinel ''loadshed: runtime cpu metrics unsupported''))"

definition cpu_failure :: "RuntimeCPU \<Rightarrow> RuntimeCPU" where
  "cpu_failure r = r\<lparr>rc_failures := rc_failures r + 1, rc_failed := True\<rparr>"

definition RuntimeCPU_Start ::
  "Context option \<Rightarrow> goerr + (float64 \<times> float64) \<Rightarrow> RuntimeCPU \<Rightarrow> goerr option \<times> RuntimeCPU" where
  "RuntimeCPU_Start ctx reading r =
     (case ctx of None \<Rightarrow> (Some (Wrapf ''context is nil'' [ErrShedOption]), r)
      | Some c \<Rightarrow> (case ctx_cause c of Some cause \<Rightarrow> (Some cause, r)
      | None \<Rightarrow>
        if rc_state r \<noteq> CPUStateNew
        then (Some (Sentinel ''loadshed: runtime cpu already started''), r)
        else (case reading of
          Err e \<Rightarrow> (Some e, cpu_failure r)
        | Ok (tot, idl) \<Rightarrow> (None, r\<lparr>rc_failed := False, rc_total := tot, rc_idle := idl,
            rc_initialized := True, rc_state := CPUStateRunning\<rparr>))))"

definition RuntimeCPU_sample :: "goerr + (float64 \<times> float64) \<Rightarrow> RuntimeCPU \<Rightarrow> RuntimeCPU" where
  "RuntimeCPU_sample reading r =
     (case reading of
        Err e \<Rightarrow> cpu_failure r
      | Ok (tot, idl) \<Rightarrow>
        if \<not> rc_initialized r
        then r\<lparr>rc_total := tot, rc_idle := idl, rc_initialized := True\<rparr>
        else (let totalDelta = f_sub tot (rc_total r); idleDelta = f_sub idl (rc_idle r);
                  r1 = r\<lparr>rc_total := tot, rc_idle := idl\<rparr> in
          if f_le totalDelta (Fin 0) \<or> f_IsNaN totalDelta \<or> f_IsInf totalDelta
          then cpu_failure r1
          else (let usage = f_div (f_sub totalDelta idleDelta) totalDelta in
            if f_IsNaN usage \<or> f_IsInf usage then cpu_failure r1
            else r1\<lparr>rc_usage := f_max (Fin 0) (f_min (Fin 1) usage),
              rc_samples := rc_samples r1 + 1, rc_failed := False\<rparr>)))"

text \<open>\<open>Stop\<close> asks the goroutine to exit; \<open>RuntimeCPU_exit\<close> is its last step.\<close>

definition RuntimeCPU_Stop :: "RuntimeCPU \<Rightarrow> RuntimeCPU" where
  "RuntimeCPU_Stop r = (if rc_state r = CPUStateRunning then r\<lparr>rc_state := CPUStateStopping\<rparr> else r)"

definition RuntimeCPU_exit :: "RuntimeCPU \<Rightarrow> RuntimeCPU" where
  "RuntimeCPU_exit r = r\<lparr>rc_state := CPUStateStopped\<rparr>"

section \<open>A shedder and its permits\<close>

record ShedderSystem =
  hs_shedder :: Shedder
  hs_permits :: "shedPermit list"

datatype ShedderOp =
  HAcquire go_time float64 LoadSheddingPolicy
| HRelease nat go_time

definition shed_init :: ShedderSystem where
  "shed_init = \<lparr>hs_shedder = NewShedder, hs_permits = []\<rparr>"

fun shedder_step :: "(float64 \<Rightarrow> int) \<Rightarrow> ShedderSystem \<Rightarrow> ShedderOp \<Rightarrow> ShedderSystem" where
  "shedder_step conv s (HAcquire now usage config) =
     (case Shedder_Acquire conv now usage config (Some (hs_shedder s)) of
        (r, b) \<Rightarrow> \<lparr>hs_shedder = the b,
          hs_permits = hs_permits s @ (case r of Err _ \<Rightarrow> [] | Ok p \<Rightarrow> [p])\<rparr>)"
| "shedder_step conv s (HRelease i now) =
     (if i < length (hs_permits s) then
        (case shedPermit_Release now (hs_permits s ! i) (hs_shedder s) of
           (p, b) \<Rightarrow> \<lparr>hs_shedder = b, hs_permits = (hs_permits s)[i := p]\<rparr>)
      else s)"

definition running_calls :: "shedPermit list \<Rightarrow> nat" where
  "running_calls ps = length (filter (\<lambda>p. sp_live p \<and> \<not> sp_once p) ps)"

definition shedder_inv :: "ShedderSystem \<Rightarrow> bool" where
  "shedder_inv s \<longleftrightarrow> sh_inflight (hs_shedder s) = int (running_calls (hs_permits s)) \<and>
     0 \<le> sh_minLatency (hs_shedder s) \<and>
     (sh_initialized (hs_shedder s) \<longrightarrow> 1 \<le> sh_adaptiveLimit (hs_shedder s))"

lemma running_calls_append:
  "running_calls (ps @ [p]) = running_calls ps + (if sp_live p \<and> \<not> sp_once p then 1 else 0)"
  by (simp add: running_calls_def)

lemma bbr_estimate_bounds:
  "1 \<le> bbr_estimate conv config completed elapsed minLatency"
  "0 < ls_MaxConcurrency config \<Longrightarrow>
     bbr_estimate conv config completed elapsed minLatency \<le> ls_MaxConcurrency config"
  by (simp_all add: bbr_estimate_def Let_def)

lemma rollWindow_shedder:
  assumes "s' = Shedder_rollWindow conv now config s"
    and "sh_initialized s \<longrightarrow> 1 \<le> sh_adaptiveLimit s" and "0 \<le> sh_minLatency s"
  shows "sh_inflight s' = sh_inflight s \<and> sh_initialized s' \<and> 1 \<le> sh_adaptiveLimit s' \<and>
    0 \<le> sh_minLatency s'"
  using assms by (auto simp: Shedder_rollWindow_def Let_def bbr_estimate_bounds)

lemma acquire_shedder:
  assumes "shedder_inv s" and "ls_Enabled config" and "loadshed_validate config = None"
    and "s1 = Shedder_rollWindow conv now config (hs_shedder s)"
  shows "1 \<le> sh_adaptiveLimit s1" and "sh_inflight s1 = int (running_calls (hs_permits s))"
    and "sh_initialized s1" and "0 \<le> sh_minLatency s1"
    and "Shedder_Acquire conv now usage config (Some (hs_shedder s)) =
      (if 0 < ls_MaxConcurrency config \<and> ls_MaxConcurrency config \<le> sh_inflight s1 \<or>
          f_less (Fin 0) (ls_CPUThreshold config) \<and>
          f_le (ls_CPUThreshold config) (clamp_usage usage) \<and> sh_adaptiveLimit s1 \<le> sh_inflight s1
       then (Err ErrOverloaded, Some (s1\<lparr>sh_rejected := sh_rejected s1 + 1\<rparr>))
       else (Ok \<lparr>sp_live = True, sp_start = now, sp_once = False\<rparr>,
         Some (s1\<lparr>sh_inflight := sh_inflight s1 + 1, sh_accepted := sh_accepted s1 + 1\<rparr>)))"
  using assms rollWindow_shedder [OF assms(4)]
  by (simp_all add: shedder_inv_def Shedder_Acquire_def Shedder_locked_def Let_def)

lemma shedder_acquire_inv:
  assumes "shedder_inv s"
  shows "shedder_inv (shedder_step conv s (HAcquire now usage config))"
proof (cases "ls_Enabled config \<and> loadshed_validate config = None")
  case True
  then have "ls_Enabled config" "loadshed_validate config = None" by auto
  note acq = acquire_shedder [OF assms this refl]
  show ?thesis unfolding shedder_step.simps acq(5)
    using acq(1-4) by (simp add: shedder_inv_def running_calls_append)
next
  case False
  with assms show ?thesis
    by (auto simp: Shedder_Acquire_def shedder_inv_def running_calls_append split: option.splits)
qed

lemma shedder_release_inv:
  assumes "shedder_inv s"
  shows "shedder_inv (shedder_step conv s (HRelease i now))"
proof (cases "i < length (hs_permits s) \<and> sp_live (hs_permits s ! i) \<and> \<not> sp_once (hs_permits s ! i)")
  case True
  let ?ps = "(hs_permits s)[i := (hs_permits s ! i)\<lparr>sp_once := True\<rparr>]"
  have "running_calls (hs_permits s) = Suc (running_calls ?ps)"
    using True length_filter_update [of i "hs_permits s" "\<lambda>p. sp_live p \<and> \<not> sp_once p"]
    by (simp add: running_calls_def)
  with True assms show ?thesis
    by (simp add: shedPermit_Release_def shedder_inv_def Let_def nanosecond_def)
next
  case False
  then have "shedder_step conv s (HRelease i now) = s" by (auto simp: shedPermit_Release_def)
  with assms show ?thesis by simp
qed

interpretation shedder_sys: guarded_machine "shedder_step conv" "\<lambda>_ _. True" shedder_inv
  for conv
proof
  fix s op
  assume "shedder_inv s"
  then show "shedder_inv (shedder_step conv s op)"
    by (cases op) (simp_all only: shedder_acquire_inv shedder_release_inv)
qed

lemma shed_init_inv: "shedder_inv shed_init"
  by (simp add: shedder_inv_def shed_init_def NewShedder_def running_calls_def)

definition demo_shed :: LoadSheddingPolicy where
  "demo_shed = \<lparr>ls_Enabled = True, ls_MaxConcurrency = 2, ls_CPUThreshold = Fin (1 / 2)\<rparr>"

lemma demo_shed_facts:
  "ls_Enabled demo_shed" "loadshed_validate demo_shed = None" "ls_MaxConcurrency demo_shed = 2"
  "ls_CPUThreshold demo_shed = Fin (1 / 2)"
  by (simp_all add: demo_shed_def loadshed_validate_def f_IsNaN_def f_IsInf_def)

section \<open>Properties\<close>

text \<open>
  C36. Admission respects both limits in every reachable state: an admitted call keeps the number
  of running calls within \<open>MaxConcurrency\<close> when it is positive and, while the CPU is at its
  threshold or above, within the adaptive limit; whatever the conversion of an out-of-range
  estimate yields, the adaptive limit is at least one.
\<close>

theorem shedder_limits:
  assumes "s = run (shedder_step conv) shed_init ops" and "ls_Enabled config"
    and "Shedder_Acquire conv now usage config (Some (hs_shedder s)) = (Ok p, Some sh)"
  shows "1 \<le> sh_adaptiveLimit sh \<and>
    (0 < ls_MaxConcurrency config \<longrightarrow>
      int (running_calls (hs_permits s @ [p])) \<le> ls_MaxConcurrency config) \<and>
    (f_less (Fin 0) (ls_CPUThreshold config) \<and> f_le (ls_CPUThreshold config) (clamp_usage usage) \<longrightarrow>
      int (running_calls (hs_permits s @ [p])) \<le> sh_adaptiveLimit sh)"
proof -
  have inv: "shedder_inv s" using shedder_sys.run_inv [OF shed_init_inv] assms(1) by simp
  have valid: "loadshed_validate config = None"
    using assms(2,3) by (auto simp: Shedder_Acquire_def split: option.splits)
  note acq = acquire_shedder [OF inv assms(2) valid refl]
  show ?thesis using assms(3) acq(1,2) unfolding acq(5)
    by (auto simp: running_calls_append split: if_splits)
qed

theorem shedder_limits_witness:
  "\<exists>p sh. Shedder_Acquire (\<lambda>_. 0) 5 (Fin 1) demo_shed (Some (hs_shedder shed_init)) = (Ok p, Some sh) \<and>
     int (running_calls [p]) \<le> sh_adaptiveLimit sh"
proof -
  obtain p sh where "Shedder_Acquire (\<lambda>_. 0) 5 (Fin 1) demo_shed (Some (hs_shedder shed_init)) =
      (Ok p, Some sh)"
    using acquire_shedder(5) [OF shed_init_inv demo_shed_facts(1,2) refl, of "\<lambda>_. 0" 5 "Fin 1"]
    by (simp add: shed_init_def NewShedder_def Shedder_rollWindow_def demo_shed_facts)
  with shedder_limits [of shed_init "\<lambda>_. 0" "[]" demo_shed 5 "Fin 1" p sh] demo_shed_facts
  show ?thesis by (simp add: shed_init_def clamp_usage_def f_max_def f_min_def f_IsNaN_def f_IsInf_def)
qed

text \<open>
  C37. An idle instance is never shed: with no call running, every valid policy admits the next
  call, whatever the CPU reading, its NaN and infinite values included.
\<close>

theorem shedder_admits_idle:
  assumes "s = run (shedder_step conv) shed_init ops" and "ls_Enabled config"
    and "loadshed_validate config = None" and "running_calls (hs_permits s) = 0"
  shows "is_Ok (fst (Shedder_Acquire conv now usage config (Some (hs_shedder s))))"
proof -
  have inv: "shedder_inv s" using shedder_sys.run_inv [OF shed_init_inv] assms(1) by simp
  note acq = acquire_shedder [OF inv assms(2,3) refl]
  show ?thesis unfolding acq(5)
    using acq(1) [of conv now] acq(2) [of conv now] assms(4) by (auto simp del: One_nat_def)
qed

theorem shedder_admits_idle_witness:
  "is_Ok (fst (Shedder_Acquire (\<lambda>_. 0) 5 NaN demo_shed (Some (hs_shedder shed_init))))"
  using shedder_admits_idle [of shed_init "\<lambda>_. 0" "[]" demo_shed 5 NaN] demo_shed_facts
  by (simp add: shed_init_def running_calls_def)

lemma clamp_unit: "x \<noteq> NaN \<Longrightarrow> x \<noteq> PInf \<Longrightarrow> x \<noteq> NInf \<Longrightarrow>
    \<exists>u. f_max (Fin 0) (f_min (Fin 1) x) = Fin u \<and> 0 \<le> u \<and> u \<le> 1"
  by (cases x) (auto simp: f_max_def f_min_def)

definition usage_ok :: "RuntimeCPU \<Rightarrow> bool" where
  "usage_ok r \<longleftrightarrow> (\<exists>u. rc_usage r = Fin u \<and> 0 \<le> u \<and> u \<le> 1)"

datatype CPUOp =
  CPUStart "Context option" "goerr + (float64 \<times> float64)"
| CPUSample "goerr + (float64 \<times> float64)"
| CPUStop
| CPUExit

fun cpu_step :: "RuntimeCPU \<Rightarrow> CPUOp \<Rightarrow> RuntimeCPU" where
  "cpu_step r (CPUStart ctx reading) = snd (RuntimeCPU_Start ctx reading r)"
| "cpu_step r (CPUSample reading) = RuntimeCPU_sample reading r"
| "cpu_step r CPUStop = RuntimeCPU_Stop r"
| "cpu_step r CPUExit = RuntimeCPU_exit r"

lemma cpu_step_usage:
  assumes "usage_ok r"
  shows "usage_ok (cpu_step r op)"
proof (cases op)
  case (CPUSample reading)
  with assms clamp_unit show ?thesis
    by (auto simp: RuntimeCPU_sample_def usage_ok_def cpu_failure_def Let_def f_IsNaN_def f_IsInf_def
        split: sum.splits)
qed (use assms in \<open>auto simp: RuntimeCPU_Start_def RuntimeCPU_Stop_def RuntimeCPU_exit_def usage_ok_def
    cpu_failure_def split: option.splits sum.splits\<close>)

interpretation cpu_sys: guarded_machine cpu_step "\<lambda>_ _. True" usage_ok
  by unfold_locales (rule cpu_step_usage)

text \<open>
  C38. The CPU sampler always reports a busy ratio in the unit interval, whatever readings the
  runtime delivers: failures, counters that go backwards, NaN and infinities included.
\<close>

theorem cpu_usage_unit:
  "\<exists>u. rc_usage (run cpu_step NewRuntimeCPU ops) = Fin u \<and> 0 \<le> u \<and> u \<le> 1"
proof -
  have "usage_ok NewRuntimeCPU" by (simp add: usage_ok_def NewRuntimeCPU_def)
  from cpu_sys.run_inv [OF this, of ops] show ?thesis by (simp add: usage_ok_def)
qed

end
