(* ===== verification/Retry.thy ===== *)
theory Retry
  imports Context
begin

text \<open>
  Retries (\<open>governance/retry\<close>): the ratio budget per operation, the full-jitter backoff and
  the attempt loop of the middleware.
\<close>

section \<open>The budget\<close>

record budgetBucket =
  bb_primary :: u64
  bb_retries :: u64
  bb_rejected :: u64

record Budget =
  bg_burst :: u64
  bg_buckets :: "(string, budgetBucket) gomap"

definition zero_bucket :: budgetBucket where
  "zero_bucket = \<lparr>bb_primary = 0, bb_retries = 0, bb_rejected = 0\<rparr>"

definition bucket :: "Budget \<Rightarrow> string \<Rightarrow> budgetBucket" where
  "bucket b key = (case gm_get (bg_buckets b) key of None \<Rightarrow> zero_bucket | Some k \<Rightarrow> k)"

definition set_bucket :: "string \<Rightarrow> budgetBucket \<Rightarrow> Budget \<Rightarrow> Budget" where
  "set_bucket key k b = b\<lparr>bg_buckets := gm_put key k (bg_buckets b)\<rparr>"





record BudgetDescription =
  gd_Operation :: string
  gd_Primary :: u64
  gd_Retries :: u64
  gd_RejectedRetries :: u64

definition Budget_Describe :: "Budget option \<Rightarrow> BudgetDescription list" where
  "Budget_Describe bo = (case bo of None \<Rightarrow> []
   | Some b \<Rightarrow> map (\<lambda>key. (let k = bucket b key in \<lparr>gd_Operation = key, gd_Primary = bb_primary k,
       gd_Retries = bb_retries k, gd_RejectedRetries = bb_rejected k\<rparr>))
       (sort (gm_keys (bg_buckets b))))"

section \<open>Backoff\<close>




section \<open>The middleware\<close>









section \<open>Bounds of the backoff\<close>







section \<open>The budget over time\<close>







lemma bucket_set [simp]:
  "bucket (set_bucket key k b) key' = (if key' = key then k else bucket b key')"
  "bg_burst (set_bucket key k b) = bg_burst b"
  by (simp_all add: bucket_def set_bucket_def gm_get_put)









section \<open>Attempts\<close>






section \<open>A concrete policy\<close>







section \<open>Properties\<close>







end
