(* ===== verification/Coordination.thy ===== *)
theory Coordination
  imports Context
begin

text \<open>
  Leases with fencing tokens: the context functions of \<open>coordination/coordination.go\<close> and the
  process-local coordinator of \<open>coordination/memory/memory.go\<close>. Lease objects live in a heap
  and are named by their position in it, so that the identity test of \<open>Release\<close> is equality
  of positions.
\<close>

section \<open>Fences in the context\<close>

definition WithFence :: "Context option \<Rightarrow> u64 \<Rightarrow> Context option" where
  "WithFence ctx fence = (if ctx = None \<or> fence = 0 then ctx
     else map_option (ctx_fence_update (\<lambda>_. Some fence)) ctx)"

definition FenceFromContext :: "Context option \<Rightarrow> u64 option" where
  "FenceFromContext ctx = (case Option.bind ctx ctx_fence of
     None \<Rightarrow> None | Some fence \<Rightarrow> if fence > 0 then Some fence else None)"

section \<open>The coordinator\<close>

abbreviation ErrCoordinationOption :: goerr where
  "ErrCoordinationOption \<equiv> Sentinel ''coordination: invalid option''"

abbreviation ErrLeaseLost :: goerr where
  "ErrLeaseLost \<equiv> Sentinel ''coordination: lease lost''"

text \<open>\<open>le_once\<close>: the release has run, which also closed the \<open>done\<close> channel.\<close>

record lease =
  le_key :: string
  le_fence :: u64
  le_once :: bool

record Coordinator =
  co_heap :: "lease list"
  co_leases :: "(string, nat) gomap"
  co_fences :: "(string, u64) gomap"
  co_acquired :: u64
  co_rejected :: u64
  co_released :: u64

definition NewCoordinator :: Coordinator where
  "NewCoordinator = \<lparr>co_heap = [], co_leases = [], co_fences = [], co_acquired = 0,
     co_rejected = 0, co_released = 0\<rparr>"

definition coordination_validKey :: "string \<Rightarrow> bool" where
  "coordination_validKey v \<longleftrightarrow>
     \<not> (v = [] \<or> length v > 512 \<or> TrimSpace v \<noteq> v \<or> \<not> ValidString v) \<and> \<not> containsControl v"

definition new_lease :: "string \<Rightarrow> Coordinator \<Rightarrow> nat \<times> Coordinator" where
  "new_lease key c = (let fence = gm_get0 (co_fences c) key + 1; address = length (co_heap c) in
     (address, c\<lparr>co_fences := gm_put key fence (co_fences c),
        co_heap := co_heap c @ [\<lparr>le_key = key, le_fence = fence, le_once = False\<rparr>],
        co_leases := gm_put key address (co_leases c), co_acquired := co_acquired c + 1\<rparr>))"

text \<open>\<open>TryAcquire\<close>: None is contention.\<close>

definition TryAcquire ::
  "Context option \<Rightarrow> string \<Rightarrow> duration \<Rightarrow> Coordinator \<Rightarrow> (goerr + nat option) \<times> Coordinator" where
  "TryAcquire ctx key ttl c =
     (case ctx of None \<Rightarrow> (Err (Wrapf ''context, key, or ttl'' [ErrCoordinationOption]), c)
      | Some x \<Rightarrow>
        if ttl \<le> 0 \<or> \<not> coordination_validKey key
        then (Err (Wrapf ''context, key, or ttl'' [ErrCoordinationOption]), c)
        else (case ctx_cause x of Some cause \<Rightarrow> (Err cause, c)
        | None \<Rightarrow> (case gm_get (co_leases c) key of
            Some _ \<Rightarrow> (Ok None, c\<lparr>co_rejected := co_rejected c + 1\<rparr>)
          | None \<Rightarrow> (let (address, c') = new_lease key c in (Ok (Some address), c')))))"

definition lease_Fence :: "nat option \<Rightarrow> Coordinator \<Rightarrow> u64" where
  "lease_Fence l c = (case l of None \<Rightarrow> 0 | Some address \<Rightarrow> le_fence (co_heap c ! address))"

text \<open>\<open>Err\<close>: the local lease never records an error.\<close>

definition lease_Err :: "nat option \<Rightarrow> goerr option" where
  "lease_Err l = (case l of None \<Rightarrow> Some ErrLeaseLost | Some _ \<Rightarrow> None)"

definition release_once :: "nat \<Rightarrow> Coordinator \<Rightarrow> Coordinator" where
  "release_once address c = (let l = co_heap c ! address in
     if le_once l then c
     else (let c1 = c\<lparr>co_heap := (co_heap c)[address := l\<lparr>le_once := True\<rparr>]\<rparr> in
       if gm_get (co_leases c) (le_key l) = Some address
       then c1\<lparr>co_leases := gm_del (le_key l) (co_leases c), co_released := co_released c + 1\<rparr>
       else c1))"

definition lease_Release ::
  "Context option \<Rightarrow> nat option \<Rightarrow> Coordinator \<Rightarrow> goerr option \<times> Coordinator" where
  "lease_Release ctx l c =
     (case l of None \<Rightarrow> (None, c)
      | Some address \<Rightarrow>
        (case ctx of None \<Rightarrow> (Some (Wrapf ''context is nil'' [ErrCoordinationOption]), c)
         | Some x \<Rightarrow> (case ctx_cause x of Some cause \<Rightarrow> (Some cause, c)
           | None \<Rightarrow> (lease_Err l, release_once address c))))"

record CoordinatorDescription =
  cod_Active :: nat
  cod_Acquired :: u64
  cod_Rejected :: u64
  cod_Released :: u64

definition Coordinator_Description :: "Coordinator option \<Rightarrow> CoordinatorDescription" where
  "Coordinator_Description co = (case co of
     None \<Rightarrow> \<lparr>cod_Active = 0, cod_Acquired = 0, cod_Rejected = 0, cod_Released = 0\<rparr>
   | Some c \<Rightarrow> \<lparr>cod_Active = length (co_leases c), cod_Acquired = co_acquired c,
       cod_Rejected = co_rejected c, cod_Released = co_released c\<rparr>)"

section \<open>Owners of leases\<close>

text \<open>Owners acquire keys and release leases, also repeatedly, in any order.\<close>

datatype CoordinatorOp =
  CAcquire "Context option" string duration
| CRelease "Context option" nat

fun coordinator_step :: "Coordinator \<Rightarrow> CoordinatorOp \<Rightarrow> Coordinator" where
  "coordinator_step c (CAcquire ctx key ttl) = snd (TryAcquire ctx key ttl c)"
| "coordinator_step c (CRelease ctx address) =
     (if address < length (co_heap c) then snd (lease_Release ctx (Some address) c) else c)"

text \<open>The 64-bit fence counters are exact while fewer than \<open>2 ^ 64 - 1\<close> leases were issued.\<close>

definition coordinator_guard :: "Coordinator \<Rightarrow> CoordinatorOp \<Rightarrow> bool" where
  "coordinator_guard c op \<longleftrightarrow> length (co_heap c) < 2 ^ 64 - 1"

definition issued_for :: "string \<Rightarrow> lease list \<Rightarrow> nat" where
  "issued_for key ls = length (filter (\<lambda>l. le_key l = key) ls)"

text \<open>
  The key map holds exactly the unreleased leases, and the fence of a lease is its number among
  the leases of its key.
\<close>

definition coordinator_inv :: "Coordinator \<Rightarrow> bool" where
  "coordinator_inv c \<longleftrightarrow> length (co_heap c) < 2 ^ 64 \<and>
     (\<forall>key address. gm_get (co_leases c) key = Some address \<longleftrightarrow>
        address < length (co_heap c) \<and> le_key (co_heap c ! address) = key \<and>
        \<not> le_once (co_heap c ! address)) \<and>
     (\<forall>key. unat (gm_get0 (co_fences c) key) = issued_for key (co_heap c)) \<and>
     (\<forall>address < length (co_heap c). unat (le_fence (co_heap c ! address)) =
        issued_for (le_key (co_heap c ! address)) (take (Suc address) (co_heap c)))"

lemma issued_for_append [simp]:
  "issued_for key (ls @ [l]) = issued_for key ls + (if le_key l = key then 1 else 0)"
  by (simp add: issued_for_def)

lemma issued_for_le: "issued_for key ls \<le> length ls"
  by (simp add: issued_for_def)

lemma issued_for_update:
  assumes "le_key l = le_key (ls ! i)" and "i < length ls"
  shows "issued_for key (take n (ls[i := l])) = issued_for key (take n ls)"
  using assms by (cases "i < n") (simp_all add: issued_for_def take_update_swap length_filter_same list_update_beyond)

lemma new_lease_inv:
  assumes inv: "coordinator_inv c" and room: "length (co_heap c) < 2 ^ 64 - 1"
    and free: "gm_get (co_leases c) key = None"
  shows "coordinator_inv (snd (new_lease key c))"
proof -
  have "unat (gm_get0 (co_fences c) key) = issued_for key (co_heap c)"
    using inv by (simp add: coordinator_inv_def)
  with issued_for_le [of key "co_heap c"] room
  have fence: "unat (gm_get0 (co_fences c) key + 1) = Suc (issued_for key (co_heap c))"
    by (subst unat_u64_Suc) linarith+
  have released: "le_once (co_heap c ! a)" if "a < length (co_heap c)" "le_key (co_heap c ! a) = key" for a
    using inv free that unfolding coordinator_inv_def by (metis option.distinct(1))
  with inv room fence show ?thesis
    by (auto simp: coordinator_inv_def new_lease_def Let_def nth_append less_Suc_eq)
qed

lemma unreleased_unique:
  assumes "coordinator_inv c" and "a < length (co_heap c)" and "b < length (co_heap c)"
    and "le_key (co_heap c ! a) = le_key (co_heap c ! b)"
    and "\<not> le_once (co_heap c ! a)" and "\<not> le_once (co_heap c ! b)"
  shows "a = b"
  using assms unfolding coordinator_inv_def by (metis option.inject)

lemma release_once_inv:
  assumes inv: "coordinator_inv c" and a: "address < length (co_heap c)"
  shows "coordinator_inv (release_once address c)"
proof -
  have up: "issued_for key (take n ((co_heap c)[address := (co_heap c ! address)\<lparr>le_once := True\<rparr>]))
      = issued_for key (take n (co_heap c))" for key n
    using a by (intro issued_for_update) simp_all
  from up [of _ "length (co_heap c)"]
  have all: "issued_for key ((co_heap c)[address := (co_heap c ! address)\<lparr>le_once := True\<rparr>])
      = issued_for key (co_heap c)" for key
    by simp
  show ?thesis
    using inv a unreleased_unique [OF inv, of _ address]
    by (auto simp: coordinator_inv_def release_once_def Let_def all up nth_list_update)
qed

lemma coordinator_step_inv:
  assumes "coordinator_inv c" and "coordinator_guard c op"
  shows "coordinator_inv (coordinator_step c op)"
  using assms
proof (cases op)
  case (CAcquire ctx key ttl)
  have "coordinator_inv (c\<lparr>co_rejected := r\<rparr>)" for r
    using assms(1) by (simp add: coordinator_inv_def)
  with assms CAcquire new_lease_inv [of c key] show ?thesis
    by (auto simp: TryAcquire_def coordinator_guard_def split: option.splits prod.splits)
next
  case (CRelease ctx address)
  with assms release_once_inv show ?thesis
    by (auto simp: lease_Release_def split: option.splits)
qed

interpretation coordinator_sys: guarded_machine coordinator_step coordinator_guard coordinator_inv
  by unfold_locales (rule coordinator_step_inv)

lemma coordinator_init_inv: "coordinator_inv NewCoordinator"
  by (simp add: coordinator_inv_def NewCoordinator_def issued_for_def gm_get0_def)

lemma issued_for_less:
  assumes "a < b" and "b < length ls" and "le_key (ls ! b) = key"
  shows "issued_for key (take (Suc a) ls) < issued_for key (take (Suc b) ls)"
proof -
  have "take (Suc b) ls = take (Suc a) ls @ drop (Suc a) (take b ls) @ [ls ! b]"
    using assms(1,2) by (metis Suc_leI append_assoc append_take_drop_id min.absorb1 take_Suc_conv_app_nth take_take)
  then show ?thesis using assms(3) by (simp add: issued_for_def)
qed

lemma fence_number:
  assumes "coordinator_inv c" and "i < length (co_heap c)"
  shows "unat (lease_Fence (Some i) c) = issued_for (le_key (co_heap c ! i)) (take (Suc i) (co_heap c))"
  using assms by (simp add: coordinator_inv_def lease_Fence_def)

lemma fences_positive:
  assumes "coordinator_inv c" and "i < length (co_heap c)"
  shows "0 < lease_Fence (Some i) c"
  using fence_number [OF assms] assms(2) by (simp add: word_less_nat_alt take_Suc_conv_app_nth)

lemma fences_ordered:
  assumes "coordinator_inv c" and "a < b" and "b < length (co_heap c)"
    and "le_key (co_heap c ! a) = le_key (co_heap c ! b)"
  shows "lease_Fence (Some a) c < lease_Fence (Some b) c"
  using fence_number [OF assms(1), of a] fence_number [OF assms(1), of b] issued_for_less [OF assms(2,3)] assms
  by (simp add: word_less_nat_alt)

section \<open>A concrete key\<close>

lemma demo_key: "coordination_validKey ''k''"
  using validIdentity_graphic [of "''k''" 512]
  by (simp add: coordination_validKey_def validIdentity_def byte_of_def)

lemma Background_cause: "ctx_cause Background = None"
  by (simp add: Background_def)

lemmas lease_eval = TryAcquire_def new_lease_def lease_Release_def release_once_def NewCoordinator_def
  coordinator_guard_def Let_def demo_key Background_cause

section \<open>Properties\<close>

text \<open>
  C13. Mutual exclusion, and no lock-out: after any acquisitions and releases, a well-formed request
  for a key is granted if and only if no lease of that key is unreleased.
\<close>

theorem lease_exclusive:
  assumes "run_ok coordinator_step coordinator_guard NewCoordinator ops"
    and "c = run coordinator_step NewCoordinator ops"
    and "ctx_cause x = None" and "0 < ttl" and "coordination_validKey key"
  shows "(\<exists>address. fst (TryAcquire (Some x) key ttl c) = Ok (Some address)) \<longleftrightarrow>
    \<not> (\<exists>l \<in> set (co_heap c). le_key l = key \<and> \<not> le_once l)"
proof -
  have inv: "coordinator_inv c"
    using coordinator_sys.run_inv [OF coordinator_init_inv assms(1)] assms(2) by simp
  have held: "(\<exists>l \<in> set (co_heap c). le_key l = key \<and> \<not> le_once l) \<longleftrightarrow> gm_get (co_leases c) key \<noteq> None"
    using inv unfolding coordinator_inv_def by (metis in_set_conv_nth option.exhaust option.distinct(1))
  show ?thesis
    unfolding held using assms(3-5) by (auto simp: TryAcquire_def new_lease_def Let_def split: option.splits)
qed

theorem lease_exclusive_witness:
  "\<not> (\<exists>address. fst (TryAcquire (Some Background) ''k'' 5
     (run coordinator_step NewCoordinator [CAcquire (Some Background) ''k'' 5])) = Ok (Some address)) \<and>
   (\<exists>address. fst (TryAcquire (Some Background) ''k'' 5 (run coordinator_step NewCoordinator
     [CAcquire (Some Background) ''k'' 5, CRelease (Some Background) 0])) = Ok (Some address))"
proof -
  have one: "run_ok coordinator_step coordinator_guard NewCoordinator [CAcquire (Some Background) ''k'' 5]"
    by (simp add: lease_eval)
  have two: "run_ok coordinator_step coordinator_guard NewCoordinator
      [CAcquire (Some Background) ''k'' 5, CRelease (Some Background) 0]"
    by (simp add: lease_eval)
  show ?thesis
    using lease_exclusive [OF one refl Background_cause _ demo_key, of 5] lease_exclusive [OF two refl Background_cause _ demo_key, of 5]
    by (simp add: lease_eval)
qed

text \<open>
  C14. Fencing tokens: the leases of one key carry positive fences that strictly increase in the
  order of acquisition, so a write with an older fence can always be told from a newer owner's.
\<close>

theorem lease_fences_increase:
  assumes "run_ok coordinator_step coordinator_guard NewCoordinator ops"
    and "c = run coordinator_step NewCoordinator ops"
    and "a < b" and "b < length (co_heap c)" and "le_key (co_heap c ! a) = le_key (co_heap c ! b)"
  shows "0 < lease_Fence (Some a) c \<and> lease_Fence (Some a) c < lease_Fence (Some b) c"
proof -
  have inv: "coordinator_inv c"
    using coordinator_sys.run_inv [OF coordinator_init_inv assms(1)] assms(2) by simp
  with assms(3,4) have "0 < lease_Fence (Some a) c" by (intro fences_positive) auto
  with fences_ordered [OF inv assms(3-5)] show ?thesis by simp
qed

theorem lease_fences_increase_witness:
  "lease_Fence (Some 0) (run coordinator_step NewCoordinator [CAcquire (Some Background) ''k'' 5,
     CRelease (Some Background) 0, CAcquire (Some Background) ''k'' 5]) <
   lease_Fence (Some 1) (run coordinator_step NewCoordinator [CAcquire (Some Background) ''k'' 5,
     CRelease (Some Background) 0, CAcquire (Some Background) ''k'' 5])"
proof -
  let ?ops = "[CAcquire (Some Background) ''k'' 5, CRelease (Some Background) 0,
    CAcquire (Some Background) ''k'' 5]"
  have ok: "run_ok coordinator_step coordinator_guard NewCoordinator ?ops"
    by (simp add: lease_eval)
  show ?thesis
    using lease_fences_increase [OF ok refl, of 0 1] by (simp add: lease_eval)
qed

end
