(* ===== verification/Saga.thy ===== *)
theory Saga
  imports Coordination
begin

text \<open>
  Durable sagas: \<open>saga/saga.go\<close> (definitions and records), \<open>saga/memory/repository.go\<close> (the
  revisioned, fence-aware store) and \<open>saga/engine.go\<close> (forward execution and reverse
  compensation under a lease). Repository and coordinator are Go interfaces; the engine takes
  them as records of functions, and the memory implementations are one instance of each.
\<close>

section \<open>Definitions and records\<close>

definition maxIdentityBytes :: nat where "maxIdentityBytes = 256"
definition maxSteps :: nat where "maxSteps = 128"

abbreviation ErrSagaOption :: goerr where
  "ErrSagaOption \<equiv> Sentinel ''saga: invalid option''"

abbreviation ErrSagaNotFound :: goerr where
  "ErrSagaNotFound \<equiv> Sentinel ''saga: instance not found''"

abbreviation ErrSagaAlreadyExists :: goerr where
  "ErrSagaAlreadyExists \<equiv> Sentinel ''saga: instance already exists''"

abbreviation ErrSagaConflict :: goerr where
  "ErrSagaConflict \<equiv> Sentinel ''saga: revision conflict''"

abbreviation ErrStaleFence :: goerr where
  "ErrStaleFence \<equiv> Sentinel ''saga: stale fence''"

abbreviation ErrContended :: goerr where
  "ErrContended \<equiv> Sentinel ''saga: instance is owned''"

abbreviation ErrDefinitionMismatch :: goerr where
  "ErrDefinitionMismatch \<equiv> Sentinel ''saga: definition mismatch''"

abbreviation ErrCompensated :: goerr where
  "ErrCompensated \<equiv> Sentinel ''saga: compensated''"

abbreviation ErrFailed :: goerr where
  "ErrFailed \<equiv> Sentinel ''saga: terminal failure''"

abbreviation errHandlerPanic :: goerr where
  "errHandlerPanic \<equiv> Sentinel ''saga: handler panicked''"

text \<open>\<open>StatusOther\<close> is any string that is no status, the zero value included.\<close>

datatype SagaStatus =
  StatusRunning | StatusCompensating | StatusCompleted | StatusCompensated | StatusFailed | StatusOther

datatype Phase = PhaseAction | PhaseCompensation

fun phase_string :: "Phase \<Rightarrow> string" where
  "phase_string PhaseAction = ''action''"
| "phase_string PhaseCompensation = ''compensation''"

record Invocation =
  iv_SagaID :: string
  iv_Definition :: string
  iv_Version :: string
  iv_Step :: string
  iv_StepIndex :: int
  iv_Phase :: Phase
  iv_Attempt :: int
  iv_Fence :: u64
  iv_IdempotencyKey :: string

text \<open>A handler acts on the surrounding world; nil is None where a handler is optional.\<close>

type_synonym 'w SagaHandler = "Context option \<Rightarrow> Invocation \<Rightarrow> 'w \<Rightarrow> unit outcome \<times> 'w"

record 'w SagaStep =
  st_Name :: string
  st_Action :: "'w SagaHandler option"
  st_Compensate :: "'w SagaHandler option"

record 'w SagaDefinition =
  sd_Name :: string
  sd_Version :: string
  sd_Steps :: "'w SagaStep list"

fun validate_steps :: "string list \<Rightarrow> 'w SagaStep list \<Rightarrow> goerr option" where
  "validate_steps seen [] = None"
| "validate_steps seen (step # steps) =
     (if \<not> validIdentity (st_Name step) maxIdentityBytes \<or> st_Action step = None
      then Some (Wrapf ''step'' [ErrSagaOption])
      else if st_Name step \<in> set seen then Some (Wrapf ''duplicate step'' [ErrSagaOption])
      else validate_steps (st_Name step # seen) steps)"

definition SagaDefinition_Validate :: "'w SagaDefinition \<Rightarrow> goerr option" where
  "SagaDefinition_Validate d =
     (if \<not> validIdentity (sd_Name d) maxIdentityBytes \<or> \<not> validIdentity (sd_Version d) maxIdentityBytes \<or>
         length (sd_Steps d) = 0 \<or> length (sd_Steps d) > maxSteps
      then Some (Wrapf ''definition identity or step count'' [ErrSagaOption])
      else validate_steps [] (sd_Steps d))"

record SagaRecord =
  sg_ID :: string
  sg_Definition :: string
  sg_Version :: string
  sg_Status :: SagaStatus
  sg_NextStep :: int
  sg_CompensationIndex :: int
  sg_Attempt :: int
  sg_CauseReason :: string
  sg_FailureReason :: string
  sg_Revision :: u64
  sg_UpdatedAt :: go_time

definition zero_record :: SagaRecord where
  "zero_record = \<lparr>sg_ID = [], sg_Definition = [], sg_Version = [], sg_Status = StatusOther,
     sg_NextStep = 0, sg_CompensationIndex = 0, sg_Attempt = 0, sg_CauseReason = [],
     sg_FailureReason = [], sg_Revision = 0, sg_UpdatedAt = 0\<rparr>"

definition Record_Terminal :: "SagaRecord \<Rightarrow> bool" where
  "Record_Terminal r \<longleftrightarrow> sg_Status r = StatusCompleted \<or> sg_Status r = StatusCompensated \<or>
     sg_Status r = StatusFailed"

definition Record_Validate :: "SagaRecord \<Rightarrow> goerr option" where
  "Record_Validate r =
     (if \<not> validIdentity (sg_ID r) maxIdentityBytes \<or> \<not> validIdentity (sg_Definition r) maxIdentityBytes \<or>
         \<not> validIdentity (sg_Version r) maxIdentityBytes \<or> sg_Revision r = 0 \<or> sg_NextStep r < 0 \<or>
         sg_CompensationIndex r < - 1 \<or> sg_Attempt r < 0 \<or>
         sg_CauseReason r \<noteq> [] \<and> \<not> validIdentity (sg_CauseReason r) maxIdentityBytes \<or>
         sg_FailureReason r \<noteq> [] \<and> \<not> validIdentity (sg_FailureReason r) maxIdentityBytes \<or>
         time_IsZero (sg_UpdatedAt r)
      then Some (Wrapf ''invalid durable record'' [ErrSagaOption])
      else if sg_Status r = StatusOther then Some (Wrapf ''invalid status'' [ErrSagaOption])
      else None)"

text \<open>
  The stable key of a handler call; \<open>digest\<close> is the hexadecimal SHA-256 of the joined parts.
\<close>

definition idempotencyKey ::
  "(string \<Rightarrow> string) \<Rightarrow> string \<Rightarrow> string \<Rightarrow> string \<Rightarrow> string \<Rightarrow> Phase \<Rightarrow> string" where
  "idempotencyKey digest id' def ver step phase = ''saga:v1:'' @ digest (id' @ [CHR 0x00] @ def @
     [CHR 0x00] @ ver @ [CHR 0x00] @ step @ [CHR 0x00] @ phase_string phase)"

section \<open>The memory repository\<close>

record SagaRepository =
  sp_records :: "(string, SagaRecord) gomap"
  sp_fences :: "(string, u64) gomap"

definition NewSagaRepository :: SagaRepository where
  "NewSagaRepository = \<lparr>sp_records = [], sp_fences = []\<rparr>"

definition Repository_Load ::
  "Context option \<Rightarrow> string \<Rightarrow> SagaRepository \<Rightarrow> (goerr + SagaRecord) \<times> SagaRepository" where
  "Repository_Load ctx id' r = (case ctx of
     None \<Rightarrow> (Err (Wrapf ''repository or context'' [ErrSagaOption]), r)
   | Some x \<Rightarrow> (case ctx_cause x of Some cause \<Rightarrow> (Err cause, r)
     | None \<Rightarrow> (case gm_get (sp_records r) id' of
         None \<Rightarrow> (Err ErrSagaNotFound, r) | Some rec \<Rightarrow> (Ok rec, r))))"

definition Repository_Create ::
  "Context option \<Rightarrow> SagaRecord \<Rightarrow> u64 \<Rightarrow> SagaRepository \<Rightarrow> (goerr + SagaRecord) \<times> SagaRepository" where
  "Repository_Create ctx rec fence r = (case ctx of
     None \<Rightarrow> (Err (Wrapf ''repository, context, or fence'' [ErrSagaOption]), r)
   | Some x \<Rightarrow>
     if fence = 0 then (Err (Wrapf ''repository, context, or fence'' [ErrSagaOption]), r)
     else (case ctx_cause x of Some cause \<Rightarrow> (Err cause, r)
     | None \<Rightarrow> (let rec = rec\<lparr>sg_Revision := 1\<rparr> in
         case Record_Validate rec of Some e \<Rightarrow> (Err e, r)
         | None \<Rightarrow> (case gm_get (sp_records r) (sg_ID rec) of
             Some _ \<Rightarrow> (Err ErrSagaAlreadyExists, r)
           | None \<Rightarrow> (Ok rec, r\<lparr>sp_records := gm_put (sg_ID rec) rec (sp_records r),
               sp_fences := gm_put (sg_ID rec) fence (sp_fences r)\<rparr>)))))"

definition Repository_Save ::
  "Context option \<Rightarrow> SagaRecord \<Rightarrow> u64 \<Rightarrow> u64 \<Rightarrow> SagaRepository \<Rightarrow>
     (goerr + SagaRecord) \<times> SagaRepository" where
  "Repository_Save ctx rec expected fence r = (case ctx of
     None \<Rightarrow> (Err (Wrapf ''repository, context, revision, or fence'' [ErrSagaOption]), r)
   | Some x \<Rightarrow>
     if expected = 0 \<or> fence = 0
     then (Err (Wrapf ''repository, context, revision, or fence'' [ErrSagaOption]), r)
     else (case ctx_cause x of Some cause \<Rightarrow> (Err cause, r)
     | None \<Rightarrow> (case gm_get (sp_records r) (sg_ID rec) of
         None \<Rightarrow> (Err ErrSagaNotFound, r)
       | Some current \<Rightarrow>
         if fence < gm_get0 (sp_fences r) (sg_ID rec) then (Err ErrStaleFence, r)
         else if sg_Revision current \<noteq> expected then (Err ErrSagaConflict, r)
         else if sg_Definition current \<noteq> sg_Definition rec \<or> sg_Version current \<noteq> sg_Version rec
         then (Err ErrDefinitionMismatch, r)
         else (let rec = rec\<lparr>sg_Revision := expected + 1\<rparr> in
           case Record_Validate rec of Some e \<Rightarrow> (Err e, r)
           | None \<Rightarrow> (Ok rec, r\<lparr>sp_records := gm_put (sg_ID rec) rec (sp_records r),
               sp_fences := gm_put (sg_ID rec) fence (sp_fences r)\<rparr>)))))"

section \<open>Interfaces of the engine\<close>

record 'p RepositoryI =
  rp_Load :: "Context option \<Rightarrow> string \<Rightarrow> 'p \<Rightarrow> (goerr + SagaRecord) \<times> 'p"
  rp_Create :: "Context option \<Rightarrow> SagaRecord \<Rightarrow> u64 \<Rightarrow> 'p \<Rightarrow> (goerr + SagaRecord) \<times> 'p"
  rp_Save :: "Context option \<Rightarrow> SagaRecord \<Rightarrow> u64 \<Rightarrow> u64 \<Rightarrow> 'p \<Rightarrow> (goerr + SagaRecord) \<times> 'p"

definition memory_repository :: "SagaRepository RepositoryI" where
  "memory_repository = \<lparr>rp_Load = Repository_Load, rp_Create = Repository_Create,
     rp_Save = Repository_Save\<rparr>"

record ('c, 'l) CoordinatorI =
  ci_TryAcquire :: "Context option \<Rightarrow> string \<Rightarrow> duration \<Rightarrow> 'c \<Rightarrow> (goerr + 'l option) \<times> 'c"
  ci_Fence :: "'l \<Rightarrow> 'c \<Rightarrow> u64"
  ci_Release :: "Context option \<Rightarrow> 'l \<Rightarrow> 'c \<Rightarrow> goerr option \<times> 'c"

definition memory_coordinator :: "(Coordinator, nat) CoordinatorI" where
  "memory_coordinator = \<lparr>ci_TryAcquire = TryAcquire, ci_Fence = (\<lambda>l. lease_Fence (Some l)),
     ci_Release = (\<lambda>ctx l. lease_Release ctx (Some l))\<rparr>"

text \<open>
  What a run observes of its surroundings, each observation at its own instant: the cause of its
  context, cancelled by the caller or by the loss of the lease, the cause of the context of one
  step, which also has the step timeout, and the clock; and the digest of idempotency keys.
\<close>

record 'w SagaEnv =
  sv_cause :: "'w \<Rightarrow> goerr option \<times> 'w"
  sv_stepCause :: "'w \<Rightarrow> goerr option \<times> 'w"
  sv_clock :: "'w \<Rightarrow> go_time \<times> 'w"
  sv_digest :: "string \<Rightarrow> string"

section \<open>The engine\<close>

record 'w SagaConfig =
  sf_Definition :: "'w SagaDefinition"
  sf_Repository :: bool
  sf_Coordinator :: bool
  sf_LeaseTTL :: duration
  sf_StepTimeout :: duration
  sf_MaxCompensationAttempts :: int
  sf_ClassifyFailure :: "(goerr \<Rightarrow> string) option"

record 'w SagaEngine =
  se_definition :: "'w SagaDefinition"
  se_leaseTTL :: duration
  se_stepTimeout :: duration
  se_maxCompensationAttempts :: int
  se_classify :: "goerr \<Rightarrow> string"

record SagaCounters =
  sc_active :: int
  sc_started :: u64
  sc_completed :: u64
  sc_compensated :: u64
  sc_terminalFailures :: u64
  sc_contended :: u64
  sc_actionFailures :: u64
  sc_compensationFailures :: u64
  sc_leaseLosses :: u64
  sc_repositoryFailures :: u64

definition zero_counters :: SagaCounters where
  "zero_counters = \<lparr>sc_active = 0, sc_started = 0, sc_completed = 0, sc_compensated = 0,
     sc_terminalFailures = 0, sc_contended = 0, sc_actionFailures = 0, sc_compensationFailures = 0,
     sc_leaseLosses = 0, sc_repositoryFailures = 0\<rparr>"

text \<open>\<open>New\<close>: \<open>sf_Repository\<close> and \<open>sf_Coordinator\<close> tell whether they are not nil.\<close>

definition NewSagaEngine :: "'w SagaConfig \<Rightarrow> goerr + 'w SagaEngine" where
  "NewSagaEngine config =
     (case SagaDefinition_Validate (sf_Definition config) of Some e \<Rightarrow> Err e
      | None \<Rightarrow>
        if \<not> sf_Repository config \<or> \<not> sf_Coordinator config
        then Err (Wrapf ''repository and coordinator are required'' [ErrSagaOption])
        else (let leaseTTL = (if sf_LeaseTTL config = 0 then 30 * second else sf_LeaseTTL config);
                  stepTimeout = (if sf_StepTimeout config = 0 then 30 * second else sf_StepTimeout config);
                  attempts = (if sf_MaxCompensationAttempts config = 0 then 20
                    else sf_MaxCompensationAttempts config) in
          if leaseTTL < 100 * millisecond \<or> leaseTTL > 10 * minute \<or> stepTimeout < 10 * millisecond \<or>
             stepTimeout > 10 * minute \<or> attempts < 1 \<or> attempts > 1000
          then Err (Wrapf ''lifecycle budgets'' [ErrSagaOption])
          else Ok \<lparr>se_definition = sf_Definition config, se_leaseTTL = leaseTTL,
            se_stepTimeout = stepTimeout, se_maxCompensationAttempts = attempts,
            se_classify = (case sf_ClassifyFailure config of
              None \<Rightarrow> (\<lambda>e. kind_string (Classify (Some e))) | Some f \<Rightarrow> f)\<rparr>))"

record Result =
  rs_Record :: SagaRecord
  rs_Actions :: int
  rs_Compensated :: int

type_synonym ('p, 'w) saga_state = "SagaCounters \<times> 'p \<times> 'w"

definition count :: "((u64 \<Rightarrow> u64) \<Rightarrow> SagaCounters \<Rightarrow> SagaCounters) \<Rightarrow> SagaCounters \<Rightarrow> SagaCounters" where
  "count field c = field (\<lambda>n. n + 1) c"

definition run_context :: "Context \<Rightarrow> goerr option \<Rightarrow> Context option" where
  "run_context ctx cause = Some (ctx\<lparr>ctx_cause := cause\<rparr>)"

definition engine_save ::
  "'w SagaEnv \<Rightarrow> 'p RepositoryI \<Rightarrow> Context \<Rightarrow> SagaRecord \<Rightarrow> u64 \<Rightarrow> ('p, 'w) saga_state \<Rightarrow>
     (goerr + SagaRecord) \<times> ('p, 'w) saga_state" where
  "engine_save env repo ctx rec fence st = (case st of (cnt, p, w) \<Rightarrow>
     (let (now, w1) = sv_clock env w; (cause, w2) = sv_cause env w1 in
      case rp_Save repo (run_context ctx cause) (rec\<lparr>sg_UpdatedAt := now\<rparr>) (sg_Revision rec) fence p of
        (Err e, p') \<Rightarrow> (Err (Wrapf ''saga: save'' [e]), count sc_repositoryFailures_update cnt, p', w2)
      | (Ok saved, p') \<Rightarrow> (Ok saved, cnt, p', w2)))"

definition invocation :: "'w SagaEnv \<Rightarrow> SagaRecord \<Rightarrow> string \<Rightarrow> int \<Rightarrow> Phase \<Rightarrow> u64 \<Rightarrow> Invocation" where
  "invocation env rec step index phase fence =
     \<lparr>iv_SagaID = sg_ID rec, iv_Definition = sg_Definition rec, iv_Version = sg_Version rec,
      iv_Step = step, iv_StepIndex = index, iv_Phase = phase, iv_Attempt = sg_Attempt rec,
      iv_Fence = fence, iv_IdempotencyKey = idempotencyKey (sv_digest env) (sg_ID rec)
        (sg_Definition rec) (sg_Version rec) step phase\<rparr>"

text \<open>\<open>invoke\<close>: panics are recovered, the call of a nil handler included.\<close>

definition engine_invoke ::
  "'w SagaEnv \<Rightarrow> Context \<Rightarrow> 'w SagaHandler option \<Rightarrow> Invocation \<Rightarrow> 'w \<Rightarrow> goerr option \<times> 'w" where
  "engine_invoke env ctx handler call w = (case handler of None \<Rightarrow> (Some errHandlerPanic, w)
     | Some h \<Rightarrow> (case h (WithFence (Some ctx) (iv_Fence call)) call w of
         (Panic, w1) \<Rightarrow> (Some errHandlerPanic, w1)
       | (Return _ (Some err), w1) \<Rightarrow> (Some err, w1)
       | (Return _ None, w1) \<Rightarrow> sv_stepCause env w1))"

definition failureReason :: "'w SagaEngine \<Rightarrow> goerr \<Rightarrow> string" where
  "failureReason e err = (let reason = se_classify e err in
     if \<not> validIdentity reason maxIdentityBytes then ''internal'' else reason)"

definition loadOrCreate ::
  "'w SagaEnv \<Rightarrow> 'p RepositoryI \<Rightarrow> 'w SagaEngine \<Rightarrow> Context \<Rightarrow> string \<Rightarrow> u64 \<Rightarrow> ('p, 'w) saga_state \<Rightarrow>
     (goerr + SagaRecord) \<times> ('p, 'w) saga_state" where
  "loadOrCreate env repo e ctx id' fence st = (case st of (cnt, p, w) \<Rightarrow>
     (let (cause, w1) = sv_cause env w;
          (loaded, p1) = rp_Load repo (run_context ctx cause) id' p;
          (res, p2, w4) = (case loaded of
             Err err \<Rightarrow>
               if errors_Is err ErrSagaNotFound then
                 (let (now, w2) = sv_clock env w1; (cause', w3) = sv_cause env w2;
                      (created, p') = rp_Create repo (run_context ctx cause')
                        (zero_record\<lparr>sg_ID := id', sg_Definition := sd_Name (se_definition e),
                           sg_Version := sd_Version (se_definition e), sg_Status := StatusRunning,
                           sg_CompensationIndex := - 1, sg_UpdatedAt := now\<rparr>) fence p1 in
                  (created, p', w3))
               else (loaded, p1, w1)
           | Ok _ \<Rightarrow> (loaded, p1, w1)) in
      case res of
        Err err \<Rightarrow> (Err (Wrapf ''saga: load or create'' [err]), count sc_repositoryFailures_update cnt, p2, w4)
      | Ok rec \<Rightarrow>
          (if sg_Definition rec \<noteq> sd_Name (se_definition e) \<or> sg_Version rec \<noteq> sd_Version (se_definition e)
           then Err ErrDefinitionMismatch
           else (case Record_Validate rec of Some err \<Rightarrow> Err err
             | None \<Rightarrow>
               if sg_NextStep rec > int (length (sd_Steps (se_definition e))) \<or>
                  sg_CompensationIndex rec \<ge> int (length (sd_Steps (se_definition e)))
               then Err (Wrapf ''step position'' [ErrSagaOption]) else Ok rec), cnt, p2, w4)))"

text \<open>
  One turn of the loop in \<open>Run\<close>, cut at the handler call: \<open>engine_prepare\<close> is the part before
  it and \<open>engine_settle\<close> the part after it. A turn returns from \<open>Run\<close>, goes round again, or
  calls the handler of a step; \<open>Crash\<close> is an index out of range.
\<close>

datatype 'w saga_turn =
  Finish Result "goerr option"
| Again SagaRecord Result
| Call SagaRecord Result Phase "'w SagaStep"
| Crash

definition saved_turn ::
  "Result \<Rightarrow> (SagaRecord \<Rightarrow> 'w saga_turn) \<Rightarrow> (SagaCounters \<Rightarrow> SagaCounters) \<Rightarrow>
     (goerr + SagaRecord) \<times> ('p, 'w) saga_state \<Rightarrow> 'w saga_turn \<times> ('p, 'w) saga_state" where
  "saved_turn result cont upd r = (case r of
     (Err err, st) \<Rightarrow> (Finish result (Some err), st)
   | (Ok rec, cnt, p, w) \<Rightarrow> (cont rec, upd cnt, p, w))"

definition step_at :: "'w SagaEngine \<Rightarrow> int \<Rightarrow> 'w SagaStep option" where
  "step_at e index = (if 0 \<le> index \<and> index < int (length (sd_Steps (se_definition e)))
     then Some (sd_Steps (se_definition e) ! nat index) else None)"

definition prepare_running ::
  "'w SagaEnv \<Rightarrow> 'p RepositoryI \<Rightarrow> 'w SagaEngine \<Rightarrow> Context \<Rightarrow> u64 \<Rightarrow> SagaRecord \<Rightarrow> Result \<Rightarrow>
     ('p, 'w) saga_state \<Rightarrow> 'w saga_turn \<times> ('p, 'w) saga_state" where
  "prepare_running env repo e ctx fence rec result st =
     (if sg_NextStep rec \<ge> int (length (sd_Steps (se_definition e)))
      then saved_turn result (\<lambda>r. Again r result) (count sc_completed_update)
        (engine_save env repo ctx (rec\<lparr>sg_Status := StatusCompleted, sg_Attempt := 0\<rparr>) fence st)
      else (case step_at e (sg_NextStep rec) of None \<Rightarrow> (Crash, st)
        | Some step \<Rightarrow> saved_turn result (\<lambda>r. Call r result PhaseAction step) id
            (engine_save env repo ctx (rec\<lparr>sg_Attempt := sg_Attempt rec + 1\<rparr>) fence st)))"

definition prepare_compensating ::
  "'w SagaEnv \<Rightarrow> 'p RepositoryI \<Rightarrow> 'w SagaEngine \<Rightarrow> Context \<Rightarrow> u64 \<Rightarrow> SagaRecord \<Rightarrow> Result \<Rightarrow>
     ('p, 'w) saga_state \<Rightarrow> 'w saga_turn \<times> ('p, 'w) saga_state" where
  "prepare_compensating env repo e ctx fence rec result st =
     (if sg_CompensationIndex rec < 0
      then saved_turn result (\<lambda>r. Again r result) id
        (engine_save env repo ctx (rec\<lparr>sg_Status := StatusCompensated, sg_Attempt := 0\<rparr>) fence st)
      else (case step_at e (sg_CompensationIndex rec) of None \<Rightarrow> (Crash, st)
        | Some step \<Rightarrow>
          if st_Compensate step = None
          then saved_turn result (\<lambda>r. Again r result) id
            (engine_save env repo ctx (rec\<lparr>sg_CompensationIndex := sg_CompensationIndex rec - 1,
               sg_Attempt := 0\<rparr>) fence st)
          else saved_turn result (\<lambda>r. Call r result PhaseCompensation step) id
            (engine_save env repo ctx (rec\<lparr>sg_Attempt := sg_Attempt rec + 1\<rparr>) fence st)))"

definition engine_prepare ::
  "'w SagaEnv \<Rightarrow> 'p RepositoryI \<Rightarrow> 'w SagaEngine \<Rightarrow> Context \<Rightarrow> u64 \<Rightarrow> SagaRecord \<Rightarrow> Result \<Rightarrow>
     ('p, 'w) saga_state \<Rightarrow> 'w saga_turn \<times> ('p, 'w) saga_state" where
  "engine_prepare env repo e ctx fence rec result st = (case st of (cnt, p, w) \<Rightarrow>
     (case sv_cause env w of
        (Some cause, w1) \<Rightarrow> (Finish result (Some cause),
          if errors_Is cause ErrLeaseLost then count sc_leaseLosses_update cnt else cnt, p, w1)
      | (None, w1) \<Rightarrow> (case sg_Status rec of
          StatusCompleted \<Rightarrow> (Finish (result\<lparr>rs_Record := rec\<rparr>) None, cnt, p, w1)
        | StatusCompensated \<Rightarrow> (Finish (result\<lparr>rs_Record := rec\<rparr>) (Some ErrCompensated), cnt, p, w1)
        | StatusFailed \<Rightarrow> (Finish (result\<lparr>rs_Record := rec\<rparr>) (Some ErrFailed), cnt, p, w1)
        | StatusRunning \<Rightarrow> prepare_running env repo e ctx fence rec result (cnt, p, w1)
        | StatusCompensating \<Rightarrow> prepare_compensating env repo e ctx fence rec result (cnt, p, w1)
        | StatusOther \<Rightarrow> (Finish result (Some (Wrapf ''record status'' [ErrSagaOption])), cnt, p, w1))))"

definition engine_call ::
  "'w SagaEnv \<Rightarrow> Context \<Rightarrow> u64 \<Rightarrow> SagaRecord \<Rightarrow> Phase \<Rightarrow> 'w SagaStep \<Rightarrow> 'w \<Rightarrow> goerr option \<times> 'w" where
  "engine_call env ctx fence rec phase step w = (case phase of
     PhaseAction \<Rightarrow> engine_invoke env ctx (st_Action step)
       (invocation env rec (st_Name step) (sg_NextStep rec) phase fence) w
   | PhaseCompensation \<Rightarrow> engine_invoke env ctx (st_Compensate step)
       (invocation env rec (st_Name step) (sg_CompensationIndex rec) phase fence) w)"

definition settle_action ::
  "'w SagaEnv \<Rightarrow> 'p RepositoryI \<Rightarrow> 'w SagaEngine \<Rightarrow> Context \<Rightarrow> u64 \<Rightarrow> SagaRecord \<Rightarrow> Result \<Rightarrow>
     goerr option \<Rightarrow> ('p, 'w) saga_state \<Rightarrow> 'w saga_turn \<times> ('p, 'w) saga_state" where
  "settle_action env repo e ctx fence rec result outcome st = (case outcome of
     Some err \<Rightarrow> (case st of (cnt, p, w) \<Rightarrow>
       (case sv_cause env w of
          (Some cause, w1) \<Rightarrow> (Finish result (Some cause), cnt, p, w1)
        | (None, w1) \<Rightarrow> saved_turn result (\<lambda>r. Again r result) (count sc_compensated_update)
            (engine_save env repo ctx (rec\<lparr>sg_Status := StatusCompensating,
               sg_CompensationIndex := sg_NextStep rec - 1, sg_Attempt := 0,
               sg_FailureReason := failureReason e err, sg_CauseReason := failureReason e err\<rparr>) fence
               (count sc_actionFailures_update cnt, p, w1))))
   | None \<Rightarrow> (let result' = result\<lparr>rs_Actions := rs_Actions result + 1\<rparr> in
       saved_turn result' (\<lambda>r. Again r (result'\<lparr>rs_Record := r\<rparr>)) id
         (engine_save env repo ctx (rec\<lparr>sg_NextStep := sg_NextStep rec + 1, sg_Attempt := 0,
            sg_FailureReason := []\<rparr>) fence st)))"

definition settle_compensation ::
  "'w SagaEnv \<Rightarrow> 'p RepositoryI \<Rightarrow> 'w SagaEngine \<Rightarrow> Context \<Rightarrow> u64 \<Rightarrow> SagaRecord \<Rightarrow> Result \<Rightarrow>
     goerr option \<Rightarrow> ('p, 'w) saga_state \<Rightarrow> 'w saga_turn \<times> ('p, 'w) saga_state" where
  "settle_compensation env repo e ctx fence rec result outcome st = (case outcome of
     Some err \<Rightarrow> (case st of (cnt, p, w) \<Rightarrow>
       (case sv_cause env w of
          (Some cause, w1) \<Rightarrow> (Finish result (Some cause), cnt, p, w1)
        | (None, w1) \<Rightarrow>
          (let rec1 = rec\<lparr>sg_FailureReason := failureReason e err\<rparr>;
               rec2 = (if sg_Attempt rec \<ge> se_maxCompensationAttempts e
                 then rec1\<lparr>sg_Status := StatusFailed\<rparr> else rec1) in
           case engine_save env repo ctx rec2 fence (count sc_compensationFailures_update cnt, p, w1) of
             (Err saveErr, st') \<Rightarrow> (Finish (result\<lparr>rs_Record := zero_record\<rparr>) (Some saveErr), st')
           | (Ok r, cnt', p', w') \<Rightarrow>
               if sg_Status r = StatusFailed
               then (Finish (result\<lparr>rs_Record := r\<rparr>) (Some (Joined [ErrFailed, err])),
                 count sc_terminalFailures_update cnt', p', w')
               else (Finish (result\<lparr>rs_Record := r\<rparr>) (Some (Wrapf ''saga: compensate step'' [err])),
                 cnt', p', w'))))
   | None \<Rightarrow> (let result' = result\<lparr>rs_Compensated := rs_Compensated result + 1\<rparr> in
       saved_turn result' (\<lambda>r. Again r (result'\<lparr>rs_Record := r\<rparr>)) id
         (engine_save env repo ctx (rec\<lparr>sg_CompensationIndex := sg_CompensationIndex rec - 1,
            sg_Attempt := 0, sg_FailureReason := sg_CauseReason rec\<rparr>) fence st)))"

definition engine_settle ::
  "'w SagaEnv \<Rightarrow> 'p RepositoryI \<Rightarrow> 'w SagaEngine \<Rightarrow> Context \<Rightarrow> u64 \<Rightarrow> SagaRecord \<Rightarrow> Result \<Rightarrow> Phase \<Rightarrow>
     goerr option \<Rightarrow> ('p, 'w) saga_state \<Rightarrow> 'w saga_turn \<times> ('p, 'w) saga_state" where
  "engine_settle env repo e ctx fence rec result phase outcome st = (case phase of
     PhaseAction \<Rightarrow> settle_action env repo e ctx fence rec result outcome st
   | PhaseCompensation \<Rightarrow> settle_compensation env repo e ctx fence rec result outcome st)"

text \<open>
  The loop of \<open>Run\<close>, with fuel: None when the fuel does not suffice. A run either returns a
  result and an error or panics.
\<close>

datatype saga_end = Returned Result "goerr option" | Panicked

fun engine_loop ::
  "'w SagaEnv \<Rightarrow> 'p RepositoryI \<Rightarrow> 'w SagaEngine \<Rightarrow> Context \<Rightarrow> u64 \<Rightarrow> nat \<Rightarrow> SagaRecord \<Rightarrow> Result \<Rightarrow>
     ('p, 'w) saga_state \<Rightarrow> saga_end option \<times> ('p, 'w) saga_state" where
  "engine_loop env repo e ctx fence 0 rec result st = (None, st)"
| "engine_loop env repo e ctx fence (Suc n) rec result st =
     (case engine_prepare env repo e ctx fence rec result st of
        (Finish result' err, st') \<Rightarrow> (Some (Returned result' err), st')
      | (Again rec' result', st') \<Rightarrow> engine_loop env repo e ctx fence n rec' result' st'
      | (Crash, st') \<Rightarrow> (Some Panicked, st')
      | (Call rec' result' phase step, cnt, p, w) \<Rightarrow>
          (let (outcome, w') = engine_call env ctx fence rec' phase step w in
           case engine_settle env repo e ctx fence rec' result' phase outcome (cnt, p, w') of
             (Again rec'' result'', st') \<Rightarrow> engine_loop env repo e ctx fence n rec'' result'' st'
           | (Finish result'' err, st') \<Rightarrow> (Some (Returned result'' err), st')
           | (_, st') \<Rightarrow> (Some Panicked, st')))"

definition join_errors :: "goerr option \<Rightarrow> goerr option \<Rightarrow> goerr option" where
  "join_errors a b = (case (a, b) of (None, None) \<Rightarrow> None
     | (Some x, None) \<Rightarrow> Some (Joined [x]) | (None, Some y) \<Rightarrow> Some (Joined [y])
     | (Some x, Some y) \<Rightarrow> Some (Joined [x, y]))"

text \<open>\<open>Run\<close> under the lease.\<close>

definition no_result :: Result where
  "no_result = \<lparr>rs_Record = zero_record, rs_Actions = 0, rs_Compensated = 0\<rparr>"

definition engine_owned ::
  "'w SagaEnv \<Rightarrow> 'p RepositoryI \<Rightarrow> nat \<Rightarrow> Context \<Rightarrow> string \<Rightarrow> u64 \<Rightarrow> 'w SagaEngine \<Rightarrow> ('p, 'w) saga_state \<Rightarrow>
     saga_end option \<times> ('p, 'w) saga_state" where
  "engine_owned env repo fuel ctx id' fence e st = (case loadOrCreate env repo e ctx id' fence st of
     (Err err, st') \<Rightarrow> (Some (Returned no_result (Some err)), st')
   | (Ok rec, st') \<Rightarrow> engine_loop env repo e ctx fence fuel rec (no_result\<lparr>rs_Record := rec\<rparr>) st')"

text \<open>
  \<open>Run\<close>: the checks, the lease, the run under it, and the deferred release, which also happens
  when the run panics.
\<close>

definition engine_Run ::
  "'w SagaEnv \<Rightarrow> ('c, 'l) CoordinatorI \<Rightarrow> 'p RepositoryI \<Rightarrow> nat \<Rightarrow> Context option \<Rightarrow> string \<Rightarrow>
     'w SagaEngine \<Rightarrow> SagaCounters \<times> 'c \<times> 'p \<times> 'w \<Rightarrow>
     saga_end option \<times> SagaCounters \<times> 'c \<times> 'p \<times> 'w" where
  "engine_Run env coord repo fuel ctx id' e st = (case st of (cnt, co, p, w) \<Rightarrow>
     (case ctx of None \<Rightarrow>
        (Some (Returned no_result (Some (Wrapf ''engine, context, or instance ID'' [ErrSagaOption]))), st)
      | Some c \<Rightarrow>
        if \<not> validIdentity id' maxIdentityBytes
        then (Some (Returned no_result (Some (Wrapf ''engine, context, or instance ID'' [ErrSagaOption]))), st)
        else (case sv_cause env w of
          (Some cause, w1) \<Rightarrow> (Some (Returned no_result (Some cause)), cnt, co, p, w1)
        | (None, w1) \<Rightarrow>
          (let (cause, w2) = sv_cause env w1 in
           case ci_TryAcquire coord (run_context c cause)
                  (''saga/'' @ sd_Name (se_definition e) @ ''/'' @ id') (se_leaseTTL e) co of
             (Err err, co1) \<Rightarrow>
               (Some (Returned no_result (Some (Wrapf ''saga: acquire lease'' [err]))), cnt, co1, p, w2)
           | (Ok None, co1) \<Rightarrow>
               (Some (Returned no_result (Some ErrContended)), count sc_contended_update cnt, co1, p, w2)
           | (Ok (Some l), co1) \<Rightarrow>
             (let (fin, cnt2, p2, w3) = engine_owned env repo fuel c id' (ci_Fence coord l co1) e
                    (count sc_started_update (cnt\<lparr>sc_active := sc_active cnt + 1\<rparr>), p, w2);
                  (releaseErr, co2) = ci_Release coord (Some Background) l co1 in
              (case fin of Some (Returned result err) \<Rightarrow> Some (Returned result (join_errors err releaseErr))
                 | other \<Rightarrow> other,
               cnt2\<lparr>sc_active := sc_active cnt2 - 1\<rparr>, co2, p2, w3))))))"

record SagaDescription =
  sgd_Active :: int
  sgd_Started :: u64
  sgd_Completed :: u64
  sgd_Compensated :: u64
  sgd_TerminalFailures :: u64
  sgd_Contended :: u64
  sgd_ActionFailures :: u64
  sgd_CompensationFailures :: u64
  sgd_LeaseLosses :: u64
  sgd_RepositoryFailures :: u64

definition Engine_Description :: "SagaCounters option \<Rightarrow> SagaDescription" where
  "Engine_Description engine = (let c = (case engine of None \<Rightarrow> zero_counters | Some c \<Rightarrow> c) in
     \<lparr>sgd_Active = sc_active c, sgd_Started = sc_started c, sgd_Completed = sc_completed c,
      sgd_Compensated = sc_compensated c, sgd_TerminalFailures = sc_terminalFailures c,
      sgd_Contended = sc_contended c, sgd_ActionFailures = sc_actionFailures c,
      sgd_CompensationFailures = sc_compensationFailures c, sgd_LeaseLosses = sc_leaseLosses c,
      sgd_RepositoryFailures = sc_repositoryFailures c\<rparr>)"

end
