(* ===== verification/Saga_Order.thy ===== *)
theory Saga_Order
  imports Saga
begin

text \<open>
  Correctness of sagas. The contract of a repository is the locale \<open>saga_repository\<close>, which the
  memory repository implements. Engines that run concurrently on one repository, with owners
  that lose their lease at any moment, are interleaved at their handler calls; the order of
  actions and compensations, the meaning of the terminal states and their stability hold for
  every interleaving. A single run returns after a number of turns bounded by the step count.
\<close>

section \<open>The contract of a repository\<close>

text \<open>A write that the repository accepted, on top of the revision it was based on.\<close>

definition touch :: "go_time \<Rightarrow> SagaRecord \<Rightarrow> SagaRecord" where
  "touch now r = r\<lparr>sg_UpdatedAt := now, sg_Revision := sg_Revision r + 1\<rparr>"

lemma touch_simps [simp]:
  "sg_ID (touch now r) = sg_ID r" "sg_Status (touch now r) = sg_Status r"
  "sg_NextStep (touch now r) = sg_NextStep r" "sg_CompensationIndex (touch now r) = sg_CompensationIndex r"
  "sg_Attempt (touch now r) = sg_Attempt r" "sg_Revision (touch now r) = sg_Revision r + 1"
  by (simp_all add: touch_def)

definition wrote ::
  "('p \<Rightarrow> string \<Rightarrow> SagaRecord option) \<Rightarrow> 'p \<Rightarrow> SagaRecord \<Rightarrow> SagaRecord \<Rightarrow> 'p \<Rightarrow> bool" where
  "wrote stored p rec r p' \<longleftrightarrow> (\<exists>now current. r = touch now rec \<and> stored p (sg_ID rec) = Some current \<and>
     sg_Revision current = sg_Revision rec \<and> stored p' = (stored p)(sg_ID rec \<mapsto> r))"

locale saga_repository =
  fixes repo :: "'p RepositoryI" and stored :: "'p \<Rightarrow> string \<Rightarrow> SagaRecord option"
  assumes load_ok: "rp_Load repo ctx id' p = (Ok r, p') \<Longrightarrow> stored p' = stored p \<and> stored p id' = Some r"
    and load_err: "rp_Load repo ctx id' p = (Err e, p') \<Longrightarrow> stored p' = stored p"
    and create_ok: "rp_Create repo ctx rec fence p = (Ok r, p') \<Longrightarrow>
      r = rec\<lparr>sg_Revision := 1\<rparr> \<and> stored p (sg_ID rec) = None \<and> stored p' = (stored p)(sg_ID rec \<mapsto> r)"
    and create_err: "rp_Create repo ctx rec fence p = (Err e, p') \<Longrightarrow> stored p' = stored p"
    and save_ok: "rp_Save repo ctx rec expected fence p = (Ok r, p') \<Longrightarrow>
      r = rec\<lparr>sg_Revision := expected + 1\<rparr> \<and> stored p' = (stored p)(sg_ID rec \<mapsto> r) \<and>
      (\<exists>current. stored p (sg_ID rec) = Some current \<and> sg_Revision current = expected)"
    and save_err: "rp_Save repo ctx rec expected fence p = (Err e, p') \<Longrightarrow> stored p' = stored p"
begin

lemma engine_save_cases:
  assumes "engine_save env repo ctx rec fence (cnt, p, w) = (res, cnt', p', w')"
  obtains (err) e where "res = Err e" and "stored p' = stored p"
  | (ok) r where "res = Ok r" and "wrote stored p rec r p'"
proof (cases res)
  case (Inl e)
  then show ?thesis using assms err
    by (auto simp: engine_save_def split: prod.splits sum.splits dest: save_err)
next
  case (Inr r)
  then have "wrote stored p rec r p'"
    using assms by (auto simp: engine_save_def wrote_def touch_def split: prod.splits sum.splits dest!: save_ok)
  with Inr ok show ?thesis by blast
qed

lemma saved_turn_cases:
  assumes "saved_turn result cont upd (engine_save env repo ctx rec fence (cnt, p, w)) = (t, cnt', p', w')"
  obtains (stop) err where "t = Finish result (Some err)" and "stored p' = stored p"
  | (written) r where "t = cont r" and "wrote stored p rec r p'"
proof -
  obtain res c q v where s: "engine_save env repo ctx rec fence (cnt, p, w) = (res, c, q, v)"
    by (metis prod_cases4)
  then show ?thesis
  proof (cases rule: engine_save_cases)
    case err
    with assms s stop show ?thesis by (auto simp: saved_turn_def)
  next
    case ok
    with assms s written show ?thesis by (auto simp: saved_turn_def)
  qed
qed

end

text \<open>
  The records an engine may write when it is at the top of its loop with \<open>rec\<close>, and the record
  and turn that follow.
\<close>

inductive prepares :: "'w SagaEngine \<Rightarrow> SagaRecord \<Rightarrow> Result \<Rightarrow> SagaRecord \<Rightarrow> (SagaRecord \<Rightarrow> 'w saga_turn) \<Rightarrow> bool"
  for e rec result where
  complete: "sg_Status rec = StatusRunning \<Longrightarrow> sg_NextStep rec \<ge> int (length (sd_Steps (se_definition e))) \<Longrightarrow>
    prepares e rec result (rec\<lparr>sg_Status := StatusCompleted, sg_Attempt := 0\<rparr>) (\<lambda>r. Again r result)"
| act: "sg_Status rec = StatusRunning \<Longrightarrow> step_at e (sg_NextStep rec) = Some step \<Longrightarrow>
    prepares e rec result (rec\<lparr>sg_Attempt := sg_Attempt rec + 1\<rparr>) (\<lambda>r. Call r result PhaseAction step)"
| compensated: "sg_Status rec = StatusCompensating \<Longrightarrow> sg_CompensationIndex rec < 0 \<Longrightarrow>
    prepares e rec result (rec\<lparr>sg_Status := StatusCompensated, sg_Attempt := 0\<rparr>) (\<lambda>r. Again r result)"
| skip: "sg_Status rec = StatusCompensating \<Longrightarrow> step_at e (sg_CompensationIndex rec) = Some step \<Longrightarrow>
    st_Compensate step = None \<Longrightarrow>
    prepares e rec result (rec\<lparr>sg_CompensationIndex := sg_CompensationIndex rec - 1, sg_Attempt := 0\<rparr>)
      (\<lambda>r. Again r result)"
| compensate: "sg_Status rec = StatusCompensating \<Longrightarrow> step_at e (sg_CompensationIndex rec) = Some step \<Longrightarrow>
    st_Compensate step \<noteq> None \<Longrightarrow>
    prepares e rec result (rec\<lparr>sg_Attempt := sg_Attempt rec + 1\<rparr>) (\<lambda>r. Call r result PhaseCompensation step)"

inductive settles ::
  "'w SagaEngine \<Rightarrow> SagaRecord \<Rightarrow> Phase \<Rightarrow> goerr option \<Rightarrow> SagaRecord \<Rightarrow> (SagaRecord \<Rightarrow> 'w saga_turn) \<Rightarrow> bool"
  for e rec where
  action_failed: "settles e rec PhaseAction (Some err) (rec\<lparr>sg_Status := StatusCompensating,
    sg_CompensationIndex := sg_NextStep rec - 1, sg_Attempt := 0, sg_FailureReason := reason,
    sg_CauseReason := reason\<rparr>) (\<lambda>r. Again r result)"
| action_done: "settles e rec PhaseAction None (rec\<lparr>sg_NextStep := sg_NextStep rec + 1, sg_Attempt := 0,
    sg_FailureReason := []\<rparr>) (\<lambda>r. Again r (result\<lparr>rs_Record := r\<rparr>))"
| compensation_failed: "settles e rec PhaseCompensation (Some err) (rec\<lparr>sg_FailureReason := reason\<rparr>)
    (\<lambda>r. Finish (result\<lparr>rs_Record := r\<rparr>) (final r))"
| compensation_exhausted: "sg_Attempt rec \<ge> se_maxCompensationAttempts e \<Longrightarrow>
    settles e rec PhaseCompensation (Some err) (rec\<lparr>sg_FailureReason := reason, sg_Status := StatusFailed\<rparr>)
      (\<lambda>r. Finish (result\<lparr>rs_Record := r\<rparr>) (final r))"
| compensation_done: "settles e rec PhaseCompensation None (rec\<lparr>sg_CompensationIndex :=
    sg_CompensationIndex rec - 1, sg_Attempt := 0, sg_FailureReason := sg_CauseReason rec\<rparr>)
    (\<lambda>r. Again r (result\<lparr>rs_Record := r\<rparr>))"

lemma step_at_None: "step_at e i = None \<longleftrightarrow> i < 0 \<or> int (length (sd_Steps (se_definition e))) \<le> i"
  by (auto simp: step_at_def)

context saga_repository
begin

lemma engine_prepare_cases:
  assumes prep: "engine_prepare env repo e ctx fence rec result (cnt, p, w) = (t, cnt', p', w')"
  obtains (stop) res err where "t = Finish res err" and "stored p' = stored p"
  | (crash) "t = Crash" and "stored p' = stored p"
    and "sg_Status rec = StatusRunning \<and> sg_NextStep rec < 0 \<or> sg_Status rec = StatusCompensating \<and>
      sg_CompensationIndex rec \<ge> int (length (sd_Steps (se_definition e)))"
  | (written) rec' cont r where "prepares e rec result rec' cont" and "t = cont r" and "wrote stored p rec' r p'"
proof -
  obtain cause w1 where cause: "sv_cause env w = (cause, w1)" by force
  have sv: thesis if "saved_turn result cont upd (engine_save env repo ctx rec' fence (cnt, p, w1)) =
      (t, cnt', p', w')" "prepares e rec result rec' cont" for cont upd rec'
    using that(1) by (cases rule: saved_turn_cases) (use that(2) stop written in blast)+
  show ?thesis
  proof (cases "cause = None \<and> (sg_Status rec = StatusRunning \<or> sg_Status rec = StatusCompensating)")
    case False
    then have "\<exists>res err. t = Finish res err \<and> stored p' = stored p" using prep cause
      by (auto simp: engine_prepare_def split: option.splits SagaStatus.splits)
    with stop show ?thesis by blast
  next
    case True
    then show ?thesis
    proof (cases "sg_Status rec")
      case StatusRunning
      with True prep cause have "prepare_running env repo e ctx fence rec result (cnt, p, w1) = (t, cnt', p', w')"
        by (simp add: engine_prepare_def)
      with StatusRunning show ?thesis unfolding prepare_running_def
        by (auto simp: step_at_None split: if_splits option.splits intro: prepares.intros sv crash)
    next
      case StatusCompensating
      with True prep cause have "prepare_compensating env repo e ctx fence rec result (cnt, p, w1) =
          (t, cnt', p', w')"
        by (simp add: engine_prepare_def)
      with StatusCompensating show ?thesis unfolding prepare_compensating_def
        by (auto simp: step_at_None split: if_splits option.splits intro: prepares.intros sv crash)
    qed simp_all
  qed
qed

lemma settle_compensation_cases:
  assumes settle: "settle_compensation env repo e ctx fence rec result (Some err) (cnt, p, w) = (t, cnt', p', w')"
  obtains (stop) res err where "t = Finish res err" and "stored p' = stored p"
  | (written) rec' cont r where "settles e rec PhaseCompensation (Some err) rec' cont" and "t = cont r"
    and "wrote stored p rec' r p'"
proof -
  obtain cause w1 where cause: "sv_cause env w = (cause, w1)" by force
  define rec' where "rec' = (if sg_Attempt rec \<ge> se_maxCompensationAttempts e
    then rec\<lparr>sg_FailureReason := failureReason e err, sg_Status := StatusFailed\<rparr>
    else rec\<lparr>sg_FailureReason := failureReason e err\<rparr>)"
  obtain res c q v where s: "engine_save env repo ctx rec' fence (count sc_compensationFailures_update cnt, p, w1)
      = (res, c, q, v)"
    by (metis prod_cases4)
  let ?final = "\<lambda>r. if sg_Status r = StatusFailed then Some (Joined [ErrFailed, err])
    else Some (Wrapf ''saga: compensate step'' [err])"
  have spec: "settles e rec PhaseCompensation (Some err) rec' (\<lambda>r. Finish (result\<lparr>rs_Record := r\<rparr>) (?final r))"
    unfolding rec'_def using compensation_failed [of e rec err _ result ?final]
      compensation_exhausted [of e rec err _ result ?final] by simp
  show ?thesis
  proof (cases cause)
    case (Some c)
    with settle cause have "t = Finish result (Some c)" "p' = p" by (auto simp: settle_compensation_def)
    with stop show ?thesis by blast
  next
    case None
    from s show ?thesis
    proof (cases rule: engine_save_cases)
      case (err e')
      with settle cause None s have "t = Finish (result\<lparr>rs_Record := zero_record\<rparr>) (Some e')" "p' = q"
        by (auto simp: settle_compensation_def rec'_def cong: if_cong)
      with err stop show ?thesis by blast
    next
      case (ok r)
      with settle cause None s have "t = Finish (result\<lparr>rs_Record := r\<rparr>) (?final r)" "p' = q"
        by (auto simp: settle_compensation_def rec'_def cong: if_cong split: if_splits)
      with ok spec written show ?thesis by blast
    qed
  qed
qed

lemma engine_settle_cases:
  assumes settle: "engine_settle env repo e ctx fence rec result phase outcome (cnt, p, w) = (t, cnt', p', w')"
  obtains (stop) res err where "t = Finish res err" and "stored p' = stored p"
  | (written) rec' cont r where "settles e rec phase outcome rec' cont" and "t = cont r"
    and "wrote stored p rec' r p'"
proof -
  have sv: thesis if "saved_turn res cont upd (engine_save env repo ctx rec' fence (c, p, w1)) =
      (t, cnt', p', w')" "settles e rec phase outcome rec' cont" for res cont upd rec' w1 c
    using that(1) by (cases rule: saved_turn_cases) (use that(2) stop written in blast)+
  show ?thesis
  proof (cases phase; cases outcome)
    fix err
    assume p: "phase = PhaseAction" and o: "outcome = Some err"
    obtain cause w1 where cause: "sv_cause env w = (cause, w1)" by force
    show ?thesis
    proof (cases cause)
      case (Some c)
      with settle cause p o have "t = Finish result (Some c)" "p' = p"
        by (auto simp: engine_settle_def settle_action_def)
      with stop show ?thesis by blast
    next
      case None
      with settle cause p o show ?thesis
        by (auto simp: engine_settle_def settle_action_def intro: sv action_failed)
    qed
  next
    assume "phase = PhaseAction" and "outcome = None"
    with settle show ?thesis
      by (auto simp: engine_settle_def settle_action_def Let_def intro: sv action_done)
  next
    fix err
    assume p: "phase = PhaseCompensation" and o: "outcome = Some err"
    with settle have "settle_compensation env repo e ctx fence rec result (Some err) (cnt, p, w) = (t, cnt', p', w')"
      by (simp add: engine_settle_def)
    then show ?thesis
      by (cases rule: settle_compensation_cases) (use p o stop written in blast)+
  next
    assume "phase = PhaseCompensation" and "outcome = None"
    with settle show ?thesis
      by (auto simp: engine_settle_def settle_compensation_def Let_def intro: sv compensation_done)
  qed
qed

lemma loadOrCreate_cases:
  assumes load: "loadOrCreate env repo e ctx id' fence (cnt, p, w) = (res, cnt', p', w')"
  obtains (err) err where "res = Err err" and "stored p' = stored p"
  | (loaded) r where "res = Ok r" and "stored p' = stored p" and "stored p id' = Some r"
  | (created) r where "sg_ID r = id'" and "sg_Status r = StatusRunning" and "sg_NextStep r = 0"
    and "sg_CompensationIndex r = - 1" and "stored p id' = None" and "stored p' = (stored p)(id' \<mapsto> r)"
    and "sg_Revision r = 1"
    and "\<And>r'. res = Ok r' \<Longrightarrow> r' = r"
proof -
  obtain cause w1 where cause: "sv_cause env w = (cause, w1)" by force
  obtain ld p1 where ld: "rp_Load repo (run_context ctx cause) id' p = (ld, p1)" by force
  obtain now w2 where now: "sv_clock env w1 = (now, w2)" by force
  obtain cause' w3 where cause': "sv_cause env w2 = (cause', w3)" by force
  let ?new = "zero_record\<lparr>sg_ID := id', sg_Definition := sd_Name (se_definition e),
    sg_Version := sd_Version (se_definition e), sg_Status := StatusRunning,
    sg_CompensationIndex := - 1, sg_UpdatedAt := now\<rparr>"
  obtain cr p2 where cr: "rp_Create repo (run_context ctx cause') ?new fence p1 = (cr, p2)" by force
  show ?thesis
  proof (cases ld)
    case (Inr r)
    with load cause ld have "p' = p1" and "(\<exists>e. res = Err e) \<or> res = Ok r"
      by (auto simp: loadOrCreate_def Let_def split: if_splits option.splits)
    moreover have "stored p1 = stored p" and "stored p id' = Some r" using load_ok ld Inr by blast+
    ultimately show ?thesis using err loaded by metis
  next
    case (Inl x)
    with ld load_err have p1: "stored p1 = stored p" by blast
    show ?thesis
    proof (cases "errors_Is x ErrSagaNotFound")
      case False
      with Inl load cause ld have "p' = p1" and "\<exists>e. res = Err e" by (auto simp: loadOrCreate_def Let_def)
      with p1 err show ?thesis by metis
    next
      case True
      show ?thesis
      proof (cases cr)
        case e: (Inl y)
        with True Inl load cause ld now cause' cr have "p' = p2" and "\<exists>e. res = Err e"
          by (auto simp: loadOrCreate_def Let_def)
        moreover have "stored p2 = stored p" using create_err cr e p1 by metis
        ultimately show ?thesis using err by metis
      next
        case (Inr r)
        with create_ok [of "run_context ctx cause'" ?new fence p1 r p2] cr
        have c: "r = ?new\<lparr>sg_Revision := 1\<rparr>" "stored p1 id' = None" "stored p2 = (stored p1)(id' \<mapsto> r)"
          by simp_all
        have "p' = p2" and "\<And>r'. res = Ok r' \<Longrightarrow> r' = r"
          using True Inl Inr load cause ld now cause' cr
          by (auto simp: loadOrCreate_def Let_def split: if_splits option.splits)
        with c p1 show ?thesis by (intro created [of r]) (simp_all add: zero_record_def)
      qed
    qed
  qed
qed

end

interpretation memory_saga: saga_repository memory_repository "\<lambda>r. gm_get (sp_records r)"
  by unfold_locales
    (auto simp: memory_repository_def Repository_Load_def Repository_Create_def Repository_Save_def Let_def
      gm_get_put fun_eq_iff split: option.splits if_splits)

section \<open>Concurrent engines\<close>

text \<open>
  Owners of sagas on one repository. An owner starts by loading or creating its instance, then
  takes turns: up to a handler call, and from the outcome of that call on. Any number of owners
  may work on the same instance with any fences, and each observation of the context, of the
  clock and each outcome is arbitrary. \<open>Ended\<close> owners have returned. The log has the handler
  calls and their outcomes.
\<close>

datatype saga_event =
  Invoked string Phase int
| Outcome string Phase int "goerr option"

datatype saga_pc = AtTop SagaRecord Result | InCall SagaRecord Result Phase | Ended

record 'p SagaSystem =
  ss_repo :: 'p
  ss_owners :: "(u64 \<times> saga_pc) list"
  ss_log :: "saga_event list"

datatype saga_op =
  SStart "unit SagaEnv" Context string u64
| SPrepare nat "unit SagaEnv" Context
| SReturn nat "unit SagaEnv" Context "goerr option"

definition position :: "Phase \<Rightarrow> SagaRecord \<Rightarrow> int" where
  "position phase r = (case phase of PhaseAction \<Rightarrow> sg_NextStep r | PhaseCompensation \<Rightarrow> sg_CompensationIndex r)"

fun resume :: "unit saga_turn \<Rightarrow> saga_pc" where
  "resume (Again r res) = AtTop r res"
| "resume (Call r res phase step) = InCall r res phase"
| "resume _ = Ended"

fun calls :: "unit saga_turn \<Rightarrow> saga_event list" where
  "calls (Call r res phase step) = [Invoked (sg_ID r) phase (position phase r)]"
| "calls _ = []"

fun saga_step ::
  "'p RepositoryI \<Rightarrow> unit SagaEngine \<Rightarrow> 'p SagaSystem \<Rightarrow> saga_op \<Rightarrow> 'p SagaSystem" where
  "saga_step repo e s (SStart env ctx id' fence) =
     (case loadOrCreate env repo e ctx id' fence (zero_counters, ss_repo s, ()) of
        (Err _, _, p, _) \<Rightarrow> s\<lparr>ss_repo := p\<rparr>
      | (Ok r, _, p, _) \<Rightarrow> s\<lparr>ss_repo := p, ss_owners := ss_owners s @ [(fence, AtTop r (no_result\<lparr>rs_Record := r\<rparr>))]\<rparr>)"
| "saga_step repo e s (SPrepare i env ctx) =
     (if i < length (ss_owners s) then (case ss_owners s ! i of
        (fence, AtTop r res) \<Rightarrow>
          (case engine_prepare env repo e ctx fence r res (zero_counters, ss_repo s, ()) of
             (t, _, p, _) \<Rightarrow> s\<lparr>ss_repo := p, ss_owners := (ss_owners s)[i := (fence, resume t)],
               ss_log := ss_log s @ calls t\<rparr>)
      | _ \<Rightarrow> s) else s)"
| "saga_step repo e s (SReturn i env ctx outcome) =
     (if i < length (ss_owners s) then (case ss_owners s ! i of
        (fence, InCall r res phase) \<Rightarrow>
          (case engine_settle env repo e ctx fence r res phase outcome (zero_counters, ss_repo s, ()) of
             (t, _, p, _) \<Rightarrow> s\<lparr>ss_repo := p, ss_owners := (ss_owners s)[i := (fence, resume t)],
               ss_log := ss_log s @ [Outcome (sg_ID r) phase (position phase r) outcome]\<rparr>)
      | _ \<Rightarrow> s) else s)"

definition saga_init :: "'p \<Rightarrow> 'p SagaSystem" where
  "saga_init p = \<lparr>ss_repo = p, ss_owners = [], ss_log = []\<rparr>"

section \<open>What the log justifies\<close>

text \<open>
  \<open>acted\<close>: the actions before step \<open>n\<close> have all succeeded. \<open>undone\<close>: the compensations of the
  steps above \<open>k\<close> and below \<open>n\<close>, where there are any, have succeeded. \<open>aborted\<close>: the action of
  step \<open>n\<close> has failed.
\<close>

definition acted :: "saga_event list \<Rightarrow> string \<Rightarrow> int \<Rightarrow> bool" where
  "acted log' id' n \<longleftrightarrow> (\<forall>k. 0 \<le> k \<and> k < n \<longrightarrow> Outcome id' PhaseAction k None \<in> set log')"

definition undone :: "unit SagaStep list \<Rightarrow> saga_event list \<Rightarrow> string \<Rightarrow> int \<Rightarrow> int \<Rightarrow> bool" where
  "undone steps log' id' k n \<longleftrightarrow> (\<forall>j. k < j \<and> 0 \<le> j \<and> j < n \<longrightarrow>
     st_Compensate (steps ! nat j) = None \<or> Outcome id' PhaseCompensation j None \<in> set log')"

definition aborted :: "saga_event list \<Rightarrow> string \<Rightarrow> int \<Rightarrow> bool" where
  "aborted log' id' n \<longleftrightarrow> (\<exists>err. Outcome id' PhaseAction n (Some err) \<in> set log')"

text \<open>A record whose position is explained by the log.\<close>

definition justified :: "unit SagaStep list \<Rightarrow> saga_event list \<Rightarrow> SagaRecord \<Rightarrow> bool" where
  "justified steps log' r \<longleftrightarrow> 0 \<le> sg_NextStep r \<and> sg_NextStep r \<le> int (length steps) \<and>
     acted log' (sg_ID r) (sg_NextStep r) \<and>
     (sg_Status r = StatusCompleted \<longrightarrow> sg_NextStep r = int (length steps)) \<and>
     (sg_Status r \<in> {StatusCompensating, StatusCompensated, StatusFailed} \<longrightarrow>
        sg_CompensationIndex r < sg_NextStep r \<and> sg_NextStep r < int (length steps) \<and>
        aborted log' (sg_ID r) (sg_NextStep r) \<and>
        undone steps log' (sg_ID r) (sg_CompensationIndex r) (sg_NextStep r)) \<and>
     (sg_Status r = StatusCompensated \<longrightarrow> sg_CompensationIndex r < 0)"

text \<open>A call that the log before it allows.\<close>

fun allowed :: "unit SagaStep list \<Rightarrow> saga_event list \<Rightarrow> saga_event \<Rightarrow> bool" where
  "allowed steps log' (Invoked id' PhaseAction k) \<longleftrightarrow> acted log' id' k"
| "allowed steps log' (Invoked id' PhaseCompensation k) \<longleftrightarrow>
     (\<exists>n. k < n \<and> acted log' id' n \<and> aborted log' id' n \<and> undone steps log' id' k n)"
| "allowed steps log' (Outcome id' phase k err) \<longleftrightarrow> True"

definition ordered :: "unit SagaStep list \<Rightarrow> saga_event list \<Rightarrow> bool" where
  "ordered steps log' \<longleftrightarrow> (\<forall>i < length log'. allowed steps (take i log') (log' ! i))"

lemma log_mono:
  "acted log' id' n \<Longrightarrow> acted (log' @ ev) id' n"
  "aborted log' id' n \<Longrightarrow> aborted (log' @ ev) id' n"
  "undone steps log' id' k n \<Longrightarrow> undone steps (log' @ ev) id' k n"
  by (auto simp: acted_def aborted_def undone_def)

lemma justified_mono: "justified steps log' r \<Longrightarrow> justified steps (log' @ ev) r"
  by (auto simp: justified_def intro: log_mono)

lemma justified_touch [simp]: "justified steps log' (touch now r) \<longleftrightarrow> justified steps log' r"
  by (simp add: justified_def)

lemma ordered_append: "ordered steps (log' @ [ev]) \<longleftrightarrow> ordered steps log' \<and> allowed steps log' ev"
  by (auto simp: ordered_def nth_append less_Suc_eq)

lemma undone_pred:
  "undone steps log' id' (k - 1) n \<longleftrightarrow> undone steps log' id' k n \<and> (0 \<le> k \<and> k < n \<longrightarrow>
     st_Compensate (steps ! nat k) = None \<or> Outcome id' PhaseCompensation k None \<in> set log')"
proof -
  have eq: "k - 1 < j \<longleftrightarrow> j = k \<or> k < j" for j :: int by linarith
  show ?thesis unfolding undone_def eq by auto
qed

lemma step_at_nth: "step_at e i = Some step \<Longrightarrow> 0 \<le> i \<and> i < int (length (sd_Steps (se_definition e))) \<and>
    sd_Steps (se_definition e) ! nat i = step"
  by (auto simp: step_at_def split: if_splits)

lemma prepares_justified:
  assumes "prepares e rec res rec' cont" and "justified (sd_Steps (se_definition e)) log' rec"
  shows "justified (sd_Steps (se_definition e)) log' rec'"
  using assms(1)
proof cases
  case (skip step)
  with assms(2) step_at_nth [OF skip(4)] show ?thesis
    by (auto simp: justified_def undone_pred)
qed (use assms(2) in \<open>auto simp: justified_def\<close>)

lemma settles_justified:
  assumes "settles e rec phase outcome rec' cont" and "justified steps log' rec"
    and "sg_Status rec = (case phase of PhaseAction \<Rightarrow> StatusRunning | PhaseCompensation \<Rightarrow> StatusCompensating)"
    and "0 \<le> position phase rec" and "position phase rec < int (length steps)"
  shows "justified steps (log' @ [Outcome (sg_ID rec) phase (position phase rec) outcome]) rec'"
  using assms(1)
proof cases
  case (action_failed err reason result)
  with assms(2-5) show ?thesis
    by (auto simp: justified_def acted_def undone_def aborted_def position_def)
next
  case (action_done result)
  with assms(2-5) show ?thesis
    by (auto simp: justified_def acted_def position_def)
next
  case (compensation_failed err reason result final)
  with assms(2-5) show ?thesis
    by (auto simp: justified_def position_def intro: log_mono)
next
  case (compensation_exhausted err reason result final)
  with assms(2-5) show ?thesis
    by (auto simp: justified_def position_def intro: log_mono)
next
  case (compensation_done result)
  with assms(2-5) show ?thesis
    by (auto simp: justified_def undone_pred position_def intro: log_mono)
qed

section \<open>The invariant\<close>

text \<open>
  A record an owner holds is justified and not newer than the stored one; it is the stored one
  when it has the same revision.
\<close>

definition based ::
  "unit SagaStep list \<Rightarrow> saga_event list \<Rightarrow> (string \<Rightarrow> SagaRecord option) \<Rightarrow> SagaRecord \<Rightarrow> bool" where
  "based steps log' m r \<longleftrightarrow> justified steps log' r \<and> (\<exists>current. m (sg_ID r) = Some current \<and>
     unat (sg_Revision r) \<le> unat (sg_Revision current) \<and> (sg_Revision r = sg_Revision current \<longrightarrow> r = current))"

fun pc_ok ::
  "unit SagaStep list \<Rightarrow> saga_event list \<Rightarrow> (string \<Rightarrow> SagaRecord option) \<Rightarrow> saga_pc \<Rightarrow> bool" where
  "pc_ok steps log' m (AtTop r res) \<longleftrightarrow> based steps log' m r"
| "pc_ok steps log' m (InCall r res phase) \<longleftrightarrow> based steps log' m r \<and> 0 \<le> position phase r \<and>
     position phase r < int (length steps) \<and>
     sg_Status r = (case phase of PhaseAction \<Rightarrow> StatusRunning | PhaseCompensation \<Rightarrow> StatusCompensating)"
| "pc_ok steps log' m Ended \<longleftrightarrow> True"

definition records_ok :: "unit SagaStep list \<Rightarrow> saga_event list \<Rightarrow> (string \<Rightarrow> SagaRecord option) \<Rightarrow> bool" where
  "records_ok steps log' m \<longleftrightarrow> (\<forall>id' r. m id' = Some r \<longrightarrow> sg_ID r = id' \<and> justified steps log' r)"

definition saga_inv ::
  "('p \<Rightarrow> string \<Rightarrow> SagaRecord option) \<Rightarrow> unit SagaEngine \<Rightarrow> 'p SagaSystem \<Rightarrow> bool" where
  "saga_inv stored e s \<longleftrightarrow> (let steps = sd_Steps (se_definition e); m = stored (ss_repo s) in
     records_ok steps (ss_log s) m \<and> list_all (\<lambda>(f, pc). pc_ok steps (ss_log s) m pc) (ss_owners s) \<and>
     ordered steps (ss_log s))"

text \<open>The 64-bit revisions do not wrap.\<close>

definition saga_guard :: "('p \<Rightarrow> string \<Rightarrow> SagaRecord option) \<Rightarrow> 'p SagaSystem \<Rightarrow> saga_op \<Rightarrow> bool" where
  "saga_guard stored s op \<longleftrightarrow>
     (\<forall>id' r. stored (ss_repo s) id' = Some r \<longrightarrow> unat (sg_Revision r) < 2 ^ 64 - 1)"

lemma based_log: "based steps log' m r \<Longrightarrow> based steps (log' @ ev) m r"
  by (auto simp: based_def intro: justified_mono)

lemma pc_ok_log: "pc_ok steps log' m pc \<Longrightarrow> pc_ok steps (log' @ ev) m pc"
  by (cases pc) (auto intro: based_log)

lemma pc_ok_map:
  assumes "pc_ok steps log' m pc" and "\<And>r. based steps log' m r \<Longrightarrow> based steps log' m' r"
  shows "pc_ok steps log' m' pc"
  using assms by (cases pc) auto

lemma records_ok_log: "records_ok steps log' m \<Longrightarrow> records_ok steps (log' @ ev) m"
  by (auto simp: records_ok_def intro: justified_mono)

lemma records_ok_put:
  "records_ok steps log' m \<Longrightarrow> justified steps log' r \<Longrightarrow> records_ok steps log' (m(sg_ID r \<mapsto> r))"
  by (auto simp: records_ok_def)

lemma based_put_self: "justified steps log' r \<Longrightarrow> based steps log' (m(sg_ID r \<mapsto> r)) r"
  by (simp add: based_def)

text \<open>A write that the repository accepts leaves the other owners behind its new revision.\<close>

lemma based_write:
  assumes "based steps log' m q" and "m (sg_ID r) = Some current"
    and "sg_Revision r = sg_Revision current + 1" and "unat (sg_Revision current) < 2 ^ 64 - 1"
  shows "based steps log' (m(sg_ID r \<mapsto> r)) q"
proof (cases "sg_ID q = sg_ID r")
  case True
  with assms(1,2) have "justified steps log' q" and "unat (sg_Revision q) \<le> unat (sg_Revision current)"
    by (auto simp: based_def)
  moreover have "unat (sg_Revision r) = Suc (unat (sg_Revision current))"
    unfolding assms(3) by (rule unat_u64_Suc [OF assms(4)])
  ultimately show ?thesis using True by (auto simp: based_def)
next
  case False
  with assms(1) show ?thesis by (auto simp: based_def)
qed

lemma based_create:
  assumes "based steps log' m q" and "m id' = None"
  shows "based steps log' (m(id' \<mapsto> r)) q"
  using assms by (auto simp: based_def)

lemma saga_inv_update:
  assumes inv: "saga_inv stored e s" and i: "i < length (ss_owners s)"
    and rec: "records_ok (sd_Steps (se_definition e)) (ss_log s @ ev) (stored p')"
    and pcs: "\<And>r. based (sd_Steps (se_definition e)) (ss_log s @ ev) (stored (ss_repo s)) r \<Longrightarrow>
        based (sd_Steps (se_definition e)) (ss_log s @ ev) (stored p') r"
    and pc: "pc_ok (sd_Steps (se_definition e)) (ss_log s @ ev) (stored p') pc"
    and ord: "ordered (sd_Steps (se_definition e)) (ss_log s @ ev)"
  shows "saga_inv stored e (s\<lparr>ss_repo := p', ss_owners := (ss_owners s)[i := (f, pc)], ss_log := ss_log s @ ev\<rparr>)"
proof -
  have "list_all (\<lambda>(f, pc). pc_ok (sd_Steps (se_definition e)) (ss_log s @ ev) (stored p') pc) (ss_owners s)"
    unfolding list_all_iff
  proof (intro ballI, clarify)
    fix g q
    assume "(g, q) \<in> set (ss_owners s)"
    then have "pc_ok (sd_Steps (se_definition e)) (ss_log s) (stored (ss_repo s)) q"
      using inv by (auto simp: saga_inv_def Let_def list_all_iff)
    then show "pc_ok (sd_Steps (se_definition e)) (ss_log s @ ev) (stored p') q"
      by (rule pc_ok_map [OF pc_ok_log pcs])
  qed
  then show ?thesis
    using rec pc ord by (simp add: saga_inv_def Let_def list_all_update)
qed

context saga_repository
begin

lemma write_inv:
  assumes inv: "saga_inv stored e s" and guard: "saga_guard stored s op" and i: "i < length (ss_owners s)"
    and w: "wrote stored (ss_repo s) rec' r p'"
    and just: "justified (sd_Steps (se_definition e)) (ss_log s @ ev) rec'"
    and pc: "based (sd_Steps (se_definition e)) (ss_log s @ ev) (stored p') r \<Longrightarrow>
      pc_ok (sd_Steps (se_definition e)) (ss_log s @ ev) (stored p') pc"
    and ord: "ordered (sd_Steps (se_definition e)) (ss_log s @ ev)"
  shows "saga_inv stored e (s\<lparr>ss_repo := p', ss_owners := (ss_owners s)[i := (f, pc)], ss_log := ss_log s @ ev\<rparr>)"
proof -
  from w obtain now current where r: "r = touch now rec'" and cur: "stored (ss_repo s) (sg_ID r) = Some current"
    and rev: "sg_Revision r = sg_Revision current + 1" and p': "stored p' = (stored (ss_repo s))(sg_ID r \<mapsto> r)"
    by (auto simp: wrote_def)
  have just_r: "justified (sd_Steps (se_definition e)) (ss_log s @ ev) r" using just r by simp
  have bound: "unat (sg_Revision current) < 2 ^ 64 - 1" using guard cur by (auto simp: saga_guard_def)
  show ?thesis
  proof (rule saga_inv_update [OF inv i _ _ _ ord])
    show "records_ok (sd_Steps (se_definition e)) (ss_log s @ ev) (stored p')"
      unfolding p' by (intro records_ok_put records_ok_log just_r) (use inv in \<open>simp add: saga_inv_def Let_def\<close>)
    show "based (sd_Steps (se_definition e)) (ss_log s @ ev) (stored p') q"
      if "based (sd_Steps (se_definition e)) (ss_log s @ ev) (stored (ss_repo s)) q" for q
      unfolding p' by (rule based_write [OF that cur rev bound])
    show "pc_ok (sd_Steps (se_definition e)) (ss_log s @ ev) (stored p') pc"
      by (rule pc) (simp add: p' based_put_self just_r)
  qed
qed

lemma stop_inv:
  assumes inv: "saga_inv stored e s" and i: "i < length (ss_owners s)" and "stored p' = stored (ss_repo s)"
    and ord: "ordered (sd_Steps (se_definition e)) (ss_log s @ ev)"
  shows "saga_inv stored e (s\<lparr>ss_repo := p', ss_owners := (ss_owners s)[i := (f, Ended)], ss_log := ss_log s @ ev\<rparr>)"
proof (rule saga_inv_update [OF inv i _ _ _ ord])
  have "records_ok (sd_Steps (se_definition e)) (ss_log s) (stored (ss_repo s))"
    using inv by (simp add: saga_inv_def Let_def)
  then show "records_ok (sd_Steps (se_definition e)) (ss_log s @ ev) (stored p')"
    unfolding assms(3) by (rule records_ok_log)
qed (simp_all add: assms(3))

end

lemma prepares_ordered:
  assumes "prepares e rec res rec' cont" and "justified (sd_Steps (se_definition e)) log' rec"
    and "ordered (sd_Steps (se_definition e)) log'"
  shows "ordered (sd_Steps (se_definition e)) (log' @ calls (cont (touch now rec')))"
  using assms(1)
proof cases
  case (act step)
  with assms(2,3) show ?thesis
    by (simp add: ordered_append position_def justified_def)
next
  case (compensate step)
  with assms(2,3) show ?thesis
    by (auto simp: ordered_append position_def justified_def)
qed (use assms(3) in simp_all)

lemma prepares_pc:
  assumes "prepares e rec res rec' cont" and "based (sd_Steps (se_definition e)) log' m (touch now rec')"
  shows "pc_ok (sd_Steps (se_definition e)) log' m (resume (cont (touch now rec')))"
  using assms(1) by cases (use assms(2) in \<open>auto simp: position_def dest!: step_at_nth\<close>)

lemma settles_pc:
  assumes "settles e rec phase outcome rec' cont" and "based steps log' m r"
  shows "pc_ok steps log' m (resume (cont r))"
  using assms(1) by cases (use assms(2) in simp_all)

context saga_repository
begin

lemma owner_ok:
  assumes "saga_inv stored e s" and "i < length (ss_owners s)" and "ss_owners s ! i = (f, pc)"
  shows "pc_ok (sd_Steps (se_definition e)) (ss_log s) (stored (ss_repo s)) pc"
  using assms nth_mem [OF assms(2)] by (fastforce simp: saga_inv_def Let_def list_all_iff)

lemma saga_inv_ordered: "saga_inv stored e s \<Longrightarrow> ordered (sd_Steps (se_definition e)) (ss_log s)"
  by (simp add: saga_inv_def Let_def)

lemma prepare_inv:
  assumes inv: "saga_inv stored e s" and guard: "saga_guard stored s op" and i: "i < length (ss_owners s)"
    and pc: "ss_owners s ! i = (f, AtTop rec res)"
    and prep: "engine_prepare env repo e ctx f rec res (zero_counters, ss_repo s, ()) = (t, cnt', p', w')"
  shows "saga_inv stored e (s\<lparr>ss_repo := p', ss_owners := (ss_owners s)[i := (f, resume t)],
    ss_log := ss_log s @ calls t\<rparr>)"
  using prep
proof (cases rule: engine_prepare_cases)
  case (stop result err)
  with stop_inv [OF inv i stop(2), of "[]" f] saga_inv_ordered [OF inv] show ?thesis by simp
next
  case crash
  with stop_inv [OF inv i crash(2), of "[]" f] saga_inv_ordered [OF inv] show ?thesis by simp
next
  case (written rec' cont r)
  have just: "justified (sd_Steps (se_definition e)) (ss_log s) rec"
    using owner_ok [OF inv i pc] by (simp add: based_def)
  from written(3) obtain now where r: "r = touch now rec'" by (auto simp: wrote_def)
  show ?thesis unfolding written(2)
  proof (rule write_inv [OF inv guard i written(3)])
    show "justified (sd_Steps (se_definition e)) (ss_log s @ calls (cont r)) rec'"
      by (rule justified_mono [OF prepares_justified [OF written(1) just]])
    show "ordered (sd_Steps (se_definition e)) (ss_log s @ calls (cont r))"
      unfolding r by (rule prepares_ordered [OF written(1) just saga_inv_ordered [OF inv]])
    show "pc_ok (sd_Steps (se_definition e)) (ss_log s @ calls (cont r)) (stored p') (resume (cont r))"
      if "based (sd_Steps (se_definition e)) (ss_log s @ calls (cont r)) (stored p') r"
      using prepares_pc [OF written(1) that [unfolded r]] r by simp
  qed
qed

lemma settle_inv:
  assumes inv: "saga_inv stored e s" and guard: "saga_guard stored s op" and i: "i < length (ss_owners s)"
    and pc: "ss_owners s ! i = (f, InCall rec res phase)"
    and settle: "engine_settle env repo e ctx f rec res phase outcome (zero_counters, ss_repo s, ()) =
      (t, cnt', p', w')"
  shows "saga_inv stored e (s\<lparr>ss_repo := p', ss_owners := (ss_owners s)[i := (f, resume t)],
    ss_log := ss_log s @ [Outcome (sg_ID rec) phase (position phase rec) outcome]\<rparr>)"
proof -
  let ?ev = "[Outcome (sg_ID rec) phase (position phase rec) outcome]"
  have ord: "ordered (sd_Steps (se_definition e)) (ss_log s @ ?ev)"
    using saga_inv_ordered [OF inv] by (simp add: ordered_append)
  from settle show ?thesis
  proof (cases rule: engine_settle_cases)
    case (stop result err)
    with stop_inv [OF inv i stop(2) ord, of f] show ?thesis by simp
  next
    case (written rec' cont r)
    from owner_ok [OF inv i pc] have just: "justified (sd_Steps (se_definition e)) (ss_log s @ ?ev) rec'"
      by (intro settles_justified [OF written(1)]) (simp_all add: based_def)
    show ?thesis unfolding written(2)
      by (rule write_inv [OF inv guard i written(3) just settles_pc [OF written(1)] ord])
  qed
qed

lemma start_inv:
  assumes inv: "saga_inv stored e s"
    and load: "loadOrCreate env repo e ctx id' f (zero_counters, ss_repo s, ()) = (res, cnt', p', w')"
  shows "saga_inv stored e (s\<lparr>ss_repo := p'\<rparr>)" and
    "res = Ok r \<Longrightarrow> based (sd_Steps (se_definition e)) (ss_log s) (stored p') r"
proof -
  have rec: "records_ok (sd_Steps (se_definition e)) (ss_log s) (stored (ss_repo s))"
    and own: "list_all (\<lambda>(f, pc). pc_ok (sd_Steps (se_definition e)) (ss_log s) (stored (ss_repo s)) pc) (ss_owners s)"
    using inv by (simp_all add: saga_inv_def Let_def)
  have "saga_inv stored e (s\<lparr>ss_repo := p'\<rparr>) \<and>
    (res = Ok r \<longrightarrow> based (sd_Steps (se_definition e)) (ss_log s) (stored p') r)"
    using load
  proof (cases rule: loadOrCreate_cases)
    case err
    with inv show ?thesis by (simp add: saga_inv_def Let_def)
  next
    case (loaded q)
    with inv rec show ?thesis by (auto simp: saga_inv_def Let_def records_ok_def based_def)
  next
    case (created q)
    then have just: "justified (sd_Steps (se_definition e)) (ss_log s) q"
      by (auto simp: justified_def acted_def)
    have "records_ok (sd_Steps (se_definition e)) (ss_log s) (stored p')"
      using records_ok_put [OF rec just] created by simp
    moreover have "list_all (\<lambda>(f, pc). pc_ok (sd_Steps (se_definition e)) (ss_log s) (stored p') pc) (ss_owners s)"
      using own unfolding created(6) list_all_iff by (auto intro: pc_ok_map based_create [where m = "stored (ss_repo s)", OF _ created(5)])
    moreover have "based (sd_Steps (se_definition e)) (ss_log s) (stored p') q"
      using based_put_self [OF just, of "stored (ss_repo s)"] created by simp
    ultimately show ?thesis
      using inv created(8) by (auto simp: saga_inv_def Let_def)
  qed
  then show "saga_inv stored e (s\<lparr>ss_repo := p'\<rparr>)"
    and "res = Ok r \<Longrightarrow> based (sd_Steps (se_definition e)) (ss_log s) (stored p') r"
    by blast+
qed

lemma saga_step_inv:
  assumes inv: "saga_inv stored e s" and guard: "saga_guard stored s op"
  shows "saga_inv stored e (saga_step repo e s op)"
proof (cases op)
  case (SStart env ctx id' f)
  obtain res c p' w where load: "loadOrCreate env repo e ctx id' f (zero_counters, ss_repo s, ()) = (res, c, p', w)"
    by (metis prod_cases4)
  from start_inv [OF inv load] SStart load show ?thesis
    by (cases res) (auto simp: saga_inv_def Let_def)
next
  case (SPrepare i env ctx)
  show ?thesis
  proof (cases "i < length (ss_owners s) \<and> (\<exists>f r res. ss_owners s ! i = (f, AtTop r res))")
    case True
    then obtain f r res where i: "i < length (ss_owners s)" "ss_owners s ! i = (f, AtTop r res)" by blast
    obtain t c p' w where prep: "engine_prepare env repo e ctx f r res (zero_counters, ss_repo s, ()) = (t, c, p', w)"
      by (metis prod_cases4)
    from prepare_inv [OF inv guard i prep] SPrepare i prep show ?thesis by simp
  next
    case False
    with SPrepare inv show ?thesis by (auto split: prod.splits saga_pc.splits)
  qed
next
  case (SReturn i env ctx outcome)
  show ?thesis
  proof (cases "i < length (ss_owners s) \<and> (\<exists>f r res phase. ss_owners s ! i = (f, InCall r res phase))")
    case True
    then obtain f r res phase where i: "i < length (ss_owners s)" "ss_owners s ! i = (f, InCall r res phase)" by blast
    obtain t c p' w where settle: "engine_settle env repo e ctx f r res phase outcome (zero_counters, ss_repo s, ())
        = (t, c, p', w)"
      by (metis prod_cases4)
    from settle_inv [OF inv guard i settle] SReturn i settle show ?thesis by simp
  next
    case False
    with SReturn inv show ?thesis by (auto split: prod.splits saga_pc.splits)
  qed
qed

lemma saga_init_inv: "stored p = (\<lambda>_. None) \<Longrightarrow> saga_inv stored e (saga_init p)"
  by (simp add: saga_inv_def saga_init_def records_ok_def ordered_def)

end

sublocale saga_repository \<subseteq> sys: guarded_machine "saga_step repo e" "saga_guard stored" "saga_inv stored e" for e
  by unfold_locales (rule saga_step_inv)

lemma prepares_same:
  "prepares e rec res rec' cont \<Longrightarrow> sg_ID rec' = sg_ID rec \<and> sg_Revision rec' = sg_Revision rec \<and>
     \<not> Record_Terminal rec"
  by (erule prepares.cases) (simp_all add: Record_Terminal_def)

lemma settles_same:
  "settles e rec phase outcome rec' cont \<Longrightarrow> sg_ID rec' = sg_ID rec \<and> sg_Revision rec' = sg_Revision rec"
  by (erule settles.cases) simp_all

context saga_repository
begin

lemma write_terminal:
  assumes "based steps log' (stored p) rec" and "\<not> Record_Terminal rec"
    and "sg_ID rec' = sg_ID rec \<and> sg_Revision rec' = sg_Revision rec" and "wrote stored p rec' q p'"
    and "stored p id' = Some r" and "Record_Terminal r"
  shows "stored p' id' = Some r"
  using assms by (auto simp: based_def wrote_def)

lemma terminal_step:
  assumes inv: "saga_inv stored e s" and st: "stored (ss_repo s) id' = Some r" and fin: "Record_Terminal r"
  shows "stored (ss_repo (saga_step repo e s op)) id' = Some r"
proof (cases op)
  case (SStart env ctx key f)
  obtain res c p' w where load: "loadOrCreate env repo e ctx key f (zero_counters, ss_repo s, ()) = (res, c, p', w)"
    by (metis prod_cases4)
  then have "stored p' id' = Some r"
    by (cases rule: loadOrCreate_cases) (use st in auto)
  with SStart load show ?thesis by (cases res) simp_all
next
  case (SPrepare i env ctx)
  show ?thesis
  proof (cases "i < length (ss_owners s) \<and> (\<exists>f r res. ss_owners s ! i = (f, AtTop r res))")
    case True
    then obtain f q res where i: "i < length (ss_owners s)" "ss_owners s ! i = (f, AtTop q res)" by blast
    obtain t c p' w where prep: "engine_prepare env repo e ctx f q res (zero_counters, ss_repo s, ()) = (t, c, p', w)"
      by (metis prod_cases4)
    then have "stored p' id' = Some r"
    proof (cases rule: engine_prepare_cases)
      case (written q' cont q1)
      from owner_ok [OF inv i] prepares_same [OF written(1)] show ?thesis
        by (intro write_terminal [OF _ _ _ written(3) st fin]) auto
    qed (use st in simp_all)
    with SPrepare i prep show ?thesis by simp
  next
    case False
    with SPrepare st show ?thesis by (auto split: prod.splits saga_pc.splits)
  qed
next
  case (SReturn i env ctx outcome)
  show ?thesis
  proof (cases "i < length (ss_owners s) \<and> (\<exists>f r res phase. ss_owners s ! i = (f, InCall r res phase))")
    case True
    then obtain f q res phase where i: "i < length (ss_owners s)" "ss_owners s ! i = (f, InCall q res phase)" by blast
    obtain t c p' w where settle: "engine_settle env repo e ctx f q res phase outcome (zero_counters, ss_repo s, ())
        = (t, c, p', w)"
      by (metis prod_cases4)
    then have "stored p' id' = Some r"
    proof (cases rule: engine_settle_cases)
      case (written q' cont q1)
      from owner_ok [OF inv i] settles_same [OF written(1)] show ?thesis
        by (intro write_terminal [OF _ _ _ written(3) st fin]) (auto simp: Record_Terminal_def split: Phase.splits)
    qed (use st in simp_all)
    with SReturn i settle show ?thesis by simp
  next
    case False
    with SReturn st show ?thesis by (auto split: prod.splits saga_pc.splits)
  qed
qed

lemma terminal_run:
  assumes "saga_inv stored e s" and "run_ok (saga_step repo e) (saga_guard stored) s ops"
    and "stored (ss_repo s) id' = Some r" and "Record_Terminal r"
  shows "stored (ss_repo (run (saga_step repo e) s ops)) id' = Some r"
  using assms
proof (induction ops arbitrary: s)
  case (Cons op ops)
  from Cons.prems have "saga_inv stored e (saga_step repo e s op)"
    and "stored (ss_repo (saga_step repo e s op)) id' = Some r"
    by (auto intro: saga_step_inv terminal_step)
  with Cons.IH Cons.prems show ?case by simp
qed simp

end

text \<open>Each operation raises a revision by one at most, so that no revision wraps in a short history.\<close>

context saga_repository
begin

lemma step_effect:
  obtains (same) "stored (ss_repo (saga_step repo e s op)) = stored (ss_repo s)"
  | (created) id' r where "sg_Revision r = 1"
    and "stored (ss_repo (saga_step repo e s op)) = (stored (ss_repo s))(id' \<mapsto> r)"
  | (written) rec r where "wrote stored (ss_repo s) rec r (ss_repo (saga_step repo e s op))"
proof (cases op)
  case (SStart env ctx key f)
  obtain res c p' w where load: "loadOrCreate env repo e ctx key f (zero_counters, ss_repo s, ()) = (res, c, p', w)"
    by (metis prod_cases4)
  with SStart have "ss_repo (saga_step repo e s op) = p'" by (cases res) simp_all
  with load show ?thesis
    by (cases rule: loadOrCreate_cases) (use same created in auto)
next
  case (SPrepare i env ctx)
  show ?thesis
  proof (cases "i < length (ss_owners s) \<and> (\<exists>f r res. ss_owners s ! i = (f, AtTop r res))")
    case True
    then obtain f q res where i: "i < length (ss_owners s)" "ss_owners s ! i = (f, AtTop q res)" by blast
    obtain t c p' w where prep: "engine_prepare env repo e ctx f q res (zero_counters, ss_repo s, ()) = (t, c, p', w)"
      by (metis prod_cases4)
    with SPrepare i have "ss_repo (saga_step repo e s op) = p'" by simp
    with prep show ?thesis
      by (cases rule: engine_prepare_cases) (use same written in auto)
  next
    case False
    with SPrepare same show ?thesis by (auto split: prod.splits saga_pc.splits)
  qed
next
  case (SReturn i env ctx outcome)
  show ?thesis
  proof (cases "i < length (ss_owners s) \<and> (\<exists>f r res phase. ss_owners s ! i = (f, InCall r res phase))")
    case True
    then obtain f q res phase where i: "i < length (ss_owners s)" "ss_owners s ! i = (f, InCall q res phase)" by blast
    obtain t c p' w where settle: "engine_settle env repo e ctx f q res phase outcome (zero_counters, ss_repo s, ())
        = (t, c, p', w)"
      by (metis prod_cases4)
    with SReturn i have "ss_repo (saga_step repo e s op) = p'" by simp
    with settle show ?thesis
      by (cases rule: engine_settle_cases) (use same written in auto)
  next
    case False
    with SReturn same show ?thesis by (auto split: prod.splits saga_pc.splits)
  qed
qed

lemma step_revision:
  assumes "\<forall>id' r. stored (ss_repo s) id' = Some r \<longrightarrow> unat (sg_Revision r) \<le> n" and "n < 2 ^ 64 - 1"
    and "stored (ss_repo (saga_step repo e s op)) id' = Some r"
  shows "unat (sg_Revision r) \<le> Suc n"
proof (cases rule: step_effect [of e s op])
  case same
  with assms show ?thesis by (simp add: le_SucI)
next
  case (created key q)
  with assms show ?thesis by (auto split: if_splits intro: le_SucI)
next
  case (written rec q)
  then obtain current where "stored (ss_repo s) (sg_ID rec) = Some current" "sg_Revision q = sg_Revision current + 1"
    and st: "stored (ss_repo (saga_step repo e s op)) = (stored (ss_repo s))(sg_ID rec \<mapsto> q)"
    by (auto simp: wrote_def)
  with assms(1,2) have "unat (sg_Revision q) \<le> Suc n"
    using unat_u64_Suc [of "sg_Revision current"] by fastforce
  with assms(1,3) st show ?thesis by (auto split: if_splits intro: le_SucI)
qed

lemma short_run_ok:
  assumes "\<forall>id' r. stored (ss_repo s) id' = Some r \<longrightarrow> unat (sg_Revision r) \<le> n"
    and "n + length ops < 2 ^ 64 - 1"
  shows "run_ok (saga_step repo e) (saga_guard stored) s ops"
  using assms
proof (induction ops arbitrary: s n)
  case (Cons op ops)
  from Cons.prems have guard: "saga_guard stored s op" by (fastforce simp: saga_guard_def)
  from Cons.prems have "\<forall>id' r. stored (ss_repo (saga_step repo e s op)) id' = Some r \<longrightarrow>
      unat (sg_Revision r) \<le> Suc n"
    by (auto intro!: step_revision [of s n])
  with Cons.IH [of "saga_step repo e s op" "Suc n"] Cons.prems(2) guard show ?case by simp
qed simp

end

section \<open>A run returns\<close>

text \<open>
  The turns left to a run: every turn that goes round again moves to the next step, down the
  compensations, or to a terminal state.
\<close>

definition turns_left :: "'w SagaEngine \<Rightarrow> SagaRecord \<Rightarrow> nat" where
  "turns_left e r = (case sg_Status r of
     StatusRunning \<Rightarrow> nat (2 * int (length (sd_Steps (se_definition e))) + 4 - sg_NextStep r)
   | StatusCompensating \<Rightarrow> nat (sg_CompensationIndex r + 3)
   | _ \<Rightarrow> 1)"

definition in_range_record :: "'w SagaEngine \<Rightarrow> SagaRecord \<Rightarrow> bool" where
  "in_range_record e r \<longleftrightarrow> 0 \<le> sg_NextStep r \<and> sg_NextStep r \<le> int (length (sd_Steps (se_definition e))) \<and>
     - 1 \<le> sg_CompensationIndex r \<and> sg_CompensationIndex r < int (length (sd_Steps (se_definition e)))"

text \<open>One turn, the handler call included.\<close>

lemma prepares_progress:
  assumes "prepares e rec res rec' cont" and "in_range_record e rec"
  shows "in_range_record e rec'" and "0 < turns_left e rec"
    and "cont r = Again r res' \<Longrightarrow> turns_left e rec' < turns_left e rec"
    and "cont r = Call r res' phase step \<Longrightarrow> turns_left e rec' = turns_left e rec \<and>
      0 \<le> position phase rec' \<and> position phase rec' < int (length (sd_Steps (se_definition e))) \<and>
      sg_Status rec' = (case phase of PhaseAction \<Rightarrow> StatusRunning | PhaseCompensation \<Rightarrow> StatusCompensating)"
  using assms(1)
  by (cases; use assms(2) in \<open>auto simp: in_range_record_def turns_left_def position_def dest!: step_at_nth\<close>)+

lemma settles_progress:
  assumes "settles e rec phase outcome rec' cont" and "in_range_record e rec"
    and "0 \<le> position phase rec" and "position phase rec < int (length (sd_Steps (se_definition e)))"
    and "sg_Status rec = (case phase of PhaseAction \<Rightarrow> StatusRunning | PhaseCompensation \<Rightarrow> StatusCompensating)"
  shows "in_range_record e rec'" and "cont r = Again r res' \<Longrightarrow> turns_left e rec' < turns_left e rec"
  using assms(1)
  by (cases; use assms(2-5) in \<open>auto simp: in_range_record_def turns_left_def position_def\<close>)+

lemma turns_left_touch [simp]:
  "turns_left e (touch now r) = turns_left e r" "in_range_record e (touch now r) = in_range_record e r"
  "position phase (touch now r) = position phase r"
  by (simp_all add: turns_left_def in_range_record_def position_def split: SagaStatus.splits Phase.splits)

context saga_repository
begin

text \<open>One turn returns, or leaves a record with fewer turns.\<close>

lemma turn_progress:
  assumes range: "in_range_record e rec"
  obtains (returned) res err st' where
    "engine_loop env repo e ctx fence (Suc n) rec result st = (Some (Returned res err), st')"
  | (again) rec' res st' where "in_range_record e rec'" and "turns_left e rec' < turns_left e rec"
    and "engine_loop env repo e ctx fence (Suc n) rec result st = engine_loop env repo e ctx fence n rec' res st'"
proof -
  obtain cnt p w where st: "st = (cnt, p, w)" by (metis prod_cases3)
  obtain t cnt' p' w' where prep: "engine_prepare env repo e ctx fence rec result (cnt, p, w) = (t, cnt', p', w')"
    by (metis prod_cases4)
  then show ?thesis
  proof (cases rule: engine_prepare_cases)
    case (stop res err)
    with prep st returned show ?thesis by simp
  next
    case crash
    with range show ?thesis by (auto simp: in_range_record_def)
  next
    case (written rec1 cont r)
    from written(3) obtain now where r: "r = touch now rec1" by (auto simp: wrote_def)
    note prog = prepares_progress [OF written(1) range]
    show ?thesis
    proof (cases t)
      case (Again r' res')
      with written have "cont r = Again r res'" and "r' = r" by (auto elim: prepares.cases)
      with again [of r res' "(cnt', p', w')"] prog(1) prog(3) r prep st Again show ?thesis by simp
    next
      case (Call r' res' phase step)
      with written have c: "cont r = Call r res' phase step" and r': "r' = r" by (auto elim: prepares.cases)
      obtain outcome w1 where call: "engine_call env ctx fence r phase step w' = (outcome, w1)" by force
      obtain t2 c2 p2 w2 where settle: "engine_settle env repo e ctx fence r res' phase outcome (cnt', p', w1)
          = (t2, c2, p2, w2)"
        by (metis prod_cases4)
      then show ?thesis
      proof (cases rule: engine_settle_cases)
        case (stop res err)
        with prep st Call r' call settle returned show ?thesis by simp
      next
        case w2: (written rec2 cont2 q)
        from w2(3) obtain now2 where q: "q = touch now2 rec2" by (auto simp: wrote_def)
        have prog2: "in_range_record e rec2" "\<And>res. cont2 q = Again q res \<Longrightarrow> turns_left e rec2 < turns_left e r"
          using settles_progress [OF w2(1)] prog(1) prog(4) [OF c] r by auto
        show ?thesis
        proof (cases "\<exists>res. cont2 q = Again q res")
          case True
          then obtain res2 where "cont2 q = Again q res2" by blast
          with again [of q res2 "(c2, p2, w2)"] prog2 prog(4) [OF c] q r w2(2) prep st Call r' call settle
          show ?thesis by simp
        next
          case False
          with w2(1) obtain res2 err where "cont2 q = Finish res2 err" by (auto elim: settles.cases)
          with returned [of res2 err "(c2, p2, w2)"] w2(2) prep st Call r' call settle show ?thesis by simp
        qed
      qed
    qed (use written in \<open>auto elim: prepares.cases\<close>)
  qed
qed

lemma engine_loop_returns:
  assumes "in_range_record e rec" and "turns_left e rec \<le> fuel" and "0 < turns_left e rec"
  shows "\<exists>res err. fst (engine_loop env repo e ctx fence fuel rec result st) = Some (Returned res err)"
  using assms
proof (induction fuel arbitrary: rec result st)
  case (Suc n)
  from Suc.prems(1) show ?case
  proof (cases rule: turn_progress [of e rec env ctx fence n result st])
    case (again rec' res st')
    have "0 < turns_left e rec'"
      using again(1) by (auto simp: turns_left_def in_range_record_def split: SagaStatus.splits)
    with again Suc show ?thesis by simp
  qed (use Suc in auto)
qed simp

end

abbreviation memory_records :: "SagaRepository \<Rightarrow> string \<Rightarrow> SagaRecord option" where
  "memory_records r \<equiv> gm_get (sp_records r)"

definition saga_history :: "unit SagaEngine \<Rightarrow> saga_op list \<Rightarrow> SagaRepository SagaSystem" where
  "saga_history e ops = run (saga_step memory_repository e) (saga_init NewSagaRepository) ops"

lemma saga_history_ok:
  assumes "length ops < 2 ^ 64 - 1"
  shows "run_ok (saga_step memory_repository e) (saga_guard memory_records) (saga_init NewSagaRepository) ops"
  using assms by (intro memory_saga.short_run_ok [of _ 0]) (simp_all add: saga_init_def NewSagaRepository_def)

lemma saga_history_inv:
  assumes "length ops < 2 ^ 64 - 1"
  shows "saga_inv memory_records e (saga_history e ops)"
  unfolding saga_history_def
  by (rule memory_saga.sys.run_inv [OF memory_saga.saga_init_inv saga_history_ok [OF assms]])
    (simp add: NewSagaRepository_def fun_eq_iff)


section \<open>A concrete saga\<close>

definition demo_saga_env :: "unit SagaEnv" where
  "demo_saga_env = \<lparr>sv_cause = (\<lambda>w. (None, w)), sv_stepCause = (\<lambda>w. (None, w)), sv_clock = (\<lambda>w. (1, w)),
     sv_digest = (\<lambda>s. s)\<rparr>"

definition demo_handler :: "unit SagaHandler" where
  "demo_handler ctx call w = (Return None None, w)"

definition demo_engine :: "unit SagaEngine" where
  "demo_engine = \<lparr>se_definition = \<lparr>sd_Name = ''d'', sd_Version = ''1'', sd_Steps =
      [\<lparr>st_Name = ''a'', st_Action = Some demo_handler, st_Compensate = Some demo_handler\<rparr>,
       \<lparr>st_Name = ''b'', st_Action = Some demo_handler, st_Compensate = None\<rparr>]\<rparr>,
     se_leaseTTL = second, se_stepTimeout = second, se_maxCompensationAttempts = 3,
     se_classify = (\<lambda>_. ''x'')\<rparr>"

text \<open>Step 0 succeeds, step 1 fails, step 0 is compensated.\<close>

definition demo_forward :: "saga_op list" where
  "demo_forward = [SStart demo_saga_env Background ''s'' 1, SPrepare 0 demo_saga_env Background,
     SReturn 0 demo_saga_env Background None, SPrepare 0 demo_saga_env Background]"

definition demo_backward :: "saga_op list" where
  "demo_backward = demo_forward @ [SReturn 0 demo_saga_env Background (Some Canceled),
     SPrepare 0 demo_saga_env Background, SReturn 0 demo_saga_env Background None,
     SPrepare 0 demo_saga_env Background]"

lemma demo_ids [simp]:
  "validIdentity ''s'' maxIdentityBytes" "validIdentity ''d'' maxIdentityBytes"
  "validIdentity ''1'' maxIdentityBytes" "validIdentity ''x'' maxIdentityBytes"
  by (simp_all add: validIdentity_graphic byte_of_def maxIdentityBytes_def)

definition demo_record :: "SagaStatus \<Rightarrow> int \<Rightarrow> int \<Rightarrow> int \<Rightarrow> string \<Rightarrow> string \<Rightarrow> u64 \<Rightarrow> SagaRecord" where
  "demo_record status n k a cause reason revision = \<lparr>sg_ID = ''s'', sg_Definition = ''d'', sg_Version = ''1'',
     sg_Status = status, sg_NextStep = n, sg_CompensationIndex = k, sg_Attempt = a, sg_CauseReason = cause,
     sg_FailureReason = reason, sg_Revision = revision, sg_UpdatedAt = 1\<rparr>"

definition demo_repo :: "SagaRecord \<Rightarrow> SagaRepository" where
  "demo_repo r = \<lparr>sp_records = [(''s'', r)], sp_fences = [(''s'', 1)]\<rparr>"

lemma demo_record_simps [simp]:
  "sg_ID (demo_record status n k a cause reason v) = ''s''"
  "sg_Status (demo_record status n k a cause reason v) = status"
  "sg_NextStep (demo_record status n k a cause reason v) = n"
  "sg_CompensationIndex (demo_record status n k a cause reason v) = k"
  "sg_Attempt (demo_record status n k a cause reason v) = a"
  "sg_CauseReason (demo_record status n k a cause reason v) = cause"
  "(demo_record status n k a cause reason v)\<lparr>sg_Status := status'\<rparr> = demo_record status' n k a cause reason v"
  "(demo_record status n k a cause reason v)\<lparr>sg_NextStep := n'\<rparr> = demo_record status n' k a cause reason v"
  "(demo_record status n k a cause reason v)\<lparr>sg_CompensationIndex := k'\<rparr> = demo_record status n k' a cause reason v"
  "(demo_record status n k a cause reason v)\<lparr>sg_Attempt := a'\<rparr> = demo_record status n k a' cause reason v"
  "(demo_record status n k a cause reason v)\<lparr>sg_CauseReason := c\<rparr> = demo_record status n k a c reason v"
  "(demo_record status n k a cause reason v)\<lparr>sg_FailureReason := f\<rparr> = demo_record status n k a cause f v"
  by (simp_all add: demo_record_def)

lemma demo_start:
  "loadOrCreate demo_saga_env memory_repository demo_engine Background ''s'' 1
     (cnt, NewSagaRepository, ()) =
   (Ok (demo_record StatusRunning 0 (- 1) 0 [] [] 1), cnt, demo_repo (demo_record StatusRunning 0 (- 1) 0 [] [] 1), ())"
  by (simp add: loadOrCreate_def demo_saga_env_def memory_repository_def Repository_Load_def
      Repository_Create_def run_context_def NewSagaRepository_def errors_Is_def zero_record_def Let_def
      Record_Validate_def time_IsZero_def demo_engine_def demo_record_def demo_repo_def)

lemma demo_save:
  assumes "status \<noteq> StatusOther" and "0 \<le> n" and "- 1 \<le> k" and "0 \<le> a" and "cause \<in> {[], ''x''}"
    and "reason \<in> {[], ''x''}" and "v \<noteq> 0" and "v + 1 \<noteq> 0"
  shows "engine_save demo_saga_env memory_repository Background (demo_record status n k a cause reason v) 1
      (cnt, demo_repo (demo_record st' n' k' a' c' r' v), ()) =
    (Ok (demo_record status n k a cause reason (v + 1)), cnt,
     demo_repo (demo_record status n k a cause reason (v + 1)), ())"
proof -
  have "Record_Validate (demo_record status n k a cause reason (v + 1)) = None"
    using assms by (auto simp: Record_Validate_def demo_record_def time_IsZero_def)
  then show ?thesis
    using assms(7) by (simp add: engine_save_def demo_saga_env_def memory_repository_def Repository_Save_def
        run_context_def Background_cause demo_repo_def gm_get0_def demo_record_def Let_def)
qed

lemma demo_cause [simp]: "sv_cause demo_saga_env w = (None, w)"
  by (simp add: demo_saga_env_def)

lemma demo_steps [simp]:
  "length (sd_Steps (se_definition demo_engine)) = 2"
  "step_at demo_engine 0 = Some \<lparr>st_Name = ''a'', st_Action = Some demo_handler, st_Compensate = Some demo_handler\<rparr>"
  "step_at demo_engine 1 = Some \<lparr>st_Name = ''b'', st_Action = Some demo_handler, st_Compensate = None\<rparr>"
  "failureReason demo_engine err = ''x''"
  by (simp_all add: demo_engine_def step_at_def failureReason_def)

lemmas demo_saga_eval = demo_start demo_save engine_prepare_def prepare_running_def prepare_compensating_def
  engine_settle_def settle_action_def settle_compensation_def saved_turn_def position_def Let_def

definition demo_system :: "saga_pc \<Rightarrow> SagaRecord \<Rightarrow> saga_event list \<Rightarrow> SagaRepository SagaSystem" where
  "demo_system pc r log' = \<lparr>ss_repo = demo_repo r, ss_owners = [(1, pc)], ss_log = log'\<rparr>"

lemma demo_forward_run:
  "\<exists>r. saga_history demo_engine demo_forward =
     demo_system (InCall (demo_record StatusRunning 1 (- 1) 1 [] [] 4) r PhaseAction)
       (demo_record StatusRunning 1 (- 1) 1 [] [] 4)
       [Invoked ''s'' PhaseAction 0, Outcome ''s'' PhaseAction 0 None, Invoked ''s'' PhaseAction 1]"
  by (simp add: saga_history_def demo_forward_def saga_init_def demo_saga_eval demo_system_def)

lemma demo_backward_run:
  "\<exists>r. saga_history demo_engine demo_backward =
     demo_system (AtTop (demo_record StatusCompensated 1 (- 1) 0 ''x'' ''x'' 8) r)
       (demo_record StatusCompensated 1 (- 1) 0 ''x'' ''x'' 8)
       [Invoked ''s'' PhaseAction 0, Outcome ''s'' PhaseAction 0 None, Invoked ''s'' PhaseAction 1,
        Outcome ''s'' PhaseAction 1 (Some Canceled), Invoked ''s'' PhaseCompensation 0,
        Outcome ''s'' PhaseCompensation 0 None]"
proof -
  obtain r where "saga_history demo_engine demo_forward =
     demo_system (InCall (demo_record StatusRunning 1 (- 1) 1 [] [] 4) r PhaseAction)
       (demo_record StatusRunning 1 (- 1) 1 [] [] 4)
       [Invoked ''s'' PhaseAction 0, Outcome ''s'' PhaseAction 0 None, Invoked ''s'' PhaseAction 1]"
    using demo_forward_run by blast
  then show ?thesis
    by (simp add: demo_backward_def saga_history_def run_append demo_saga_eval demo_system_def)
qed

section \<open>Properties\<close>



text \<open>
  C10. What a terminal record promises, again for every interleaving: a completed instance has
  performed all its actions; a compensated instance has a failed action, performed all actions
  before it, and compensated each of those that has a compensation.
\<close>

theorem saga_outcome:
  assumes "length ops < 2 ^ 64 - 1" and "s = saga_history e ops"
    and "memory_records (ss_repo s) id' = Some r"
  shows "(sg_Status r = StatusCompleted \<longrightarrow> (\<forall>j. 0 \<le> j \<and> j < int (length (sd_Steps (se_definition e))) \<longrightarrow>
        Outcome id' PhaseAction j None \<in> set (ss_log s))) \<and>
    (sg_Status r = StatusCompensated \<longrightarrow> (\<exists>n err. n < int (length (sd_Steps (se_definition e))) \<and>
        Outcome id' PhaseAction n (Some err) \<in> set (ss_log s) \<and>
        (\<forall>j. 0 \<le> j \<and> j < n \<longrightarrow> Outcome id' PhaseAction j None \<in> set (ss_log s) \<and>
          (st_Compensate (sd_Steps (se_definition e) ! nat j) = None \<or>
           Outcome id' PhaseCompensation j None \<in> set (ss_log s)))))"
proof -
  have "records_ok (sd_Steps (se_definition e)) (ss_log s) (memory_records (ss_repo s))"
    using saga_history_inv [OF assms(1), of e] assms(2) by (simp add: saga_inv_def Let_def)
  with assms(3) have just: "justified (sd_Steps (se_definition e)) (ss_log s) r" and id': "sg_ID r = id'"
    by (auto simp: records_ok_def)
  show ?thesis
  proof (intro conjI impI)
    assume "sg_Status r = StatusCompleted"
    with just id' show "\<forall>j. 0 \<le> j \<and> j < int (length (sd_Steps (se_definition e))) \<longrightarrow>
        Outcome id' PhaseAction j None \<in> set (ss_log s)"
      by (simp add: justified_def acted_def)
  next
    assume fin: "sg_Status r = StatusCompensated"
    then obtain err where "Outcome id' PhaseAction (sg_NextStep r) (Some err) \<in> set (ss_log s)"
      using just id' by (auto simp: justified_def aborted_def)
    moreover have "Outcome id' PhaseAction j None \<in> set (ss_log s) \<and>
        (st_Compensate (sd_Steps (se_definition e) ! nat j) = None \<or>
         Outcome id' PhaseCompensation j None \<in> set (ss_log s))" if "0 \<le> j" "j < sg_NextStep r" for j
      using just id' fin that by (simp add: justified_def acted_def undone_def)
    moreover have "sg_NextStep r < int (length (sd_Steps (se_definition e)))"
      using just fin by (simp add: justified_def)
    ultimately show "\<exists>n err. n < int (length (sd_Steps (se_definition e))) \<and>
        Outcome id' PhaseAction n (Some err) \<in> set (ss_log s) \<and>
        (\<forall>j. 0 \<le> j \<and> j < n \<longrightarrow> Outcome id' PhaseAction j None \<in> set (ss_log s) \<and>
          (st_Compensate (sd_Steps (se_definition e) ! nat j) = None \<or>
           Outcome id' PhaseCompensation j None \<in> set (ss_log s)))"
      by blast
  qed
qed

theorem saga_outcome_witness:
  "Outcome ''s'' PhaseCompensation 0 None \<in> set (ss_log (saga_history demo_engine demo_backward))"
proof -
  obtain q where h: "saga_history demo_engine demo_backward =
     demo_system (AtTop (demo_record StatusCompensated 1 (- 1) 0 ''x'' ''x'' 8) q)
       (demo_record StatusCompensated 1 (- 1) 0 ''x'' ''x'' 8)
       [Invoked ''s'' PhaseAction 0, Outcome ''s'' PhaseAction 0 None, Invoked ''s'' PhaseAction 1,
        Outcome ''s'' PhaseAction 1 (Some Canceled), Invoked ''s'' PhaseCompensation 0,
        Outcome ''s'' PhaseCompensation 0 None]"
    using demo_backward_run by blast
  have r: "memory_records (ss_repo (saga_history demo_engine demo_backward)) ''s'' =
      Some (demo_record StatusCompensated 1 (- 1) 0 ''x'' ''x'' 8)"
    by (simp add: h demo_system_def demo_repo_def)
  have "length demo_backward < 2 ^ 64 - 1" by (simp add: demo_backward_def demo_forward_def)
  from saga_outcome [OF this refl r] obtain n err where
    n: "Outcome ''s'' PhaseAction n (Some err) \<in> set (ss_log (saga_history demo_engine demo_backward))"
    and comp: "\<forall>j. 0 \<le> j \<and> j < n \<longrightarrow> st_Compensate (sd_Steps (se_definition demo_engine) ! nat j) = None \<or>
       Outcome ''s'' PhaseCompensation j None \<in> set (ss_log (saga_history demo_engine demo_backward))"
    by auto
  from n have "n = 1" by (auto simp: h demo_system_def)
  with comp [THEN spec, of 0] show ?thesis by (simp add: demo_engine_def)
qed

text \<open>
  C11. Terminal states are final: once the record of an instance is terminal, no later operation
  of any owner, stale or not, changes it.
\<close>

theorem saga_terminal_stable:
  assumes "length (ops @ later) < 2 ^ 64 - 1"
    and "memory_records (ss_repo (saga_history e ops)) id' = Some r" and "Record_Terminal r"
  shows "memory_records (ss_repo (saga_history e (ops @ later))) id' = Some r"
proof -
  have "run_ok (saga_step memory_repository e) (saga_guard memory_records) (saga_history e ops) later"
    using saga_history_ok [OF assms(1), of e] by (simp add: run_ok_append saga_history_def)
  moreover have "saga_inv memory_records e (saga_history e ops)"
    using assms(1) by (intro saga_history_inv) simp
  ultimately have "memory_records (ss_repo (run (saga_step memory_repository e) (saga_history e ops) later)) id' = Some r"
    using assms(2,3) by (intro memory_saga.terminal_run)
  then show ?thesis by (simp add: saga_history_def run_append)
qed

theorem saga_terminal_stable_witness:
  "memory_records (ss_repo (saga_history demo_engine (demo_backward @
     [SPrepare 0 demo_saga_env Background, SStart demo_saga_env Background ''s'' 2]))) ''s'' =
   Some (demo_record StatusCompensated 1 (- 1) 0 ''x'' ''x'' 8)"
proof (rule saga_terminal_stable)
  show "memory_records (ss_repo (saga_history demo_engine demo_backward)) ''s'' =
      Some (demo_record StatusCompensated 1 (- 1) 0 ''x'' ''x'' 8)"
    using demo_backward_run by (auto simp: demo_system_def demo_repo_def)
qed (simp_all add: demo_backward_def demo_forward_def Record_Terminal_def)


end
