(* ===== verification/Fencing.thy ===== *)
theory Fencing
  imports Saga_Order
begin

text \<open>
  Leases and saga repositories together: the fences that the coordinator hands out order the
  owners of an instance, and the repository keeps the writes of superseded owners out.
\<close>

section \<open>Histories of a repository\<close>

datatype repository_op =
  RLoad "Context option" string
| RCreate "Context option" SagaRecord u64
| RSave "Context option" SagaRecord u64 u64

fun repository_step :: "SagaRepository \<Rightarrow> repository_op \<Rightarrow> SagaRepository" where
  "repository_step r (RLoad ctx id') = snd (Repository_Load ctx id' r)"
| "repository_step r (RCreate ctx rec fence) = snd (Repository_Create ctx rec fence r)"
| "repository_step r (RSave ctx rec expected fence) = snd (Repository_Save ctx rec expected fence r)"

text \<open>The instance exists and was last written under a fence of at least \<open>f\<close>.\<close>

definition written_under :: "string \<Rightarrow> u64 \<Rightarrow> SagaRepository \<Rightarrow> bool" where
  "written_under id' f r \<longleftrightarrow> gm_get (sp_records r) id' \<noteq> None \<and> f \<le> gm_get0 (sp_fences r) id'"

lemma written_under_step: "written_under id' f r \<Longrightarrow> written_under id' f (repository_step r op)"
  by (cases op) (auto simp: written_under_def Repository_Load_def Repository_Create_def Repository_Save_def
      Let_def split: option.splits)

interpretation repository_sys: guarded_machine repository_step "\<lambda>_ _. True" "written_under id' f" for id' f
  by unfold_locales (rule written_under_step)

lemma accepted_written_under:
  assumes "Repository_Save ctx rec expected fence r = (Ok saved, r')"
  shows "written_under (sg_ID rec) fence r'"
  using assms by (auto simp: Repository_Save_def written_under_def Let_def split: option.splits if_splits)

lemma stale_save_rejected:
  assumes "written_under (sg_ID rec) f r" and "fence < f"
  shows "\<exists>err. Repository_Save ctx rec expected fence r = (Err err, r)"
  using assms by (auto simp: Repository_Save_def written_under_def split: option.splits)

section \<open>Property\<close>

text \<open>
  C15. Fencing end to end: when two owners held the lease of a key one after the other and the
  later one has written an instance, every later write of the earlier owner to that instance is
  rejected and changes nothing, whatever happened in between.
\<close>

theorem superseded_owner_rejected:
  assumes "run_ok coordinator_step coordinator_guard NewCoordinator locks"
    and "c = run coordinator_step NewCoordinator locks"
    and "older < newer" and "newer < length (co_heap c)"
    and "le_key (co_heap c ! older) = le_key (co_heap c ! newer)"
    and "Repository_Save ctx rec expected (lease_Fence (Some newer) c) r = (Ok saved, r')"
    and "sg_ID rec' = sg_ID rec"
  shows "\<exists>err. Repository_Save ctx' rec' expected' (lease_Fence (Some older) c) (run repository_step r' ops) =
    (Err err, run repository_step r' ops)"
proof (rule stale_save_rejected)
  have "coordinator_inv c"
    using coordinator_sys.run_inv [OF coordinator_init_inv assms(1)] assms(2) by simp
  then show "lease_Fence (Some older) c < lease_Fence (Some newer) c"
    by (rule fences_ordered [OF _ assms(3-5)])
  show "written_under (sg_ID rec') (lease_Fence (Some newer) c) (run repository_step r' ops)"
    unfolding assms(7)
    by (rule repository_sys.run_inv [OF accepted_written_under [OF assms(6)] run_ok_True])
qed

definition demo_locks :: "CoordinatorOp list" where
  "demo_locks = [CAcquire (Some Background) ''k'' 5, CRelease (Some Background) 0,
     CAcquire (Some Background) ''k'' 5]"

lemma demo_locks_run:
  "run_ok coordinator_step coordinator_guard NewCoordinator demo_locks"
  "co_heap (run coordinator_step NewCoordinator demo_locks) =
     [\<lparr>le_key = ''k'', le_fence = 1, le_once = True\<rparr>, \<lparr>le_key = ''k'', le_fence = 2, le_once = False\<rparr>]"
  by (simp_all add: demo_locks_def lease_eval gm_get0_def)

lemma demo_save_newer:
  "\<exists>saved r'. Repository_Save (Some Background) (demo_record StatusRunning 1 (- 1) 0 [] [] 1) 1 2
     (demo_repo (demo_record StatusRunning 0 (- 1) 0 [] [] 1)) = (Ok saved, r')"
  by (simp add: Repository_Save_def Background_cause demo_repo_def demo_record_def gm_get0_def
      Record_Validate_def time_IsZero_def Let_def)

theorem superseded_owner_rejected_witness:
  "\<exists>r' err. snd (Repository_Save (Some Background) (demo_record StatusRunning 1 (- 1) 0 [] [] 1) 1 2
     (demo_repo (demo_record StatusRunning 0 (- 1) 0 [] [] 1))) = r' \<and>
   Repository_Save (Some Background) (demo_record StatusCompleted 2 (- 1) 0 [] [] 2) 2 1 r' = (Err err, r')"
proof -
  let ?c = "run coordinator_step NewCoordinator demo_locks"
  have fences: "lease_Fence (Some 0) ?c = 1" "lease_Fence (Some 1) ?c = 2"
    by (simp_all add: lease_Fence_def demo_locks_run)
  obtain saved r' where save: "Repository_Save (Some Background) (demo_record StatusRunning 1 (- 1) 0 [] [] 1) 1
      (lease_Fence (Some 1) ?c) (demo_repo (demo_record StatusRunning 0 (- 1) 0 [] [] 1)) = (Ok saved, r')"
    using demo_save_newer fences by auto
  have "\<exists>err. Repository_Save (Some Background) (demo_record StatusCompleted 2 (- 1) 0 [] [] 2) 2
      (lease_Fence (Some 0) ?c) (run repository_step r' []) = (Err err, run repository_step r' [])"
    by (rule superseded_owner_rejected [OF demo_locks_run(1) refl _ _ _ save]) (simp_all add: demo_locks_run)
  with save [unfolded fences] show ?thesis by (simp add: fences)
qed

end
