(* ===== verification/Workflow.thy ===== *)
theory Workflow
  imports Operation "HOL-Library.Multiset"
begin

text \<open>
  Durable workflows: the definitions, states and planning of
  \<open>programmable/continuation/workflow.go\<close>, with the identity checks of \<open>model.go\<close> and the timer
  normalisation of \<open>timer.go\<close> they use.
\<close>

section \<open>Identities and instants\<close>

abbreviation ErrInvalidWorkflow :: goerr where
  "ErrInvalidWorkflow \<equiv> Sentinel ''continuation: invalid workflow''"

abbreviation ErrWorkflowCycle :: goerr where
  "ErrWorkflowCycle \<equiv> Sentinel ''continuation: workflow contains a cycle''"

abbreviation ErrWorkflowDefinitionMismatch :: goerr where
  "ErrWorkflowDefinitionMismatch \<equiv> Sentinel ''continuation: workflow definition mismatch''"

definition call_validIdentity :: "string \<Rightarrow> bool" where
  "call_validIdentity v \<longleftrightarrow> validIdentity v 512"

fun split_on :: "char \<Rightarrow> string \<Rightarrow> string list" where
  "split_on c [] = [[]]"
| "split_on c (x # xs) = (if x = c then [] # split_on c xs
     else case split_on c xs of p # ps \<Rightarrow> (x # p) # ps | [] \<Rightarrow> [[x]])"

definition call_validOperation :: "string \<Rightarrow> bool" where
  "call_validOperation v \<longleftrightarrow> call_validIdentity v \<and> HasPrefix v ''/'' \<and>
     (let parts = split_on (CHR ''/'') (tl v) in length parts = 2 \<and>
        call_validIdentity (parts ! 0) \<and> call_validIdentity (parts ! 1))"

text \<open>Rounding up to microseconds.\<close>

definition normalizeReadyAt :: "go_time \<Rightarrow> go_time" where
  "normalizeReadyAt v = (if time_IsZero v then 0
     else (let truncated = v - v mod microsecond in
       if truncated = v then v else time_Add truncated microsecond))"

section \<open>Nodes\<close>

definition maxWorkflowNodes :: nat where "maxWorkflowNodes = 10000"
definition maxWorkflowEdges :: nat where "maxWorkflowEdges = 100000"
definition maxWorkflowTimerDelay :: duration where "maxWorkflowTimerDelay = 365 * 24 * hour"
definition maxWorkflowFailureSize :: nat where "maxWorkflowFailureSize = 128"

text \<open>Each string type has a constructor for the values that are no constant of it.\<close>

datatype WorkflowNodeKind =
  WorkflowNodeMachine | WorkflowNodeTimer | WorkflowNodeChild | WorkflowNodeJoin | WorkflowNodeKindOther string

definition NodeKind_valid :: "WorkflowNodeKind \<Rightarrow> bool" where
  "NodeKind_valid kind \<longleftrightarrow> (case kind of WorkflowNodeKindOther _ \<Rightarrow> False | _ \<Rightarrow> True)"

datatype WorkflowJoinPolicy = WorkflowJoinEmpty | WorkflowJoinAll | WorkflowJoinAny | WorkflowJoinOther

definition JoinPolicy_valid :: "WorkflowJoinPolicy \<Rightarrow> bool" where
  "JoinPolicy_valid policy \<longleftrightarrow> policy = WorkflowJoinAll \<or> policy = WorkflowJoinAny"

datatype WorkflowFailurePolicy =
  WorkflowFailureEmpty | WorkflowFailFast | WorkflowContinue | WorkflowFailureOther

definition FailurePolicy_normalized :: "WorkflowFailurePolicy \<Rightarrow> WorkflowFailurePolicy" where
  "FailurePolicy_normalized policy = (if policy = WorkflowFailureEmpty then WorkflowFailFast else policy)"

definition FailurePolicy_valid :: "WorkflowFailurePolicy \<Rightarrow> bool" where
  "FailurePolicy_valid policy \<longleftrightarrow> policy = WorkflowFailFast \<or> policy = WorkflowContinue"

datatype WorkflowNodeStatus =
  WorkflowNodePending | WorkflowNodeRunning | WorkflowNodeWaiting | WorkflowNodeSucceeded
| WorkflowNodeFailed | WorkflowNodeSkipped | WorkflowNodeStatusOther string

definition NodeStatus_valid :: "WorkflowNodeStatus \<Rightarrow> bool" where
  "NodeStatus_valid status \<longleftrightarrow> (case status of WorkflowNodeStatusOther _ \<Rightarrow> False | _ \<Rightarrow> True)"

definition NodeStatus_Terminal :: "WorkflowNodeStatus \<Rightarrow> bool" where
  "NodeStatus_Terminal status \<longleftrightarrow> status = WorkflowNodeSucceeded \<or> status = WorkflowNodeFailed \<or>
     status = WorkflowNodeSkipped"

record WorkflowNodeSpec =
  wn_ID :: string
  wn_Kind :: WorkflowNodeKind
  wn_Operation :: string
  wn_DependsOn :: "string list"
  wn_Join :: WorkflowJoinPolicy
  wn_FailurePolicy :: WorkflowFailurePolicy
  wn_Delay :: duration

record WorkflowDefinitionSpec =
  ws_Operation :: string
  ws_Version :: string
  ws_Nodes :: "WorkflowNodeSpec list"

record WorkflowDefinition =
  wd_operation :: string
  wd_version :: string
  wd_fingerprint :: string
  wd_nodes :: "WorkflowNodeSpec list"
  wd_byID :: "(string, nat) gomap"

definition validWorkflowNodeShape :: "WorkflowNodeSpec \<Rightarrow> bool" where
  "validWorkflowNodeShape node \<longleftrightarrow> (case wn_Kind node of
     WorkflowNodeMachine \<Rightarrow> call_validOperation (wn_Operation node) \<and> wn_Delay node = 0 \<and>
       wn_Join node = WorkflowJoinEmpty
   | WorkflowNodeChild \<Rightarrow> call_validOperation (wn_Operation node) \<and> wn_Delay node = 0 \<and>
       wn_Join node = WorkflowJoinEmpty
   | WorkflowNodeTimer \<Rightarrow> wn_Operation node = [] \<and> wn_Delay node > 0 \<and>
       wn_Delay node \<le> maxWorkflowTimerDelay \<and> wn_Join node = WorkflowJoinEmpty
   | WorkflowNodeJoin \<Rightarrow> wn_Operation node = [] \<and> wn_Delay node = 0 \<and> wn_DependsOn node \<noteq> [] \<and>
       JoinPolicy_valid (wn_Join node)
   | WorkflowNodeKindOther _ \<Rightarrow> False)"

section \<open>Topological order\<close>

definition node_indegree :: "WorkflowNodeSpec list \<Rightarrow> (string, int) gomap" where
  "node_indegree nodes = fold (\<lambda>n. gm_put (wn_ID n) (int (length (wn_DependsOn n)))) nodes []"

definition node_dependents :: "WorkflowNodeSpec list \<Rightarrow> (string, string list) gomap" where
  "node_dependents nodes = fold (\<lambda>n. fold (\<lambda>d m.
     gm_put d ((case gm_get m d of None \<Rightarrow> [] | Some ds \<Rightarrow> ds) @ [wn_ID n]) m) (wn_DependsOn n)) nodes []"

text \<open>The inner loop: a dependent whose last open dependency was \<open>id\<close> becomes ready.\<close>

fun release_dependents ::
  "string list \<Rightarrow> string list \<times> (string, int) gomap \<Rightarrow> string list \<times> (string, int) gomap" where
  "release_dependents [] (ready, indegree) = (ready, indegree)"
| "release_dependents (d # ds) (ready, indegree) =
     (let indegree' = gm_put d (gm_get0 indegree d - 1) indegree in
      if gm_get0 indegree' d = 0 then release_dependents ds (sort (ready @ [d]), indegree')
      else release_dependents ds (ready, indegree'))"

definition open_nodes :: "(string, int) gomap \<Rightarrow> string set" where
  "open_nodes indegree = {k. 0 < gm_get0 indegree k}"

lemma finite_open_nodes [simp]: "finite (open_nodes m)"
proof (rule finite_subset)
  show "open_nodes m \<subseteq> set (gm_keys m)"
    by (auto simp: open_nodes_def gm_get0_def split: option.splits dest: gm_get_in_keys [unfolded set_map])
qed simp

lemma open_nodes_put: "open_nodes (gm_put d v m) = (if 0 < v then insert d (open_nodes m) else open_nodes m - {d})"
  by (auto simp: open_nodes_def)

lemma release_measure:
  "release_dependents ds (ready, m) = (ready', m') \<Longrightarrow>
     length ready' + card (open_nodes m') = length ready + card (open_nodes m)"
proof (induction ds arbitrary: ready m)
  case (Cons d ds)
  let ?m = "gm_put d (gm_get0 m d - 1) m"
  show ?case
  proof (cases "gm_get0 m d = 1")
    case True
    then have "d \<in> open_nodes m" and "open_nodes ?m = open_nodes m - {d}"
      by (simp_all add: open_nodes_put) (simp add: open_nodes_def)
    then have "Suc (card (open_nodes ?m)) = card (open_nodes m)"
      by (metis card_Suc_Diff1 finite_open_nodes)
    with Cons.IH [of "sort (ready @ [d])" ?m] Cons.prems True show ?thesis by (simp add: Let_def)
  next
    case False
    have "open_nodes ?m = open_nodes m"
      using False by (auto simp: open_nodes_put) (auto simp: open_nodes_def)
    with Cons.IH [of ready ?m] Cons.prems False show ?thesis by (simp add: Let_def)
  qed
qed simp

function topological_loop ::
  "WorkflowNodeSpec list \<Rightarrow> (string, nat) gomap \<Rightarrow> (string, string list) gomap \<Rightarrow>
     string list \<times> (string, int) gomap \<Rightarrow> WorkflowNodeSpec list \<Rightarrow> WorkflowNodeSpec list" where
  "topological_loop nodes byID dependents ([], indegree) result = result"
| "topological_loop nodes byID dependents (node # ready, indegree) result =
     topological_loop nodes byID dependents
       (release_dependents (case gm_get dependents node of None \<Rightarrow> [] | Some ds \<Rightarrow> ds) (ready, indegree))
       (result @ [nodes ! gm_get0 byID node])"
  by pat_completeness auto
termination
proof (relation "measure (\<lambda>(nodes, byID, dependents, (ready, m), result). length ready + card (open_nodes m))")
  fix nodes byID dependents ready indegree result and node :: string
  let ?ds = "case gm_get dependents node of None \<Rightarrow> [] | Some ds \<Rightarrow> (ds :: string list)"
  obtain ready' m' where "release_dependents ?ds (ready, indegree) = (ready', m')" by force
  with release_measure [OF this]
  show "((nodes, byID, dependents, release_dependents ?ds (ready, indegree), result @ [nodes ! gm_get0 byID node]),
      nodes, byID, dependents, (node # ready, indegree), result)
    \<in> measure (\<lambda>(nodes, byID, dependents, (ready, m), result). length ready + card (open_nodes m))"
    by simp
qed simp

definition topologicalWorkflowNodes ::
  "WorkflowNodeSpec list \<Rightarrow> (string, nat) gomap \<Rightarrow> goerr + WorkflowNodeSpec list" where
  "topologicalWorkflowNodes nodes byID =
     (let indegree = node_indegree nodes;
          ready = sort (gm_keys (filter (\<lambda>(id', degree). degree = 0) indegree));
          result = topological_loop nodes byID (node_dependents nodes) (ready, indegree) [] in
      if length result \<noteq> length nodes then Err ErrWorkflowCycle else Ok result)"

section \<open>Definitions\<close>

text \<open>
  The checks of \<open>NewWorkflowDefinition\<close> on each node; \<open>seen\<close> are the earlier identities and
  \<open>edges\<close> the dependencies counted so far. Every failure is \<open>ErrInvalidWorkflow\<close>.
\<close>

fun valid_nodes :: "string list \<Rightarrow> nat \<Rightarrow> WorkflowNodeSpec list \<Rightarrow> bool" where
  "valid_nodes seen edges [] \<longleftrightarrow> True"
| "valid_nodes seen edges (node # nodes) \<longleftrightarrow>
     call_validIdentity (wn_ID node) \<and> NodeKind_valid (wn_Kind node) \<and>
     FailurePolicy_valid (wn_FailurePolicy node) \<and> wn_ID node \<notin> set seen \<and>
     edges + length (wn_DependsOn node) \<le> maxWorkflowEdges \<and> validWorkflowNodeShape node \<and>
     list_all (\<lambda>d. call_validIdentity d \<and> d \<noteq> wn_ID node) (wn_DependsOn node) \<and>
     distinct (wn_DependsOn node) \<and>
     valid_nodes (wn_ID node # seen) (edges + length (wn_DependsOn node)) nodes"

definition index_nodes :: "WorkflowNodeSpec list \<Rightarrow> (string, nat) gomap" where
  "index_nodes nodes = fold (\<lambda>(i, n). gm_put (wn_ID n) i) (enumerate 0 nodes) []"

definition normalize_nodes :: "WorkflowNodeSpec list \<Rightarrow> WorkflowNodeSpec list" where
  "normalize_nodes nodes =
     map (\<lambda>n. n\<lparr>wn_FailurePolicy := FailurePolicy_normalized (wn_FailurePolicy n)\<rparr>) nodes"

text \<open>
  The canonical form that is digested: nodes and dependencies sorted. \<open>encode\<close> is the
  hexadecimal SHA-256 of its JSON text.
\<close>

definition canonical_nodes :: "WorkflowNodeSpec list \<Rightarrow> WorkflowNodeSpec list" where
  "canonical_nodes nodes = map (\<lambda>n. n\<lparr>wn_DependsOn := sort (wn_DependsOn n)\<rparr>) (sort_key wn_ID nodes)"

definition workflowFingerprint ::
  "(string \<Rightarrow> string \<Rightarrow> WorkflowNodeSpec list \<Rightarrow> string) \<Rightarrow> string \<Rightarrow> string \<Rightarrow> WorkflowNodeSpec list \<Rightarrow>
     string" where
  "workflowFingerprint encode op ver nodes = encode op ver (canonical_nodes nodes)"

definition NewWorkflowDefinition ::
  "(string \<Rightarrow> string \<Rightarrow> WorkflowNodeSpec list \<Rightarrow> string) \<Rightarrow> WorkflowDefinitionSpec \<Rightarrow>
     goerr + WorkflowDefinition" where
  "NewWorkflowDefinition encode spec =
     (if \<not> call_validOperation (ws_Operation spec) \<or> \<not> call_validIdentity (ws_Version spec) \<or>
         length (ws_Nodes spec) = 0 \<or> length (ws_Nodes spec) > maxWorkflowNodes
      then Err ErrInvalidWorkflow
      else (let nodes = normalize_nodes (ws_Nodes spec) in
        if \<not> valid_nodes [] 0 nodes then Err ErrInvalidWorkflow
        else if list_ex (\<lambda>n. list_ex (\<lambda>d. gm_get (index_nodes nodes) d = None) (wn_DependsOn n)) nodes
        then Err ErrInvalidWorkflow
        else (case topologicalWorkflowNodes nodes (index_nodes nodes) of Err e \<Rightarrow> Err e
          | Ok topological \<Rightarrow> Ok \<lparr>wd_operation = ws_Operation spec, wd_version = ws_Version spec,
              wd_fingerprint = workflowFingerprint encode (ws_Operation spec) (ws_Version spec) nodes,
              wd_nodes = topological, wd_byID = index_nodes topological\<rparr>)))"

section \<open>States\<close>

record workflowNodeState =
  ns_ID :: string
  ns_Kind :: WorkflowNodeKind
  ns_Status :: WorkflowNodeStatus
  ns_Attempt :: u32
  ns_ChildCallID :: string
  ns_ReadyAt :: go_time
  ns_FailureClass :: string

record workflowSnapshotState =
  wf_Version :: string
  wf_Fingerprint :: string
  wf_StartedAt :: go_time
  wf_Nodes :: "(string, workflowNodeState) gomap"

definition new_node_state :: "WorkflowNodeSpec \<Rightarrow> workflowNodeState" where
  "new_node_state n = \<lparr>ns_ID = wn_ID n, ns_Kind = wn_Kind n, ns_Status = WorkflowNodePending, ns_Attempt = 0,
     ns_ChildCallID = [], ns_ReadyAt = 0, ns_FailureClass = []\<rparr>"

definition newWorkflowSnapshotState :: "WorkflowDefinition \<Rightarrow> go_time \<Rightarrow> workflowSnapshotState" where
  "newWorkflowSnapshotState definition startedAt =
     \<lparr>wf_Version = wd_version definition, wf_Fingerprint = wd_fingerprint definition,
      wf_StartedAt = normalizeReadyAt startedAt,
      wf_Nodes = fold (\<lambda>n. gm_put (wn_ID n) (new_node_state n)) (wd_nodes definition) []\<rparr>"

definition is_hex :: "char \<Rightarrow> bool" where
  "is_hex c \<longleftrightarrow> in_range 48 57 (byte_of c) \<or> in_range 65 70 (byte_of c) \<or> in_range 97 102 (byte_of c)"

definition valid_node_state :: "string \<Rightarrow> workflowNodeState \<Rightarrow> bool" where
  "valid_node_state id' node \<longleftrightarrow>
     \<not> (id' \<noteq> ns_ID node \<or> \<not> call_validIdentity id' \<or> \<not> NodeKind_valid (ns_Kind node) \<or>
        \<not> NodeStatus_valid (ns_Status node) \<or> ns_Attempt node > 1000000 \<or>
        length (ns_FailureClass node) > maxWorkflowFailureSize \<or>
        ns_FailureClass node \<noteq> [] \<and> \<not> call_validIdentity (ns_FailureClass node) \<or>
        \<not> time_IsZero (ns_ReadyAt node) \<and> ns_ReadyAt node \<noteq> normalizeReadyAt (ns_ReadyAt node) \<or>
        ns_ChildCallID node \<noteq> [] \<and> \<not> call_validIdentity (ns_ChildCallID node) \<or>
        ns_Kind node \<noteq> WorkflowNodeTimer \<and> \<not> time_IsZero (ns_ReadyAt node) \<or>
        ns_Kind node \<noteq> WorkflowNodeChild \<and> ns_ChildCallID node \<noteq> [] \<or>
        ns_Status node = WorkflowNodeWaiting \<and> ns_Kind node = WorkflowNodeTimer \<and>
          time_IsZero (ns_ReadyAt node) \<or>
        ns_Status node = WorkflowNodeWaiting \<and> ns_Kind node = WorkflowNodeChild \<and> ns_ChildCallID node = [] \<or>
        ns_Status node \<noteq> WorkflowNodeFailed \<and> ns_FailureClass node \<noteq> [])"

definition validateWorkflowState :: "workflowSnapshotState option \<Rightarrow> goerr option" where
  "validateWorkflowState state = (case state of None \<Rightarrow> None
   | Some s \<Rightarrow>
     if \<not> call_validIdentity (wf_Version s) \<or> length (wf_Fingerprint s) \<noteq> 64 \<or>
        time_IsZero (wf_StartedAt s) \<or> wf_StartedAt s \<noteq> normalizeReadyAt (wf_StartedAt s) \<or>
        length (wf_Nodes s) = 0 \<or> length (wf_Nodes s) > maxWorkflowNodes
     then Some ErrInvalidWorkflow
     else if \<not> list_all is_hex (wf_Fingerprint s) then Some ErrInvalidWorkflow
     else if list_all (\<lambda>(id', node). valid_node_state id' node) (wf_Nodes s) then None
     else Some ErrInvalidWorkflow)"

definition allowedWorkflowNodeTransition :: "WorkflowNodeStatus \<Rightarrow> WorkflowNodeStatus \<Rightarrow> bool" where
  "allowedWorkflowNodeTransition from' to \<longleftrightarrow>
     (if NodeStatus_Terminal from' then from' = to
      else case from' of
        WorkflowNodePending \<Rightarrow> to = WorkflowNodePending \<or> to = WorkflowNodeRunning \<or> to = WorkflowNodeWaiting \<or>
          to = WorkflowNodeSucceeded \<or> to = WorkflowNodeFailed \<or> to = WorkflowNodeSkipped
      | WorkflowNodeRunning \<Rightarrow> to = WorkflowNodeRunning \<or> to = WorkflowNodeWaiting \<or>
          to = WorkflowNodeSucceeded \<or> to = WorkflowNodeFailed \<or> to = WorkflowNodeSkipped
      | WorkflowNodeWaiting \<Rightarrow> to = WorkflowNodeWaiting \<or> to = WorkflowNodeSucceeded \<or>
          to = WorkflowNodeFailed \<or> to = WorkflowNodeSkipped
      | _ \<Rightarrow> False)"

definition allowed_successor_node :: "workflowNodeState \<Rightarrow> workflowNodeState option \<Rightarrow> bool" where
  "allowed_successor_node previous next' = (case next' of None \<Rightarrow> False
   | Some candidate \<Rightarrow>
     \<not> (ns_ID candidate \<noteq> ns_ID previous \<or> ns_Kind candidate \<noteq> ns_Kind previous \<or>
        ns_Attempt candidate < ns_Attempt previous \<or> ns_Attempt candidate > ns_Attempt previous + 1 \<or>
        ns_ChildCallID previous \<noteq> [] \<and> ns_ChildCallID candidate \<noteq> ns_ChildCallID previous \<or>
        \<not> time_IsZero (ns_ReadyAt previous) \<and> ns_ReadyAt candidate \<noteq> ns_ReadyAt previous \<or>
        \<not> allowedWorkflowNodeTransition (ns_Status previous) (ns_Status candidate)))"

definition validateWorkflowSuccessor ::
  "workflowSnapshotState option \<Rightarrow> workflowSnapshotState option \<Rightarrow> goerr option" where
  "validateWorkflowSuccessor current next' = (case (current, next') of
     (Some c, Some n) \<Rightarrow>
       if validateWorkflowState current \<noteq> None \<or> validateWorkflowState next' \<noteq> None \<or>
          wf_Version c \<noteq> wf_Version n \<or> wf_Fingerprint c \<noteq> wf_Fingerprint n \<or>
          wf_StartedAt c \<noteq> wf_StartedAt n \<or> length (wf_Nodes c) \<noteq> length (wf_Nodes n)
       then Some ErrInvalidWorkflow
       else if list_all (\<lambda>(id', previous). allowed_successor_node previous (gm_get (wf_Nodes n) id')) (wf_Nodes c)
       then None else Some ErrInvalidWorkflow
   | _ \<Rightarrow> Some ErrInvalidWorkflow)"

text \<open>An absent node reads as the zero value, whose status is no status.\<close>

definition node_status :: "workflowSnapshotState \<Rightarrow> string \<Rightarrow> WorkflowNodeStatus" where
  "node_status state id' = (case gm_get (wf_Nodes state) id' of
     None \<Rightarrow> WorkflowNodeStatusOther [] | Some node \<Rightarrow> ns_Status node)"

definition sink_nodes :: "WorkflowDefinition \<Rightarrow> WorkflowNodeSpec list" where
  "sink_nodes definition = filter (\<lambda>n. \<not> list_ex (\<lambda>m. wn_ID n \<in> set (wn_DependsOn m)) (wd_nodes definition))
     (wd_nodes definition)"

definition workflowDefinitionOutcome :: "WorkflowDefinition \<Rightarrow> workflowSnapshotState \<Rightarrow> bool \<times> bool" where
  "workflowDefinitionOutcome definition state =
     (if list_ex (\<lambda>n. \<not> NodeStatus_Terminal (node_status state (wn_ID n))) (sink_nodes definition)
      then (False, False)
      else (sink_nodes definition \<noteq> [],
        list_ex (\<lambda>n. node_status state (wn_ID n) = WorkflowNodeFailed) (sink_nodes definition)))"

definition skipNonTerminalWorkflowNodes :: "workflowSnapshotState \<Rightarrow> workflowSnapshotState" where
  "skipNonTerminalWorkflowNodes state = state\<lparr>wf_Nodes := map (\<lambda>(id', node).
     (id', if NodeStatus_Terminal (ns_Status node) then node
       else node\<lparr>ns_Status := WorkflowNodeSkipped\<rparr>)) (wf_Nodes state)\<rparr>"

section \<open>Planning\<close>

definition EvaluateWorkflowJoin ::
  "WorkflowJoinPolicy \<Rightarrow> WorkflowNodeStatus list \<Rightarrow> WorkflowNodeStatus \<times> bool" where
  "EvaluateWorkflowJoin policy states =
     (if \<not> JoinPolicy_valid policy \<or> length states = 0 then (WorkflowNodeFailed, True)
      else (let succeeded = length (filter (\<lambda>s. s = WorkflowNodeSucceeded) states);
                failed = length (filter (\<lambda>s. s = WorkflowNodeFailed \<or> s = WorkflowNodeSkipped) states);
                terminal = length (filter NodeStatus_Terminal states) in
        case policy of
          WorkflowJoinAll \<Rightarrow>
            if failed > 0 then (WorkflowNodeFailed, True)
            else if succeeded = length states then (WorkflowNodeSucceeded, True)
            else (WorkflowNodePending, False)
        | WorkflowJoinAny \<Rightarrow>
            if succeeded > 0 then (WorkflowNodeSucceeded, True)
            else if terminal = length states then (WorkflowNodeFailed, True)
            else (WorkflowNodePending, False)
        | _ \<Rightarrow> (WorkflowNodePending, False)))"

text \<open>Length-prefixed parts of a digest; numbers are big-endian.\<close>

fun be_bytes :: "nat \<Rightarrow> nat \<Rightarrow> string" where
  "be_bytes 0 n = []"
| "be_bytes (Suc k) n = be_bytes k (n div 256) @ [char_of (n mod 256)]"

definition writeDigestPart :: "string \<Rightarrow> string" where
  "writeDigestPart v = be_bytes 8 (length v) @ v"

definition DeriveChildCallID :: "(string \<Rightarrow> string) \<Rightarrow> string \<Rightarrow> string \<Rightarrow> u32 \<Rightarrow> goerr + string" where
  "DeriveChildCallID sha parent nodeID attempt =
     (if \<not> call_validIdentity parent \<or> \<not> call_validIdentity nodeID \<or> attempt = 0
      then Err ErrInvalidWorkflow
      else (let child = ''wf-child-'' @ sha (writeDigestPart ''keelith-workflow-child-v1'' @
              writeDigestPart parent @ writeDigestPart nodeID @ writeDigestPart (be_bytes 4 (unat attempt))) in
        if call_validIdentity child then Ok child
        else Err (Wrapf ''call id'' [Sentinel ''continuation: invalid identity''])))"

record workflowCommand =
  wc_nodeID :: string
  wc_kind :: WorkflowNodeKind
  wc_operation :: string
  wc_attempt :: u32
  wc_childCallID :: string
  wc_readyAt :: go_time
  wc_completeStatus :: "WorkflowNodeStatus option"

definition complete_command :: "WorkflowNodeSpec \<Rightarrow> WorkflowNodeStatus \<Rightarrow> workflowCommand" where
  "complete_command spec status = \<lparr>wc_nodeID = wn_ID spec, wc_kind = wn_Kind spec, wc_operation = [],
     wc_attempt = 0, wc_childCallID = [], wc_readyAt = 0, wc_completeStatus = Some status\<rparr>"

text \<open>The body of the planning loop for one pending node: an error, no command, or a command.\<close>

definition plan_node ::
  "(string \<Rightarrow> string) \<Rightarrow> workflowSnapshotState \<Rightarrow> string \<Rightarrow> WorkflowNodeSpec \<Rightarrow> workflowNodeState \<Rightarrow>
     goerr + workflowCommand list" where
  "plan_node sha state parent spec node =
     (let dependencies = map (node_status state) (wn_DependsOn spec);
          allSucceeded = list_all (\<lambda>s. s = WorkflowNodeSucceeded) dependencies;
          allTerminal = list_all NodeStatus_Terminal dependencies;
          failedDependency = list_ex (\<lambda>s. s = WorkflowNodeFailed) dependencies in
      if wn_Kind spec = WorkflowNodeJoin then
        (case EvaluateWorkflowJoin (wn_Join spec) dependencies of (status, terminal) \<Rightarrow>
           Ok (if terminal then [complete_command spec status] else []))
      else if failedDependency \<and> wn_FailurePolicy spec = WorkflowFailFast
      then Ok [complete_command spec WorkflowNodeFailed]
      else if length (wn_DependsOn spec) > 0 \<and> \<not> allSucceeded \<and>
        (wn_FailurePolicy spec \<noteq> WorkflowContinue \<or> \<not> allTerminal)
      then Ok []
      else (let attempt = ns_Attempt node + 1;
                command = \<lparr>wc_nodeID = wn_ID spec, wc_kind = wn_Kind spec, wc_operation = wn_Operation spec,
                  wc_attempt = attempt, wc_childCallID = [], wc_readyAt = 0, wc_completeStatus = None\<rparr> in
        case wn_Kind spec of
          WorkflowNodeTimer \<Rightarrow> Ok [command\<lparr>wc_readyAt :=
            normalizeReadyAt (time_Add (wf_StartedAt state) (wn_Delay spec))\<rparr>]
        | WorkflowNodeChild \<Rightarrow> (case DeriveChildCallID sha parent (wn_ID spec) attempt of
            Err e \<Rightarrow> Err e | Ok child \<Rightarrow> Ok [command\<lparr>wc_childCallID := child\<rparr>])
        | _ \<Rightarrow> Ok [command]))"

fun plan_nodes ::
  "(string \<Rightarrow> string) \<Rightarrow> workflowSnapshotState \<Rightarrow> string \<Rightarrow> WorkflowNodeSpec list \<Rightarrow>
     goerr + workflowCommand list" where
  "plan_nodes sha state parent [] = Ok []"
| "plan_nodes sha state parent (spec # specs) =
     (case gm_get (wf_Nodes state) (wn_ID spec) of
        None \<Rightarrow> Err ErrWorkflowDefinitionMismatch
      | Some node \<Rightarrow>
        if ns_Kind node \<noteq> wn_Kind spec then Err ErrWorkflowDefinitionMismatch
        else if ns_Status node \<noteq> WorkflowNodePending then plan_nodes sha state parent specs
        else (case plan_node sha state parent spec node of Err e \<Rightarrow> Err e
          | Ok commands \<Rightarrow> (case plan_nodes sha state parent specs of Err e \<Rightarrow> Err e
            | Ok rest \<Rightarrow> Ok (commands @ rest))))"

definition planWorkflowForParent ::
  "(string \<Rightarrow> string) \<Rightarrow> WorkflowDefinition option \<Rightarrow> workflowSnapshotState \<Rightarrow> string \<Rightarrow>
     goerr + workflowCommand list" where
  "planWorkflowForParent sha definition state parent = (case definition of
     None \<Rightarrow> Err ErrWorkflowDefinitionMismatch
   | Some d \<Rightarrow>
     if validateWorkflowState (Some state) \<noteq> None \<or> wf_Version state \<noteq> wd_version d \<or>
        wf_Fingerprint state \<noteq> wd_fingerprint d \<or> length (wf_Nodes state) \<noteq> length (wd_nodes d)
     then Err ErrWorkflowDefinitionMismatch
     else plan_nodes sha state parent (wd_nodes d))"

end
