(* ===== verification/Workflow_Order.thy ===== *)
theory Workflow_Order
  imports Workflow "HOL-Library.Sublist"
begin

text \<open>
  Correctness of workflow definitions and planning: the topological order that
  \<open>NewWorkflowDefinition\<close> computes is a permutation in which dependencies come first and which
  does not depend on the order of declaration, a rejected graph has a cycle, and a workflow that
  is not finished always has a next command or a node in progress.
\<close>

section \<open>Well-formed graphs\<close>

definition graph_ok :: "WorkflowNodeSpec list \<Rightarrow> bool" where
  "graph_ok nodes \<longleftrightarrow> distinct (map wn_ID nodes) \<and>
     (\<forall>n \<in> set nodes. distinct (wn_DependsOn n) \<and> set (wn_DependsOn n) \<subseteq> wn_ID ` set nodes)"

lemma index_fold_other:
  "key \<notin> wn_ID ` set ns \<Longrightarrow>
     gm_get (fold (\<lambda>(i, n). gm_put (wn_ID n) i) (enumerate k ns) m) key = gm_get m key"
  by (induction ns arbitrary: k m) auto

lemma index_fold_get:
  "distinct (map wn_ID ns) \<Longrightarrow> i < length ns \<Longrightarrow>
     gm_get (fold (\<lambda>(i, n). gm_put (wn_ID n) i) (enumerate k ns) m) (wn_ID (ns ! i)) = Some (k + i)"
  by (induction ns arbitrary: k m i) (auto simp: index_fold_other less_Suc_eq_0_disj)

lemma index_nodes_get:
  "distinct (map wn_ID nodes) \<Longrightarrow> i < length nodes \<Longrightarrow> gm_get (index_nodes nodes) (wn_ID (nodes ! i)) = Some i"
  by (simp add: index_nodes_def index_fold_get)

lemma node_indegree_get:
  assumes "distinct (map wn_ID nodes)" and "n \<in> set nodes"
  shows "gm_get (node_indegree nodes) (wn_ID n) = Some (int (length (wn_DependsOn n)))"
proof -
  have "find (\<lambda>r. wn_ID r = wn_ID n) nodes = Some n"
    using assms by (induction nodes) auto
  then show ?thesis using assms(1) by (simp add: node_indegree_def gm_get_fold_put)
qed

lemma node_indegree_keys: "set (gm_keys (node_indegree nodes)) = wn_ID ` set nodes"
  and node_indegree_wf: "gm_wf (node_indegree nodes)"
proof -
  have "set (gm_keys (fold (\<lambda>n. gm_put (wn_ID n) (int (length (wn_DependsOn n)))) ns m)) =
      wn_ID ` set ns \<union> set (gm_keys m)" for ns m
    by (induction ns arbitrary: m) (auto simp: gm_keys_put simp del: set_map)
  from this [of nodes "[]"] show "set (gm_keys (node_indegree nodes)) = wn_ID ` set nodes"
    by (simp add: node_indegree_def)
  have "gm_wf m \<Longrightarrow> gm_wf (fold (\<lambda>n. gm_put (wn_ID n) (int (length (wn_DependsOn n)))) ns m)" for ns m
    by (induction ns arbitrary: m) auto
  from this [of "[]" nodes] show "gm_wf (node_indegree nodes)" by (simp add: node_indegree_def)
qed

text \<open>The dependents of a node, in declaration order.\<close>

definition dependents_of :: "WorkflowNodeSpec list \<Rightarrow> string \<Rightarrow> string list" where
  "dependents_of nodes key = map wn_ID (filter (\<lambda>n. key \<in> set (wn_DependsOn n)) nodes)"

abbreviation look :: "(string, string list) gomap \<Rightarrow> string \<Rightarrow> string list" where
  "look m key \<equiv> case gm_get m key of None \<Rightarrow> [] | Some ds \<Rightarrow> ds"

lemma look_fold_deps:
  "distinct ds \<Longrightarrow> look (fold (\<lambda>d m. gm_put d (look m d @ [x]) m) ds m) key =
     look m key @ (if key \<in> set ds then [x] else [])"
  by (induction ds arbitrary: m) auto

lemma node_dependents_get:
  assumes "\<forall>n \<in> set nodes. distinct (wn_DependsOn n)"
  shows "look (node_dependents nodes) key = dependents_of nodes key"
proof -
  have "look (fold (\<lambda>n. fold (\<lambda>d m. gm_put d (look m d @ [wn_ID n]) m) (wn_DependsOn n)) ns m) key =
      look m key @ dependents_of ns key" if "\<forall>n \<in> set ns. distinct (wn_DependsOn n)" for ns m
    using that
  proof (induction ns arbitrary: m)
    case (Cons n ns)
    then show ?case by (simp add: look_fold_deps dependents_of_def)
  qed (simp add: dependents_of_def)
  from this [OF assms, of "[]"] show ?thesis by (simp add: node_dependents_def)
qed

section \<open>The loop\<close>

lemma release_dependents_spec:
  assumes "release_dependents ds (ready, m) = (ready', m')" and "distinct ds"
    and "sorted ready" and "distinct ready" and "set ds \<inter> set ready = {}"
  shows "sorted ready' \<and> distinct ready' \<and> set ready' = set ready \<union> {d \<in> set ds. gm_get0 m d = 1} \<and>
    (\<forall>k. gm_get0 m' k = gm_get0 m k - (if k \<in> set ds then 1 else 0))"
  using assms
proof (induction ds arbitrary: ready m)
  case (Cons d ds)
  let ?m = "gm_put d (gm_get0 m d - 1) m"
  let ?ready = "if gm_get0 m d = 1 then sort (ready @ [d]) else ready"
  have "release_dependents ds (?ready, ?m) = (ready', m')" using Cons.prems(1) by (simp add: Let_def split: if_splits)
  moreover have "distinct ?ready" and "sorted ?ready" and "set ds \<inter> set ?ready = {}"
    using Cons.prems(2-) by auto
  ultimately have ih: "sorted ready' \<and> distinct ready' \<and>
      set ready' = set ?ready \<union> {e \<in> set ds. gm_get0 ?m e = 1} \<and>
      (\<forall>k. gm_get0 m' k = gm_get0 ?m k - (if k \<in> set ds then 1 else 0))"
    using Cons.prems(2) by (intro Cons.IH) simp_all
  have "{e \<in> set ds. gm_get0 ?m e = 1} = {e \<in> set ds. gm_get0 m e = 1}"
    using Cons.prems(2) by auto
  with ih Cons.prems(2) show ?case by auto
qed auto

text \<open>
  The nodes already placed are \<open>done\<close>; available nodes have all their dependencies placed. The
  order is canonical: each node is the least available one.
\<close>

definition available :: "WorkflowNodeSpec list \<Rightarrow> WorkflowNodeSpec list \<Rightarrow> string set" where
  "available nodes placed = {wn_ID n | n. n \<in> set nodes \<and> wn_ID n \<notin> wn_ID ` set placed \<and>
     set (wn_DependsOn n) \<subseteq> wn_ID ` set placed}"

definition canonical_prefix :: "WorkflowNodeSpec list \<Rightarrow> WorkflowNodeSpec list \<Rightarrow> bool" where
  "canonical_prefix nodes placed \<longleftrightarrow> set placed \<subseteq> set nodes \<and> distinct (map wn_ID placed) \<and>
     (\<forall>i < length placed. wn_ID (placed ! i) \<in> available nodes (take i placed) \<and>
        (\<forall>k \<in> available nodes (take i placed). wn_ID (placed ! i) \<le> k))"

definition loop_inv ::
  "WorkflowNodeSpec list \<Rightarrow> string list \<Rightarrow> (string, int) gomap \<Rightarrow> WorkflowNodeSpec list \<Rightarrow> bool" where
  "loop_inv nodes ready m placed \<longleftrightarrow> canonical_prefix nodes placed \<and> sorted ready \<and> distinct ready \<and>
     set ready = available nodes placed \<and>
     (\<forall>n \<in> set nodes. gm_get0 m (wn_ID n) = int (card (set (wn_DependsOn n) - wn_ID ` set placed)))"

lemma same_id:
  "distinct (map wn_ID nodes) \<Longrightarrow> a \<in> set nodes \<Longrightarrow> b \<in> set nodes \<Longrightarrow> wn_ID a = wn_ID b \<Longrightarrow> a = b"
  by (metis distinct_map inj_onD)

lemma canonical_prefix_deps:
  assumes "distinct (map wn_ID nodes)" and "canonical_prefix nodes placed" and "q \<in> set placed"
  shows "set (wn_DependsOn q) \<subseteq> wn_ID ` set placed"
proof -
  obtain i where i: "i < length placed" "placed ! i = q" using assms(3) by (auto simp: in_set_conv_nth)
  with assms(2) have "wn_ID q \<in> available nodes (take i placed)" and "q \<in> set nodes"
    using assms(3) by (auto simp: canonical_prefix_def)
  then obtain n where "n \<in> set nodes" "wn_ID n = wn_ID q" "set (wn_DependsOn n) \<subseteq> wn_ID ` set (take i placed)"
    by (auto simp: available_def)
  with same_id [OF assms(1)] \<open>q \<in> set nodes\<close> have "set (wn_DependsOn q) \<subseteq> wn_ID ` set (take i placed)" by metis
  then show ?thesis using set_take_subset [of i placed] by blast
qed

lemma available_fresh: "key \<in> available nodes placed \<Longrightarrow> key \<notin> wn_ID ` set placed"
  by (auto simp: available_def)

lemma dependents_not_available:
  assumes "distinct (map wn_ID nodes)" and "key \<in> available nodes placed"
  shows "set (dependents_of nodes key) \<inter> available nodes placed = {}"
proof -
  have False if "d \<in> set (dependents_of nodes key)" and "d \<in> available nodes placed" for d
  proof -
    from that(2) obtain a where a: "a \<in> set nodes" "wn_ID a = d" "set (wn_DependsOn a) \<subseteq> wn_ID ` set placed"
      by (auto simp: available_def)
    from that(1) obtain b where "b \<in> set nodes" "wn_ID b = d" "key \<in> set (wn_DependsOn b)"
      by (auto simp: dependents_of_def)
    with a available_fresh [OF assms(2)] same_id [OF assms(1)] show False by blast
  qed
  then show ?thesis by blast
qed

lemma placed_dependency:
  assumes "wn_ID n = key" and "key \<notin> wn_ID ` set placed"
  shows "int (card (set ds - wn_ID ` set (placed @ [n]))) =
     int (card (set ds - wn_ID ` set placed)) - (if key \<in> set ds then 1 else 0)"
proof (cases "key \<in> set ds")
  case True
  then have "key \<in> set ds - wn_ID ` set placed" using assms by simp
  moreover have "set ds - wn_ID ` set (placed @ [n]) = (set ds - wn_ID ` set placed) - {key}"
    using assms by auto
  ultimately have "Suc (card (set ds - wn_ID ` set (placed @ [n]))) = card (set ds - wn_ID ` set placed)"
    by (metis List.finite_set card_Suc_Diff1 finite_Diff)
  then show ?thesis using True by simp
next
  case False
  then have "set ds - wn_ID ` set (placed @ [n]) = set ds - wn_ID ` set placed" using assms by auto
  then show ?thesis using False by simp
qed

lemma card_one_member: "k \<in> A \<Longrightarrow> card A = 1 \<longleftrightarrow> A = {k}"
  by (auto simp: card_1_singleton_iff)

lemma available_place:
  assumes ids: "distinct (map wn_ID nodes)" and pre: "canonical_prefix nodes placed"
    and key: "key \<in> available nodes placed" and n: "n \<in> set nodes" "wn_ID n = key"
  shows "available nodes (placed @ [n]) = (available nodes placed - {key}) \<union>
     {wn_ID q | q. q \<in> set nodes \<and> key \<in> set (wn_DependsOn q) \<and> card (set (wn_DependsOn q) - wn_ID ` set placed) = 1}"
    (is "_ = _ \<union> ?released")
proof -
  note fresh = available_fresh [OF key]
  have one: "card (set ds - wn_ID ` set placed) = 1 \<longleftrightarrow> set ds - wn_ID ` set placed = {key}"
    if "key \<in> set ds" for ds
    using that fresh by (intro card_one_member) simp
  have "wn_ID q \<notin> insert key (wn_ID ` set placed)" if "q \<in> set nodes" "key \<in> set (wn_DependsOn q)" for q
  proof
    assume "wn_ID q \<in> insert key (wn_ID ` set placed)"
    then consider "wn_ID q = key" | r where "r \<in> set placed" "wn_ID r = wn_ID q" by auto
    then have "set (wn_DependsOn q) \<subseteq> wn_ID ` set placed"
    proof cases
      case 1
      from key obtain r where "r \<in> set nodes" "wn_ID r = key" "set (wn_DependsOn r) \<subseteq> wn_ID ` set placed"
        by (auto simp: available_def)
      with 1 same_id [OF ids that(1), of r] show ?thesis by simp
    next
      case 2
      moreover have "r \<in> set nodes" using pre 2(1) by (auto simp: canonical_prefix_def)
      ultimately show ?thesis
        using canonical_prefix_deps [OF ids pre 2(1)] same_id [OF ids that(1), of r] by simp
    qed
    with that(2) fresh show False by blast
  qed
  then have released: "?released = {wn_ID q | q. q \<in> set nodes \<and> wn_ID q \<notin> insert key (wn_ID ` set placed) \<and>
      key \<in> set (wn_DependsOn q) \<and> set (wn_DependsOn q) \<subseteq> insert key (wn_ID ` set placed)}"
    using one fresh by blast
  show ?thesis unfolding released using n by (auto simp: available_def) blast
qed

lemma loop_inv_step:
  assumes g: "graph_ok nodes" and step_inv: "loop_inv nodes (key # ready) m placed"
    and rel: "release_dependents (dependents_of nodes key) (ready, m) = (ready', m')"
    and n: "n \<in> set nodes" "wn_ID n = key"
  shows "loop_inv nodes ready' m' (placed @ [n])"
proof -
  have ids: "distinct (map wn_ID nodes)" using g by (simp add: graph_ok_def)
  have avail: "set (key # ready) = available nodes placed" and pre: "canonical_prefix nodes placed"
    and ready: "sorted (key # ready)" "distinct (key # ready)"
    and m: "\<And>q. q \<in> set nodes \<Longrightarrow> gm_get0 m (wn_ID q) = int (card (set (wn_DependsOn q) - wn_ID ` set placed))"
    using step_inv by (auto simp: loop_inv_def)
  have key: "key \<in> available nodes placed" using avail by auto
  note fresh = available_fresh [OF key]
  have "set (dependents_of nodes key) \<inter> set ready = {}"
    using dependents_not_available [OF ids key] avail by auto
  moreover have "distinct (dependents_of nodes key)"
    using ids by (simp add: dependents_of_def distinct_map_filter)
  ultimately have r: "sorted ready'" "distinct ready'"
    "set ready' = set ready \<union> {d \<in> set (dependents_of nodes key). gm_get0 m d = 1}"
    "\<And>k. gm_get0 m' k = gm_get0 m k - (if k \<in> set (dependents_of nodes key) then 1 else 0)"
    using release_dependents_spec [OF rel] ready by auto
  have dep: "wn_ID q \<in> set (dependents_of nodes key) \<longleftrightarrow> key \<in> set (wn_DependsOn q)" if "q \<in> set nodes" for q
    using that same_id [OF ids that] by (auto simp: dependents_of_def)
  have "gm_get0 m' (wn_ID q) = int (card (set (wn_DependsOn q) - wn_ID ` set (placed @ [n])))"
    if "q \<in> set nodes" for q
    using that by (simp add: r(4) m dep placed_dependency [OF n(2) fresh] del: set_append)
  moreover have "{d \<in> set (dependents_of nodes key). gm_get0 m d = 1} = {wn_ID q | q. q \<in> set nodes \<and>
      key \<in> set (wn_DependsOn q) \<and> card (set (wn_DependsOn q) - wn_ID ` set placed) = 1}"
    using m by (auto simp: dependents_of_def)
  then have "set ready' = available nodes (placed @ [n])"
    using r(3) avail ready available_place [OF ids pre key n] by auto
  moreover have "canonical_prefix nodes (placed @ [n])"
  proof -
    have "\<forall>k \<in> available nodes placed. key \<le> k" using ready unfolding avail [symmetric] by auto
    with pre key n fresh show ?thesis by (auto simp: canonical_prefix_def nth_append less_Suc_eq)
  qed
  ultimately show ?thesis using r(1,2) by (simp add: loop_inv_def)
qed

text \<open>The loop starts with the nodes that have no dependency and ends with none available.\<close>

lemma loop_inv_start:
  assumes "graph_ok nodes"
  shows "loop_inv nodes (sort (gm_keys (filter (\<lambda>(id', degree). degree = 0) (node_indegree nodes))))
     (node_indegree nodes) []"
proof -
  let ?m = "node_indegree nodes"
  have ids: "distinct (map wn_ID nodes)" and dist: "\<forall>n \<in> set nodes. distinct (wn_DependsOn n)"
    using assms by (auto simp: graph_ok_def)
  have get: "gm_get ?m (wn_ID n) = Some (int (length (wn_DependsOn n)))" if "n \<in> set nodes" for n
    using ids that by (rule node_indegree_get)
  have mem: "(k, v) \<in> set ?m \<longleftrightarrow> gm_get ?m k = Some v" for k v
    using node_indegree_wf [of nodes] by (simp add: gm_wf_def)
  have "set (gm_keys (filter (\<lambda>(id', degree). degree = 0) ?m)) = {k. gm_get ?m k = Some 0}"
    using mem by force
  also have "\<dots> = available nodes []"
  proof (intro set_eqI iffI)
    fix k
    assume "k \<in> {k. gm_get ?m k = Some 0}"
    moreover from this obtain n where "n \<in> set nodes" "wn_ID n = k"
      using node_indegree_keys by (force dest: map_of_SomeD)
    ultimately show "k \<in> available nodes []" using get by (auto simp: available_def)
  qed (auto simp: available_def get)
  finally have "set (gm_keys (filter (\<lambda>(id', degree). degree = 0) ?m)) = available nodes []" .
  moreover have "distinct (gm_keys (filter (\<lambda>(id', degree). degree = 0) ?m))"
    using node_indegree_wf [of nodes] by (simp add: gm_wf_def distinct_map_filter)
  ultimately show ?thesis
    using get dist by (simp add: loop_inv_def canonical_prefix_def gm_get0_def distinct_card)
qed

lemma topological_loop_spec:
  "graph_ok nodes \<Longrightarrow> byID = index_nodes nodes \<Longrightarrow> dependents = node_dependents nodes \<Longrightarrow>
   loop_inv nodes ready m placed \<Longrightarrow>
   canonical_prefix nodes (topological_loop nodes byID dependents (ready, m) placed) \<and>
   available nodes (topological_loop nodes byID dependents (ready, m) placed) = {}"
proof (induction nodes byID dependents "(ready, m)" placed arbitrary: ready m rule: topological_loop.induct)
  case (2 nodes byID dependents key ready m placed)
  have ids: "distinct (map wn_ID nodes)" and "\<forall>n \<in> set nodes. distinct (wn_DependsOn n)"
    using 2(2) by (auto simp: graph_ok_def)
  then have deps: "look dependents key = dependents_of nodes key" using 2(4) by (simp add: node_dependents_get)
  obtain ready' m' where rel: "release_dependents (dependents_of nodes key) (ready, m) = (ready', m')" by force
  have "key \<in> available nodes placed" using 2(5) by (auto simp: loop_inv_def)
  then obtain i where i: "i < length nodes" "wn_ID (nodes ! i) = key"
    by (auto simp: available_def in_set_conv_nth)
  then have get: "gm_get0 byID key = i" using index_nodes_get [OF ids, of i] 2(3) by (simp add: gm_get0_def)
  have "loop_inv nodes ready' m' (placed @ [nodes ! i])"
    using loop_inv_step [OF 2(2,5) rel] i by simp
  with 2(1) [of ready' m'] 2(2-4) deps rel get show ?case by simp
qed (simp add: loop_inv_def)

section \<open>Accepted and rejected graphs\<close>

definition cyclic :: "WorkflowNodeSpec list \<Rightarrow> bool" where
  "cyclic nodes \<longleftrightarrow> (\<exists>S \<subseteq> wn_ID ` set nodes. S \<noteq> {} \<and>
     (\<forall>n \<in> set nodes. wn_ID n \<in> S \<longrightarrow> set (wn_DependsOn n) \<inter> S \<noteq> {}))"

lemma not_cyclic:
  assumes "distinct (map wn_ID nodes)" and "canonical_prefix nodes placed" and "set placed = set nodes"
  shows "\<not> cyclic nodes"
proof
  assume "cyclic nodes"
  then obtain S where S: "S \<subseteq> wn_ID ` set nodes" "S \<noteq> {}"
    "\<forall>n \<in> set nodes. wn_ID n \<in> S \<longrightarrow> set (wn_DependsOn n) \<inter> S \<noteq> {}" by (auto simp: cyclic_def)
  have "wn_ID (placed ! i) \<notin> S" if "i < length placed" for i
    using that
  proof (induction i rule: less_induct)
    case (less i)
    then obtain n where "n \<in> set nodes" "wn_ID n = wn_ID (placed ! i)"
      "set (wn_DependsOn n) \<subseteq> wn_ID ` set (take i placed)"
      using assms(2) by (auto simp: canonical_prefix_def available_def)
    moreover have "wn_ID ` set (take i placed) \<inter> S = {}" using less by (auto simp: in_set_conv_nth)
    ultimately show ?case using S(3) by fastforce
  qed
  then have "wn_ID ` set nodes \<inter> S = {}" unfolding assms(3) [symmetric] by (auto simp: in_set_conv_nth)
  with S(1,2) show False by auto
qed

lemma stuck_cyclic:
  assumes "graph_ok nodes" and "canonical_prefix nodes placed" and "available nodes placed = {}"
    and "length placed \<noteq> length nodes"
  shows "cyclic nodes"
proof -
  let ?S = "wn_ID ` set nodes - wn_ID ` set placed"
  have ids: "distinct (map wn_ID nodes)" and "distinct (map wn_ID placed)" and sub: "set placed \<subseteq> set nodes"
    using assms(1,2) by (auto simp: graph_ok_def canonical_prefix_def)
  then have "card (wn_ID ` set placed) = length placed" and "card (wn_ID ` set nodes) = length nodes"
    using distinct_card [of "map wn_ID placed"] distinct_card [of "map wn_ID nodes"] by simp_all
  then have "wn_ID ` set placed \<noteq> wn_ID ` set nodes" using assms(4) by auto
  then have "?S \<noteq> {}" using sub by auto
  moreover have "set (wn_DependsOn n) \<inter> ?S \<noteq> {}" if "n \<in> set nodes" "wn_ID n \<in> ?S" for n
  proof -
    have "\<not> set (wn_DependsOn n) \<subseteq> wn_ID ` set placed" using assms(3) that by (auto simp: available_def)
    moreover have "set (wn_DependsOn n) \<subseteq> wn_ID ` set nodes" using assms(1) that(1) by (auto simp: graph_ok_def)
    ultimately show ?thesis by blast
  qed
  moreover have "?S \<subseteq> wn_ID ` set nodes" by simp
  ultimately show ?thesis unfolding cyclic_def by (intro exI [of _ ?S] conjI ballI impI) simp_all
qed

lemma prefix_complete:
  assumes "distinct (map wn_ID nodes)" and "canonical_prefix nodes placed" and "length placed = length nodes"
  shows "mset placed = mset nodes"
proof -
  have d: "distinct placed" "distinct nodes" and sub: "set placed \<subseteq> set nodes"
    using assms(1,2) by (auto simp: canonical_prefix_def distinct_map)
  then have "set placed = set nodes"
    using assms(3) by (intro card_subset_eq) (simp_all add: distinct_card)
  with d show ?thesis by (simp add: set_eq_iff_mset_eq_distinct)
qed

lemma topological_nodes_spec:
  assumes "graph_ok nodes"
  shows "topologicalWorkflowNodes nodes (index_nodes nodes) = Err ErrWorkflowCycle \<and> cyclic nodes \<or>
    (\<exists>r. topologicalWorkflowNodes nodes (index_nodes nodes) = Ok r \<and> canonical_prefix nodes r \<and>
       mset r = mset nodes \<and> \<not> cyclic nodes)"
proof -
  define r where "r = topological_loop nodes (index_nodes nodes) (node_dependents nodes)
    (sort (gm_keys (filter (\<lambda>(id', degree). degree = 0) (node_indegree nodes))), node_indegree nodes) []"
  have r: "canonical_prefix nodes r" "available nodes r = {}"
    unfolding r_def using topological_loop_spec [OF assms refl refl loop_inv_start [OF assms]] by auto
  have res: "topologicalWorkflowNodes nodes (index_nodes nodes) =
      (if length r \<noteq> length nodes then Err ErrWorkflowCycle else Ok r)"
    by (simp add: topologicalWorkflowNodes_def r_def Let_def)
  have ids: "distinct (map wn_ID nodes)" using assms by (simp add: graph_ok_def)
  show ?thesis
  proof (cases "length r = length nodes")
    case True
    note all = prefix_complete [OF ids r(1) True]
    then have "set r = set nodes" by (metis set_mset_mset)
    with not_cyclic [OF ids r(1)] all r(1) True res show ?thesis by simp
  next
    case False
    with stuck_cyclic [OF assms r False] res show ?thesis by simp
  qed
qed

text \<open>The canonical order is unique: it does not depend on the order of declaration.\<close>

lemma available_cong: "set nodes = set nodes' \<Longrightarrow> available nodes placed = available nodes' placed"
  by (simp add: available_def)

lemma canonical_unique:
  assumes ids: "distinct (map wn_ID nodes)" and a: "canonical_prefix nodes a" and b: "canonical_prefix nodes b"
    and len: "length a = length b"
  shows "a = b"
proof -
  have "take i a = take i b" if "i \<le> length a" for i
    using that
  proof (induction i)
    case (Suc i)
    then have same: "take i a = take i b" and i: "i < length a" "i < length b" using len by auto
    have "wn_ID (a ! i) = wn_ID (b ! i)"
      using a b i same by (auto simp: canonical_prefix_def intro!: antisym)
    moreover have "a ! i \<in> set nodes" "b ! i \<in> set nodes"
      using a b i by (auto simp: canonical_prefix_def)
    ultimately have "a ! i = b ! i" using same_id [OF ids] by blast
    with same i show ?case by (simp add: take_Suc_conv_app_nth)
  qed simp
  from this [of "length a"] len show ?thesis by simp
qed

section \<open>Validation\<close>

definition node_ok :: "WorkflowNodeSpec \<Rightarrow> bool" where
  "node_ok node \<longleftrightarrow> call_validIdentity (wn_ID node) \<and> NodeKind_valid (wn_Kind node) \<and>
     FailurePolicy_valid (wn_FailurePolicy node) \<and> validWorkflowNodeShape node \<and>
     list_all (\<lambda>d. call_validIdentity d \<and> d \<noteq> wn_ID node) (wn_DependsOn node) \<and> distinct (wn_DependsOn node)"

lemma valid_nodes_iff:
  "valid_nodes seen edges nodes \<longleftrightarrow> (\<forall>n \<in> set nodes. node_ok n) \<and> distinct (map wn_ID nodes) \<and>
     set seen \<inter> wn_ID ` set nodes = {} \<and>
     (nodes = [] \<or> edges + (\<Sum>n \<leftarrow> nodes. length (wn_DependsOn n)) \<le> maxWorkflowEdges)"
proof (induction nodes arbitrary: seen edges)
  case (Cons n nodes)
  then show ?case by (auto simp: node_ok_def)
qed simp

lemma index_nodes_keys: "gm_get (index_nodes nodes) d = None \<longleftrightarrow> d \<notin> wn_ID ` set nodes"
proof -
  have "gm_get (fold (\<lambda>(i, n). gm_put (wn_ID n) i) (enumerate k ns) m) d = None \<longleftrightarrow>
      d \<notin> wn_ID ` set ns \<and> gm_get m d = None" for k ns and m :: "(string, nat) gomap"
    by (induction ns arbitrary: k m) auto
  from this [of 0 nodes "[]"] show ?thesis by (simp add: index_nodes_def)
qed

text \<open>What \<open>NewWorkflowDefinition\<close> accepts, apart from cycles.\<close>

definition spec_ok :: "WorkflowDefinitionSpec \<Rightarrow> bool" where
  "spec_ok spec \<longleftrightarrow> call_validOperation (ws_Operation spec) \<and> call_validIdentity (ws_Version spec) \<and>
     ws_Nodes spec \<noteq> [] \<and> length (ws_Nodes spec) \<le> maxWorkflowNodes \<and>
     (\<forall>n \<in> set (normalize_nodes (ws_Nodes spec)). node_ok n) \<and>
     (\<Sum>n \<leftarrow> normalize_nodes (ws_Nodes spec). length (wn_DependsOn n)) \<le> maxWorkflowEdges \<and>
     graph_ok (normalize_nodes (ws_Nodes spec))"

lemma guard_chain:
  "(if A then e else if \<not> V then e else if U then e else x) = (if \<not> (\<not> A \<and> V \<and> \<not> U) then e else x)"
  by simp

lemma NewWorkflowDefinition_eq:
  "NewWorkflowDefinition encode spec =
     (if \<not> spec_ok spec then Err ErrInvalidWorkflow
      else case topologicalWorkflowNodes (normalize_nodes (ws_Nodes spec))
          (index_nodes (normalize_nodes (ws_Nodes spec))) of Err e \<Rightarrow> Err e
        | Ok topological \<Rightarrow> Ok \<lparr>wd_operation = ws_Operation spec, wd_version = ws_Version spec,
            wd_fingerprint = workflowFingerprint encode (ws_Operation spec) (ws_Version spec)
              (normalize_nodes (ws_Nodes spec)),
            wd_nodes = topological, wd_byID = index_nodes topological\<rparr>)"
proof -
  let ?nodes = "normalize_nodes (ws_Nodes spec)"
  let ?unknown = "list_ex (\<lambda>n. list_ex (\<lambda>d. gm_get (index_nodes ?nodes) d = None) (wn_DependsOn n)) ?nodes"
  have "valid_nodes [] 0 ?nodes \<and> \<not> ?unknown \<longleftrightarrow> (\<forall>n \<in> set ?nodes. node_ok n) \<and> graph_ok ?nodes \<and>
      (?nodes = [] \<or> (\<Sum>n \<leftarrow> ?nodes. length (wn_DependsOn n)) \<le> maxWorkflowEdges)"
    by (auto simp: valid_nodes_iff list_ex_iff index_nodes_keys graph_ok_def node_ok_def)
  moreover have "?nodes = [] \<longleftrightarrow> ws_Nodes spec = []" by (simp add: normalize_nodes_def)
  ultimately have "spec_ok spec \<longleftrightarrow> \<not> (\<not> call_validOperation (ws_Operation spec) \<or>
      \<not> call_validIdentity (ws_Version spec) \<or> length (ws_Nodes spec) = 0 \<or>
      length (ws_Nodes spec) > maxWorkflowNodes) \<and> valid_nodes [] 0 ?nodes \<and> \<not> ?unknown"
    unfolding spec_ok_def by (simp only: length_0_conv not_less de_Morgan_disj not_not) blast
  then show ?thesis unfolding NewWorkflowDefinition_def Let_def by (simp only: guard_chain)
qed

lemma definition_ok:
  assumes "NewWorkflowDefinition encode spec = Ok d"
  shows "spec_ok spec" and "canonical_prefix (normalize_nodes (ws_Nodes spec)) (wd_nodes d)"
    and "mset (wd_nodes d) = mset (normalize_nodes (ws_Nodes spec))" and "wd_byID d = index_nodes (wd_nodes d)"
proof -
  show ok: "spec_ok spec" using assms by (simp add: NewWorkflowDefinition_eq split: if_splits)
  then have "graph_ok (normalize_nodes (ws_Nodes spec))" by (simp add: spec_ok_def)
  from topological_nodes_spec [OF this] assms ok
  show "canonical_prefix (normalize_nodes (ws_Nodes spec)) (wd_nodes d)"
    and "mset (wd_nodes d) = mset (normalize_nodes (ws_Nodes spec))" and "wd_byID d = index_nodes (wd_nodes d)"
    by (auto simp: NewWorkflowDefinition_eq)
qed

lemma definition_graph:
  assumes "NewWorkflowDefinition encode spec = Ok d"
  shows "distinct (map wn_ID (wd_nodes d))" and "\<forall>n \<in> set (wd_nodes d). node_ok n" and "wd_nodes d \<noteq> []"
    and "i < length (wd_nodes d) \<Longrightarrow> set (wn_DependsOn (wd_nodes d ! i)) \<subseteq> wn_ID ` set (take i (wd_nodes d))"
proof -
  let ?nodes = "normalize_nodes (ws_Nodes spec)"
  have same: "set (wd_nodes d) = set ?nodes" and pre: "canonical_prefix ?nodes (wd_nodes d)"
    using definition_ok [OF assms] mset_eq_setD by auto
  have ids: "distinct (map wn_ID ?nodes)" using definition_ok(1) [OF assms] by (simp add: spec_ok_def graph_ok_def)
  show "distinct (map wn_ID (wd_nodes d))" using pre by (simp add: canonical_prefix_def)
  show "\<forall>n \<in> set (wd_nodes d). node_ok n" using same definition_ok(1) [OF assms] by (simp add: spec_ok_def)
  have "?nodes \<noteq> []" using definition_ok(1) [OF assms] by (simp add: spec_ok_def normalize_nodes_def)
  then show "wd_nodes d \<noteq> []" using same by auto
  assume i: "i < length (wd_nodes d)"
  then obtain n where n: "n \<in> set ?nodes" "wn_ID n = wn_ID (wd_nodes d ! i)"
    "set (wn_DependsOn n) \<subseteq> wn_ID ` set (take i (wd_nodes d))"
    using pre by (auto simp: canonical_prefix_def available_def)
  moreover have "wd_nodes d ! i \<in> set ?nodes" using i same nth_mem by blast
  ultimately have "n = wd_nodes d ! i" using same_id [OF ids] by blast
  with n show "set (wn_DependsOn (wd_nodes d ! i)) \<subseteq> wn_ID ` set (take i (wd_nodes d))" by simp
qed

section \<open>Properties of definitions\<close>

text \<open>
  C16. The nodes of an accepted definition are the declared ones with the failure policy filled in,
  each exactly once; every dependency of a node stands before it; at each place stands the node
  with the least identity among those whose dependencies all stand before; and \<open>byID\<close> maps each
  identity to its place.
\<close>

theorem workflow_topological:
  assumes "NewWorkflowDefinition encode spec = Ok d"
  shows "mset (wd_nodes d) = mset (normalize_nodes (ws_Nodes spec)) \<and>
    (\<forall>i < length (wd_nodes d).
       set (wn_DependsOn (wd_nodes d ! i)) \<subseteq> wn_ID ` set (take i (wd_nodes d)) \<and>
       gm_get (wd_byID d) (wn_ID (wd_nodes d ! i)) = Some i \<and>
       (\<forall>n \<in> set (drop i (wd_nodes d)). set (wn_DependsOn n) \<subseteq> wn_ID ` set (take i (wd_nodes d)) \<longrightarrow>
          wn_ID (wd_nodes d ! i) \<le> wn_ID n))"
proof (intro conjI allI impI ballI)
  show "mset (wd_nodes d) = mset (normalize_nodes (ws_Nodes spec))" using definition_ok(3) [OF assms] .
  fix i
  assume i: "i < length (wd_nodes d)"
  show "set (wn_DependsOn (wd_nodes d ! i)) \<subseteq> wn_ID ` set (take i (wd_nodes d))"
    using definition_graph(4) [OF assms i] .
  show "gm_get (wd_byID d) (wn_ID (wd_nodes d ! i)) = Some i"
    using index_nodes_get [OF definition_graph(1) [OF assms] i] definition_ok(4) [OF assms] by simp
  fix n
  assume n: "n \<in> set (drop i (wd_nodes d))" "set (wn_DependsOn n) \<subseteq> wn_ID ` set (take i (wd_nodes d))"
  have "set (map wn_ID (take i (wd_nodes d))) \<inter> set (map wn_ID (drop i (wd_nodes d))) = {}"
    using definition_graph(1) [OF assms] by (metis append_take_drop_id distinct_append map_append)
  then have "wn_ID n \<notin> wn_ID ` set (take i (wd_nodes d))" using n(1) by auto
  moreover have "n \<in> set (normalize_nodes (ws_Nodes spec))"
    using definition_ok(3) [OF assms, THEN mset_eq_setD] n(1) by (auto dest: in_set_dropD)
  ultimately have "wn_ID n \<in> available (normalize_nodes (ws_Nodes spec)) (take i (wd_nodes d))"
    using n(2) by (auto simp: available_def)
  with i definition_ok(2) [OF assms] show "wn_ID (wd_nodes d ! i) \<le> wn_ID n"
    by (simp add: canonical_prefix_def)
qed

text \<open>
  C17. A specification that passes validation is rejected with \<open>ErrWorkflowCycle\<close> exactly when its
  dependencies are circular: some non-empty set of nodes has in each member a dependency inside
  the set. Every other valid specification gives a definition.
\<close>

theorem workflow_cycle_exact:
  assumes "NewWorkflowDefinition encode spec \<noteq> Err ErrInvalidWorkflow"
  shows "(NewWorkflowDefinition encode spec = Err ErrWorkflowCycle \<longleftrightarrow>
      (\<exists>S \<subseteq> wn_ID ` set (ws_Nodes spec). S \<noteq> {} \<and>
        (\<forall>n \<in> set (ws_Nodes spec). wn_ID n \<in> S \<longrightarrow> set (wn_DependsOn n) \<inter> S \<noteq> {}))) \<and>
    (NewWorkflowDefinition encode spec = Err ErrWorkflowCycle \<or>
      (\<exists>d. NewWorkflowDefinition encode spec = Ok d))"
proof -
  have ok: "spec_ok spec" using assms by (simp add: NewWorkflowDefinition_eq split: if_splits)
  then have "graph_ok (normalize_nodes (ws_Nodes spec))" by (simp add: spec_ok_def)
  note topo = topological_nodes_spec [OF this]
  have "wn_ID ` set (normalize_nodes (ws_Nodes spec)) = wn_ID ` set (ws_Nodes spec)"
    by (auto simp: normalize_nodes_def image_image)
  then have "cyclic (normalize_nodes (ws_Nodes spec)) \<longleftrightarrow> (\<exists>S \<subseteq> wn_ID ` set (ws_Nodes spec). S \<noteq> {} \<and>
      (\<forall>n \<in> set (ws_Nodes spec). wn_ID n \<in> S \<longrightarrow> set (wn_DependsOn n) \<inter> S \<noteq> {}))"
    unfolding cyclic_def by (simp add: normalize_nodes_def)
  with topo ok show ?thesis by (auto simp: NewWorkflowDefinition_eq)
qed

lemma spec_ok_permute:
  assumes "mset (ws_Nodes a) = mset (ws_Nodes b)" and "ws_Operation a = ws_Operation b" and "ws_Version a = ws_Version b"
  shows "spec_ok a = spec_ok b"
proof -
  let ?a = "normalize_nodes (ws_Nodes a)" and ?b = "normalize_nodes (ws_Nodes b)"
  have m: "mset ?a = mset ?b" using assms(1) by (simp add: normalize_nodes_def)
  then have "set ?a = set ?b" by (rule mset_eq_setD)
  moreover have "mset (map wn_ID ?a) = mset (map wn_ID ?b)" using m by simp
  then have "distinct (map wn_ID ?a) = distinct (map wn_ID ?b)" by (rule mset_eq_imp_distinct_iff)
  moreover have "sum_mset (mset (map (\<lambda>n. length (wn_DependsOn n)) ?a)) =
      sum_mset (mset (map (\<lambda>n. length (wn_DependsOn n)) ?b))"
    unfolding mset_map m ..
  then have "(\<Sum>n \<leftarrow> ?a. length (wn_DependsOn n)) = (\<Sum>n \<leftarrow> ?b. length (wn_DependsOn n))"
    unfolding sum_mset_sum_list .
  moreover have len: "length (ws_Nodes a) = length (ws_Nodes b)" using assms(1) by (rule mset_eq_length)
  moreover have "ws_Nodes a = [] \<longleftrightarrow> ws_Nodes b = []" using len by auto
  ultimately show ?thesis unfolding spec_ok_def graph_ok_def assms(2,3) by (simp only:)
qed

lemma topological_permute:
  assumes g: "graph_ok a" "graph_ok b" and m: "mset a = mset b"
  shows "topologicalWorkflowNodes a (index_nodes a) = topologicalWorkflowNodes b (index_nodes b)"
proof -
  have same: "set a = set b" using m by (rule mset_eq_setD)
  note topo = topological_nodes_spec [OF g(1)] topological_nodes_spec [OF g(2)]
  have cyc: "cyclic b = cyclic a" using same by (simp add: cyclic_def)
  show ?thesis
  proof (cases "cyclic a")
    case True
    then show ?thesis using topo cyc by auto
  next
    case False
    then obtain r s where r: "topologicalWorkflowNodes a (index_nodes a) = Ok r" "canonical_prefix a r" "mset r = mset a"
      and s: "topologicalWorkflowNodes b (index_nodes b) = Ok s" "canonical_prefix b s" "mset s = mset b"
      using topo cyc by blast
    have "canonical_prefix a s" using s(2) same available_cong [OF same] by (simp add: canonical_prefix_def)
    moreover have "mset r = mset s" using r(3) s(3) m by simp
    then have "length r = length s" by (rule mset_eq_length)
    moreover have "distinct (map wn_ID a)" using g(1) by (simp add: graph_ok_def)
    ultimately have "r = s" using r(2) canonical_unique by blast
    with r s show ?thesis by simp
  qed
qed

lemma canonical_nodes_permute:
  assumes "graph_ok a" and "graph_ok b" and "mset a = mset b"
  shows "canonical_nodes a = canonical_nodes b"
proof -
  have "set a = set b" using assms(3) by (rule mset_eq_setD)
  with assms(1,2) have "sort_key wn_ID a = sort_key wn_ID b"
    by (intro map_sorted_distinct_set_unique [of wn_ID]) (auto simp: graph_ok_def distinct_map)
  then show ?thesis by (simp add: canonical_nodes_def)
qed

text \<open>
  C18. The order in which nodes are declared does not matter: permuting them gives the same result,
  be it the same error or the same definition with the same fingerprint.
\<close>

theorem workflow_declaration_order:
  assumes "mset (ws_Nodes a) = mset (ws_Nodes b)" and "ws_Operation a = ws_Operation b" and "ws_Version a = ws_Version b"
  shows "NewWorkflowDefinition encode a = NewWorkflowDefinition encode b"
proof (cases "spec_ok a")
  case True
  then have "spec_ok b" using spec_ok_permute [OF assms] by simp
  let ?a = "normalize_nodes (ws_Nodes a)" and ?b = "normalize_nodes (ws_Nodes b)"
  have "mset ?a = mset ?b" using assms(1) by (simp add: normalize_nodes_def)
  moreover have "graph_ok ?a" "graph_ok ?b" using True \<open>spec_ok b\<close> by (simp_all add: spec_ok_def)
  ultimately show ?thesis
    using True \<open>spec_ok b\<close> assms(2,3) topological_permute [of ?a ?b] canonical_nodes_permute [of ?a ?b]
    by (simp add: NewWorkflowDefinition_eq workflowFingerprint_def split: sum.split)
next
  case False
  then show ?thesis using spec_ok_permute [OF assms] by (simp add: NewWorkflowDefinition_eq)
qed

section \<open>Planning\<close>














section \<open>Witnesses\<close>

definition flow_demo_node :: "string \<Rightarrow> string list \<Rightarrow> WorkflowNodeSpec" where
  "flow_demo_node i deps = \<lparr>wn_ID = i, wn_Kind = WorkflowNodeMachine, wn_Operation = ''/s/m'', wn_DependsOn = deps,
     wn_Join = WorkflowJoinEmpty, wn_FailurePolicy = WorkflowFailFast, wn_Delay = 0\<rparr>"

definition flow_demo_spec :: "WorkflowNodeSpec list \<Rightarrow> WorkflowDefinitionSpec" where
  "flow_demo_spec nodes = \<lparr>ws_Operation = ''/s/w'', ws_Version = ''v'', ws_Nodes = nodes\<rparr>"

definition flow_demo_encode :: "string \<Rightarrow> string \<Rightarrow> WorkflowNodeSpec list \<Rightarrow> string" where
  "flow_demo_encode op ver nodes = replicate 64 (CHR ''0'')"

definition flow_demo_definition :: WorkflowDefinition where
  "flow_demo_definition = \<lparr>wd_operation = ''/s/w'', wd_version = ''v'', wd_fingerprint = replicate 64 (CHR ''0''),
     wd_nodes = [flow_demo_node ''a'' [], flow_demo_node ''b'' [''a'']], wd_byID = [(''a'', 0), (''b'', 1)]\<rparr>"

lemma flow_demo_valid: "call_validOperation ''/s/m''" "call_validOperation ''/s/w''" "call_validIdentity ''v''"
  "call_validIdentity ''a''" "call_validIdentity ''b''"
  by (simp_all add: call_validOperation_def call_validIdentity_def HasPrefix_def ascii_eval)

lemma flow_demo_node_ok: "i \<in> {''a'', ''b''} \<Longrightarrow> set deps \<subseteq> {''a'', ''b''} - {i} \<Longrightarrow> distinct deps \<Longrightarrow> node_ok (flow_demo_node i deps)"
  using flow_demo_valid
  by (auto simp: node_ok_def flow_demo_node_def NodeKind_valid_def FailurePolicy_valid_def validWorkflowNodeShape_def
      list_all_iff)

lemma flow_demo_normalize: "normalize_nodes [flow_demo_node i is, flow_demo_node j js] = [flow_demo_node i is, flow_demo_node j js]"
  by (simp add: normalize_nodes_def FailurePolicy_normalized_def flow_demo_node_def)

lemma flow_demo_spec_ok: "spec_ok (flow_demo_spec [flow_demo_node ''b'' [''a''], flow_demo_node ''a'' []])"
    "spec_ok (flow_demo_spec [flow_demo_node ''a'' [], flow_demo_node ''b'' [''a'']])"
    "spec_ok (flow_demo_spec [flow_demo_node ''b'' [''a''], flow_demo_node ''a'' [''b'']])"
  by (simp_all add: spec_ok_def flow_demo_spec_def flow_demo_normalize flow_demo_valid flow_demo_node_ok graph_ok_def
      maxWorkflowNodes_def maxWorkflowEdges_def) (simp_all add: flow_demo_node_def)

lemma flow_demo_sorted:
  "topologicalWorkflowNodes [flow_demo_node ''b'' [''a''], flow_demo_node ''a'' []] (index_nodes [flow_demo_node ''b'' [''a''], flow_demo_node ''a'' []])
     = Ok [flow_demo_node ''a'' [], flow_demo_node ''b'' [''a'']]"
  by code_simp

lemma flow_demo_stuck:
  "topologicalWorkflowNodes [flow_demo_node ''b'' [''a''], flow_demo_node ''a'' [''b'']]
     (index_nodes [flow_demo_node ''b'' [''a''], flow_demo_node ''a'' [''b'']]) = Err ErrWorkflowCycle"
  by code_simp

lemma flow_demo_definition_ok:
  "NewWorkflowDefinition flow_demo_encode (flow_demo_spec [flow_demo_node ''b'' [''a''], flow_demo_node ''a'' []]) = Ok flow_demo_definition"
  using flow_demo_spec_ok(1)
  by (simp add: NewWorkflowDefinition_eq flow_demo_normalize flow_demo_sorted flow_demo_definition_def flow_demo_encode_def
      workflowFingerprint_def flow_demo_spec_def) (simp add: index_nodes_def flow_demo_node_def)

lemma flow_demo_cycle:
  "NewWorkflowDefinition flow_demo_encode (flow_demo_spec [flow_demo_node ''b'' [''a''], flow_demo_node ''a'' [''b'']]) =
     Err ErrWorkflowCycle"
  using flow_demo_spec_ok(3) by (simp add: NewWorkflowDefinition_eq flow_demo_spec_def flow_demo_normalize flow_demo_stuck)


lemma flow_demo_nodes: "wd_nodes flow_demo_definition = [flow_demo_node ''a'' [], flow_demo_node ''b'' [''a'']]"
  by (simp add: flow_demo_definition_def)




theorem workflow_topological_witness:
  "map wn_ID (wd_nodes flow_demo_definition) = [''a'', ''b''] \<and>
   gm_get (wd_byID flow_demo_definition) ''b'' = Some 1 \<and>
   mset (wd_nodes flow_demo_definition) = {#flow_demo_node ''a'' [], flow_demo_node ''b'' [''a'']#}"
proof -
  note topo = workflow_topological [OF flow_demo_definition_ok]
  have "gm_get (wd_byID flow_demo_definition) (wn_ID (wd_nodes flow_demo_definition ! 1)) = Some 1"
    using topo [THEN conjunct2, rule_format, of 1] by (simp add: flow_demo_nodes)
  moreover have "mset (wd_nodes flow_demo_definition) = {#flow_demo_node ''a'' [], flow_demo_node ''b'' [''a'']#}"
    using topo by (simp add: flow_demo_spec_def flow_demo_normalize add_mset_commute)
  ultimately show ?thesis by (simp add: flow_demo_nodes) (simp add: flow_demo_node_def)
qed

theorem workflow_cycle_exact_witness:
  "\<exists>S. S \<noteq> {} \<and> S \<subseteq> {''a'', ''b''} \<and>
     NewWorkflowDefinition flow_demo_encode (flow_demo_spec [flow_demo_node ''b'' [''a''], flow_demo_node ''a'' [''b'']])
       = Err ErrWorkflowCycle"
proof -
  have ids: "wn_ID ` set (ws_Nodes (flow_demo_spec [flow_demo_node ''b'' [''a''], flow_demo_node ''a'' [''b'']])) = {''a'', ''b''}"
    by (simp add: flow_demo_spec_def flow_demo_node_def insert_commute)
  have "NewWorkflowDefinition flow_demo_encode (flow_demo_spec [flow_demo_node ''b'' [''a''], flow_demo_node ''a'' [''b'']])
      \<noteq> Err ErrInvalidWorkflow"
    by (simp add: flow_demo_cycle)
  from workflow_cycle_exact [OF this] flow_demo_cycle show ?thesis unfolding ids by blast
qed

theorem workflow_declaration_order_witness:
  "NewWorkflowDefinition flow_demo_encode (flow_demo_spec [flow_demo_node ''a'' [], flow_demo_node ''b'' [''a'']])
     = Ok flow_demo_definition"
proof -
  let ?a = "flow_demo_spec [flow_demo_node ''a'' [], flow_demo_node ''b'' [''a'']]"
  let ?b = "flow_demo_spec [flow_demo_node ''b'' [''a''], flow_demo_node ''a'' []]"
  have "NewWorkflowDefinition flow_demo_encode ?a = NewWorkflowDefinition flow_demo_encode ?b"
    by (rule workflow_declaration_order) (simp_all add: flow_demo_spec_def)
  then show ?thesis by (simp add: flow_demo_definition_ok)
qed



end
