(* ===== verification/Continuation.thy ===== *)
theory Continuation
  imports Workflow
begin

text \<open>
  Continuable calls: the durable snapshot of a call, the transitions an executor or an external
  command requests, and \<open>Apply\<close>, which turns one snapshot into the next. The sources are
  \<open>model.go\<close>, \<open>decision.go\<close>, \<open>state.go\<close>, \<open>timer.go\<close>, \<open>input.go\<close>, \<open>retention.go\<close> and
  \<open>lease.go\<close> of \<open>programmable/continuation\<close>, and the two constructors of \<open>workflow.go\<close> that
  build snapshots and transitions of workflows.
\<close>

section \<open>Errors\<close>

abbreviation ErrInvalidIdentity :: goerr where
  "ErrInvalidIdentity \<equiv> Sentinel ''continuation: invalid identity''"

abbreviation ErrInvalidFrame :: goerr where
  "ErrInvalidFrame \<equiv> Sentinel ''continuation: invalid frame''"

abbreviation ErrTransition :: goerr where
  "ErrTransition \<equiv> Sentinel ''continuation: invalid state transition''"

abbreviation ErrTerminal :: goerr where
  "ErrTerminal \<equiv> Sentinel ''continuation: terminal snapshot''"

abbreviation ErrRevision :: goerr where
  "ErrRevision \<equiv> Sentinel ''continuation: invalid revision''"

abbreviation ErrFence :: goerr where
  "ErrFence \<equiv> Sentinel ''continuation: stale fence''"

abbreviation ErrSequence :: goerr where
  "ErrSequence \<equiv> Sentinel ''continuation: invalid frame sequence''"

abbreviation ErrCommandConflict :: goerr where
  "ErrCommandConflict \<equiv> Sentinel ''continuation: command identity conflict''"

abbreviation ErrInvalidTimer :: goerr where
  "ErrInvalidTimer \<equiv> Sentinel ''continuation: invalid timer''"

abbreviation ErrTimerNotReady :: goerr where
  "ErrTimerNotReady \<equiv> Sentinel ''continuation: timer is not ready''"

abbreviation ErrInvalidRetention :: goerr where
  "ErrInvalidRetention \<equiv> Sentinel ''continuation: invalid retention request''"

abbreviation ErrInvalidStore :: goerr where
  "ErrInvalidStore \<equiv> Sentinel ''continuation: invalid store request''"

section \<open>Identities\<close>

definition NewCallID :: "string \<Rightarrow> goerr + string" where
  "NewCallID v = (if call_validIdentity v then Ok v else Err (Wrapf ''call id'' [ErrInvalidIdentity]))"

definition NewOperation :: "string \<Rightarrow> goerr + string" where
  "NewOperation v = (if call_validOperation v then Ok v else Err (Wrapf ''operation'' [ErrInvalidIdentity]))"

section \<open>States and frames\<close>

text \<open>Each string type has a constructor for the values that are no constant of it.\<close>

datatype Status =
  StatusAccepted | StatusRunning | StatusWaiting | StatusSuspended | StatusCancelRequested
| StatusCompleted | StatusFailed | StatusCanceled | StatusExpired | StatusOther string

fun status_string :: "Status \<Rightarrow> string" where
  "status_string StatusAccepted = ''accepted''"
| "status_string StatusRunning = ''running''"
| "status_string StatusWaiting = ''waiting''"
| "status_string StatusSuspended = ''suspended''"
| "status_string StatusCancelRequested = ''cancel_requested''"
| "status_string StatusCompleted = ''completed''"
| "status_string StatusFailed = ''failed''"
| "status_string StatusCanceled = ''canceled''"
| "status_string StatusExpired = ''expired''"
| "status_string (StatusOther s) = s"

definition Status_Terminal :: "Status \<Rightarrow> bool" where
  "Status_Terminal status \<longleftrightarrow> status = StatusCompleted \<or> status = StatusFailed \<or>
     status = StatusCanceled \<or> status = StatusExpired"

definition Status_valid :: "Status \<Rightarrow> bool" where
  "Status_valid status \<longleftrightarrow> (case status of StatusOther _ \<Rightarrow> False | _ \<Rightarrow> True)"

text \<open>A \<open>*StateError\<close> unwraps to its kind and names both states.\<close>

definition stateError :: "goerr \<Rightarrow> Status \<Rightarrow> Status \<Rightarrow> goerr" where
  "stateError kind from' to = Wrapf (status_string from' @ '' -> '' @ status_string to) [kind]"

datatype FrameKind =
  FrameAccepted | FrameEvent | FrameWaiting | FrameSignal | FrameSuspended | FrameCancelRequested
| FrameCompleted | FrameFailed | FrameCanceled | FrameExpired | FrameWorkflowChild | FrameKindOther string

fun frameKind_string :: "FrameKind \<Rightarrow> string" where
  "frameKind_string FrameAccepted = ''accepted''"
| "frameKind_string FrameEvent = ''event''"
| "frameKind_string FrameWaiting = ''waiting''"
| "frameKind_string FrameSignal = ''signal''"
| "frameKind_string FrameSuspended = ''suspended''"
| "frameKind_string FrameCancelRequested = ''cancel_requested''"
| "frameKind_string FrameCompleted = ''completed''"
| "frameKind_string FrameFailed = ''failed''"
| "frameKind_string FrameCanceled = ''canceled''"
| "frameKind_string FrameExpired = ''expired''"
| "frameKind_string FrameWorkflowChild = ''workflow_child''"
| "frameKind_string (FrameKindOther s) = s"

definition FrameKind_valid :: "FrameKind \<Rightarrow> bool" where
  "FrameKind_valid kind \<longleftrightarrow> (case kind of FrameKindOther _ \<Rightarrow> False | _ \<Rightarrow> True)"

definition maxPayloadBytes :: nat where "maxPayloadBytes = 1024 * 1024"

record Frame =
  fr_sequence :: u64
  fr_kind :: FrameKind
  fr_payload :: string

definition NewFrame :: "FrameKind \<Rightarrow> string \<Rightarrow> goerr + Frame" where
  "NewFrame kind payload =
     (if \<not> FrameKind_valid kind \<or> length payload > maxPayloadBytes then Err ErrInvalidFrame
      else Ok \<lparr>fr_sequence = 0, fr_kind = kind, fr_payload = payload\<rparr>)"

section \<open>Snapshots\<close>

datatype commandKind = commandNone | commandSignal | commandCancel | commandOther string

record commandRecord =
  cr_kind :: commandKind
  cr_digest :: string

record CallSnapshot =
  cs_callID :: string
  cs_operation :: string
  cs_status :: Status
  cs_readyAt :: go_time
  cs_revision :: u64
  cs_fence :: u64
  cs_sequence :: u64
  cs_frameFloor :: u64
  cs_frames :: "Frame list"
  cs_commands :: "(string, commandRecord) gomap"
  cs_workflow :: "workflowSnapshotState option"

definition NewSnapshot :: "string \<Rightarrow> string \<Rightarrow> goerr + CallSnapshot" where
  "NewSnapshot callID operation =
     (if \<not> call_validIdentity callID \<or> \<not> call_validOperation operation
      then Err (Wrapf ''call ID or operation'' [ErrInvalidIdentity])
      else Ok \<lparr>cs_callID = callID, cs_operation = operation, cs_status = StatusAccepted, cs_readyAt = 0,
        cs_revision = 1, cs_fence = 0, cs_sequence = 0, cs_frameFloor = 1, cs_frames = [],
        cs_commands = [], cs_workflow = None\<rparr>)"

definition NewSnapshotWithInput :: "string \<Rightarrow> string \<Rightarrow> string \<Rightarrow> goerr + CallSnapshot" where
  "NewSnapshotWithInput callID operation input =
     (case NewSnapshot callID operation of Err e \<Rightarrow> Err e
      | Ok snapshot \<Rightarrow> (case NewFrame FrameAccepted input of Err e \<Rightarrow> Err e
        | Ok frame \<Rightarrow> Ok (snapshot\<lparr>cs_sequence := 1, cs_frames := [frame\<lparr>fr_sequence := 1\<rparr>]\<rparr>)))"

text \<open>The input of a call, nil when there is none.\<close>

definition Snapshot_Input :: "CallSnapshot \<Rightarrow> string option" where
  "Snapshot_Input snapshot = (case cs_frames snapshot of [] \<Rightarrow> None
   | frame # _ \<Rightarrow> if fr_sequence frame \<noteq> 1 \<or> fr_kind frame \<noteq> FrameAccepted then None
       else Some (fr_payload frame))"

definition TimerDue :: "CallSnapshot \<Rightarrow> go_time \<Rightarrow> bool" where
  "TimerDue snapshot now \<longleftrightarrow> time_IsZero (cs_readyAt snapshot) \<or> \<not> time_Before now (cs_readyAt snapshot)"

definition TimerNotReady :: "CallSnapshot \<Rightarrow> go_time \<Rightarrow> goerr option" where
  "TimerNotReady snapshot now = (if TimerDue snapshot now then None else Some (Wrapf ''ready at'' [ErrTimerNotReady]))"

text \<open>
  \<open>validateSnapshot\<close>; the arithmetic on revisions and sequences wraps at 64 bits. A valid
  snapshot is one for which it returns nil.
\<close>

definition valid_frame_at :: "u64 \<Rightarrow> Frame \<Rightarrow> nat \<Rightarrow> bool" where
  "valid_frame_at floor' frame index \<longleftrightarrow>
     \<not> (fr_sequence frame \<noteq> floor' + of_nat index \<or> \<not> FrameKind_valid (fr_kind frame) \<or>
        fr_kind frame = FrameAccepted \<and> fr_sequence frame \<noteq> 1 \<or>
        length (fr_payload frame) > maxPayloadBytes)"

definition valid_initial :: "CallSnapshot \<Rightarrow> bool" where
  "valid_initial snapshot \<longleftrightarrow>
     (let initialWithoutInput = cs_sequence snapshot = 0 \<and> length (cs_frames snapshot) = 0;
          initialWithInput = cs_sequence snapshot = 1 \<and> length (cs_frames snapshot) = 1 \<and>
            fr_sequence (cs_frames snapshot ! 0) = 1 \<and> fr_kind (cs_frames snapshot ! 0) = FrameAccepted in
      \<not> (cs_status snapshot \<noteq> StatusAccepted \<or> cs_fence snapshot \<noteq> 0 \<or> cs_frameFloor snapshot \<noteq> 1 \<or>
         length (cs_commands snapshot) \<noteq> 0 \<or> \<not> initialWithoutInput \<and> \<not> initialWithInput))"

definition validateSnapshot :: "CallSnapshot \<Rightarrow> goerr option" where
  "validateSnapshot snapshot =
     (let error = (\<lambda>kind. Some (stateError kind (cs_status snapshot) (cs_status snapshot))) in
      if \<not> call_validIdentity (cs_callID snapshot) \<or> \<not> call_validOperation (cs_operation snapshot) \<or>
         \<not> Status_valid (cs_status snapshot) then error ErrInvalidIdentity
      else if validateWorkflowState (cs_workflow snapshot) \<noteq> None then error ErrInvalidWorkflow
      else if \<not> time_IsZero (cs_readyAt snapshot) \<and>
        (cs_status snapshot \<noteq> StatusSuspended \<or> cs_readyAt snapshot \<noteq> normalizeReadyAt (cs_readyAt snapshot))
      then error ErrInvalidTimer
      else if cs_revision snapshot = 0 \<or> cs_frameFloor snapshot = 0 \<or>
        cs_frameFloor snapshot > cs_sequence snapshot \<and> cs_frameFloor snapshot \<noteq> cs_sequence snapshot + 1 \<or>
        cs_sequence snapshot - cs_frameFloor snapshot + 1 \<noteq> of_nat (length (cs_frames snapshot))
      then error ErrRevision
      else if cs_revision snapshot = 1 \<and> \<not> valid_initial snapshot then error ErrRevision
      else if \<not> list_all (\<lambda>(i, frame). valid_frame_at (cs_frameFloor snapshot) frame i)
        (enumerate 0 (cs_frames snapshot)) then error ErrSequence
      else if \<not> list_all (\<lambda>(id', record'). call_validIdentity id' \<and>
        (cr_kind record' = commandSignal \<or> cr_kind record' = commandCancel)) (cs_commands snapshot)
      then error ErrInvalidIdentity
      else None)"

section \<open>Transitions\<close>

record Transition =
  tr_status :: Status
  tr_fence :: u64
  tr_frames :: "Frame list"
  tr_readyAt :: go_time
  tr_timer :: bool
  tr_workflow :: "workflowSnapshotState option"
  tr_commandID :: string
  tr_command :: commandKind

definition Move :: "Status \<Rightarrow> u64 \<Rightarrow> Frame list \<Rightarrow> Transition" where
  "Move status fence frames = \<lparr>tr_status = status, tr_fence = fence, tr_frames = frames, tr_readyAt = 0,
     tr_timer = False, tr_workflow = None, tr_commandID = [], tr_command = commandNone\<rparr>"

definition Continue :: "Frame list \<Rightarrow> Transition" where
  "Continue frames = Move StatusRunning 0 frames"

definition Signal :: "string \<Rightarrow> Frame list \<Rightarrow> Transition" where
  "Signal commandID frames = \<lparr>tr_status = StatusAccepted, tr_fence = 0, tr_frames = frames, tr_readyAt = 0,
     tr_timer = False, tr_workflow = None, tr_commandID = commandID, tr_command = commandSignal\<rparr>"

definition Cancel :: "string \<Rightarrow> Frame list \<Rightarrow> Transition" where
  "Cancel commandID frames = \<lparr>tr_status = StatusCancelRequested, tr_fence = 0, tr_frames = frames,
     tr_readyAt = 0, tr_timer = False, tr_workflow = None, tr_commandID = commandID,
     tr_command = commandCancel\<rparr>"

definition SleepUntil :: "go_time \<Rightarrow> Frame list \<Rightarrow> Transition" where
  "SleepUntil readyAt frames = \<lparr>tr_status = StatusSuspended, tr_fence = 0, tr_frames = frames,
     tr_readyAt = normalizeReadyAt readyAt, tr_timer = True, tr_workflow = None, tr_commandID = [],
     tr_command = commandNone\<rparr>"

definition moveWorkflow ::
  "Status \<Rightarrow> u64 \<Rightarrow> workflowSnapshotState option \<Rightarrow> go_time \<Rightarrow> Frame list \<Rightarrow> Transition" where
  "moveWorkflow status fence state readyAt frames =
     (let transition = (Move status fence frames)\<lparr>tr_workflow := state\<rparr> in
      if status = StatusSuspended \<and> \<not> time_IsZero readyAt
      then transition\<lparr>tr_readyAt := normalizeReadyAt readyAt, tr_timer := True\<rparr> else transition)"

definition newWorkflowSnapshot ::
  "string \<Rightarrow> WorkflowDefinition option \<Rightarrow> string \<Rightarrow> go_time \<Rightarrow> goerr + CallSnapshot" where
  "newWorkflowSnapshot callID definition' input startedAt = (case definition' of None \<Rightarrow> Err ErrInvalidWorkflow
   | Some d \<Rightarrow> if time_IsZero startedAt then Err ErrInvalidWorkflow
     else (case NewSnapshotWithInput callID (wd_operation d) input of Err e \<Rightarrow> Err e
       | Ok s \<Rightarrow> (let snapshot = s\<lparr>cs_workflow := Some (newWorkflowSnapshotState d startedAt)\<rparr> in
           case validateSnapshot snapshot of Some e \<Rightarrow> Err e | None \<Rightarrow> Ok snapshot)))"

definition allowedTransition :: "Status \<Rightarrow> Status \<Rightarrow> commandKind \<Rightarrow> bool" where
  "allowedTransition from' to command = (case command of
     commandSignal \<Rightarrow> from' = StatusWaiting \<and> to = StatusAccepted
   | commandCancel \<Rightarrow> (case from' of
       StatusAccepted \<Rightarrow> to = StatusCancelRequested | StatusRunning \<Rightarrow> to = StatusCancelRequested
     | StatusWaiting \<Rightarrow> to = StatusCancelRequested | StatusSuspended \<Rightarrow> to = StatusCancelRequested
     | _ \<Rightarrow> False)
   | commandOther _ \<Rightarrow> False
   | commandNone \<Rightarrow> (case from' of
       StatusAccepted \<Rightarrow> to = StatusRunning \<or> to = StatusFailed \<or> to = StatusExpired
     | StatusRunning \<Rightarrow> to = StatusRunning \<or> to = StatusWaiting \<or> to = StatusSuspended \<or>
         to = StatusCompleted \<or> to = StatusFailed \<or> to = StatusExpired
     | StatusWaiting \<Rightarrow> to = StatusFailed \<or> to = StatusExpired
     | StatusSuspended \<Rightarrow> to = StatusAccepted \<or> to = StatusRunning \<or> to = StatusFailed \<or> to = StatusExpired
     | StatusCancelRequested \<Rightarrow> to = StatusCancelRequested \<or> to = StatusCanceled \<or> to = StatusFailed \<or>
         to = StatusExpired
     | _ \<Rightarrow> False))"

text \<open>\<open>sha\<close> is SHA-256 on byte strings.\<close>

definition digest_input :: "Frame list \<Rightarrow> string" where
  "digest_input frames = writeDigestPart ''continuation-command-v1'' @
     concat (map (\<lambda>frame. writeDigestPart (frameKind_string (fr_kind frame)) @ writeDigestPart (fr_payload frame)) frames)"

definition commandDigest :: "(string \<Rightarrow> string) \<Rightarrow> Transition \<Rightarrow> string" where
  "commandDigest sha transition = sha (digest_input (tr_frames transition))"

definition command_record :: "(string \<Rightarrow> string) \<Rightarrow> Transition \<Rightarrow> commandRecord" where
  "command_record sha transition = \<lparr>cr_kind = tr_command transition, cr_digest = commandDigest sha transition\<rparr>"

text \<open>The loop of \<open>Apply\<close> over the frames: the last sequence and the frames so far.\<close>

fun append_frames :: "Frame list \<Rightarrow> u64 \<times> Frame list \<Rightarrow> goerr + u64 \<times> Frame list" where
  "append_frames [] acc = Ok acc"
| "append_frames (frame # rest) (sequence, frames) =
     (if fr_sequence frame \<noteq> 0 then Err ErrSequence
      else if \<not> FrameKind_valid (fr_kind frame) \<or> fr_kind frame = FrameAccepted \<or>
        length (fr_payload frame) > maxPayloadBytes then Err ErrInvalidFrame
      else if sequence = - 1 then Err ErrSequence
      else append_frames rest (sequence + 1, frames @ [frame\<lparr>fr_sequence := sequence + 1\<rparr>]))"

text \<open>The part of \<open>Apply\<close> after deduplication.\<close>

definition apply_new :: "(string \<Rightarrow> string) \<Rightarrow> CallSnapshot \<Rightarrow> Transition \<Rightarrow> goerr + CallSnapshot" where
  "apply_new sha current transition =
     (let error = (\<lambda>kind. Err (stateError kind (cs_status current) (tr_status transition)));
          fence = (if tr_fence transition = 0 then cs_fence current else tr_fence transition) in
      if Status_Terminal (cs_status current) then error ErrTerminal
      else if \<not> allowedTransition (cs_status current) (tr_status transition) (tr_command transition)
      then error ErrTransition
      else if cs_revision current = - 1 then error ErrRevision
      else if fence < cs_fence current \<or> tr_status transition = StatusRunning \<and> fence = 0 then error ErrFence
      else (case append_frames (tr_frames transition) (cs_sequence current, cs_frames current) of
          Err kind \<Rightarrow> error kind
        | Ok (sequence, frames) \<Rightarrow> Ok (current\<lparr>
            cs_status := tr_status transition,
            cs_readyAt := (if tr_status transition = StatusSuspended then normalizeReadyAt (tr_readyAt transition) else 0),
            cs_workflow := (case tr_workflow transition of None \<Rightarrow> cs_workflow current | Some w \<Rightarrow> Some w),
            cs_revision := cs_revision current + 1,
            cs_fence := fence,
            cs_sequence := sequence,
            cs_frames := frames,
            cs_commands := (if tr_command transition = commandNone then cs_commands current
              else gm_put (tr_commandID transition) (command_record sha transition) (cs_commands current))\<rparr>)))"

definition Apply :: "(string \<Rightarrow> string) \<Rightarrow> CallSnapshot \<Rightarrow> Transition \<Rightarrow> goerr + CallSnapshot" where
  "Apply sha current transition =
     (let error = (\<lambda>kind. Err (stateError kind (cs_status current) (tr_status transition))) in
      case validateSnapshot current of Some e \<Rightarrow> Err e
      | None \<Rightarrow>
        if \<not> Status_valid (tr_status transition) then error ErrTransition
        else if tr_timer transition \<and> time_IsZero (tr_readyAt transition) \<or>
          \<not> time_IsZero (tr_readyAt transition) \<and> tr_status transition \<noteq> StatusSuspended then error ErrInvalidTimer
        else if tr_workflow transition \<noteq> None \<and>
          validateWorkflowSuccessor (cs_workflow current) (tr_workflow transition) \<noteq> None
        then error ErrInvalidWorkflow
        else if tr_command transition \<noteq> commandNone then
          (if \<not> call_validIdentity (tr_commandID transition) then error ErrInvalidIdentity
           else (case gm_get (cs_commands current) (tr_commandID transition) of
             Some previous \<Rightarrow> if previous \<noteq> command_record sha transition then error ErrCommandConflict else Ok current
           | None \<Rightarrow> apply_new sha current transition))
        else apply_new sha current transition)"

section \<open>Retention and leases\<close>

definition PruneSnapshot :: "CallSnapshot \<Rightarrow> u64 \<Rightarrow> goerr + CallSnapshot" where
  "PruneSnapshot snapshot floor' =
     (if validateSnapshot snapshot \<noteq> None then Err ErrInvalidRetention
      else if floor' = 0 \<or> cs_sequence snapshot = - 1 \<and> floor' > cs_sequence snapshot \<or>
        cs_sequence snapshot < - 1 \<and> floor' > cs_sequence snapshot + 1 then Err ErrInvalidRetention
      else if floor' \<le> cs_frameFloor snapshot then Ok snapshot
      else (let offset = floor' - cs_frameFloor snapshot in
        if offset > of_nat (length (cs_frames snapshot)) then Err ErrInvalidRetention
        else (let pruned = snapshot\<lparr>cs_frameFloor := floor', cs_frames := drop (unat offset) (cs_frames snapshot)\<rparr> in
          if validateSnapshot pruned \<noteq> None then Err ErrInvalidRetention else Ok pruned)))"

definition maxLeaseOwnerBytes :: nat where "maxLeaseOwnerBytes = 256"
definition maxLeaseDuration :: duration where "maxLeaseDuration = 24 * hour"

definition validLeaseOwner :: "string \<Rightarrow> bool" where
  "validLeaseOwner owner \<longleftrightarrow>
     \<not> (owner = [] \<or> length owner > maxLeaseOwnerBytes \<or> \<not> ValidString owner \<or> TrimSpace owner \<noteq> owner) \<and>
     \<not> containsControl owner"

record ClaimRequest =
  cq_CallID :: string
  cq_ExpectedRevision :: u64
  cq_OwnerID :: string
  cq_LeaseDuration :: duration

definition ClaimRequest_Validate :: "ClaimRequest \<Rightarrow> goerr option" where
  "ClaimRequest_Validate r =
     (if \<not> call_validIdentity (cq_CallID r) \<or> cq_ExpectedRevision r = 0 \<or> \<not> validLeaseOwner (cq_OwnerID r) \<or>
         cq_LeaseDuration r \<le> 0 \<or> cq_LeaseDuration r > maxLeaseDuration
      then Some ErrInvalidStore else None)"

record LeaseRequest =
  lq_CallID :: string
  lq_Revision :: u64
  lq_Fence :: u64
  lq_OwnerID :: string
  lq_LeaseDuration :: duration

definition LeaseRequest_Validate :: "LeaseRequest \<Rightarrow> bool \<Rightarrow> goerr option" where
  "LeaseRequest_Validate r renew =
     (if \<not> call_validIdentity (lq_CallID r) \<or> lq_Revision r = 0 \<or> lq_Fence r = 0 \<or> \<not> validLeaseOwner (lq_OwnerID r)
      then Some ErrInvalidStore
      else if renew \<and> (lq_LeaseDuration r \<le> 0 \<or> lq_LeaseDuration r > maxLeaseDuration) then Some ErrInvalidStore
      else None)"

end
