(* ===== verification/Call_Store.thy ===== *)
theory Call_Store
  imports Continuation Context
begin

text \<open>
  The memory store of continuable calls: \<open>store.go\<close>, \<open>admin.go\<close> and \<open>restore.go\<close> of
  \<open>programmable/continuation/memory\<close>, with the request and summary types of \<open>store.go\<close> and
  \<open>admin.go\<close>. Each operation runs under the mutex of the store and is one step. It takes the
  reading \<open>now\<close> of the store's clock, and it returns its result and the new store. The maps of
  the store are never nil in the model, so \<open>ensureState\<close> has nothing to do.
\<close>

abbreviation ErrNotFound :: goerr where
  "ErrNotFound \<equiv> Sentinel ''continuation: call not found''"

abbreviation ErrAlreadyExists :: goerr where
  "ErrAlreadyExists \<equiv> Sentinel ''continuation: call already exists''"

abbreviation ErrConflict :: goerr where
  "ErrConflict \<equiv> Sentinel ''continuation: revision conflict''"

abbreviation ErrStaleFence :: goerr where
  "ErrStaleFence \<equiv> Sentinel ''continuation: stale executor fence''"

abbreviation ErrNotReady :: goerr where
  "ErrNotReady \<equiv> Sentinel ''continuation: call is not ready''"

abbreviation ErrLeaseHeld :: goerr where
  "ErrLeaseHeld \<equiv> Sentinel ''continuation: execution lease held''"

abbreviation ErrCallLeaseLost :: goerr where
  "ErrCallLeaseLost \<equiv> Sentinel ''continuation: execution lease lost''"

section \<open>Requests and state\<close>

record CommitRequest =
  cm_ExpectedRevision :: u64
  cm_Fence :: u64
  cm_LeaseOwner :: string
  cm_ExpiresAt :: go_time
  cm_Snapshot :: CallSnapshot

record CommandRequest =
  cd_CallID :: string
  cd_ExpectedRevision :: u64
  cd_CommandID :: string
  cd_Payload :: string

record Lease =
  ls_Snapshot :: CallSnapshot
  ls_OwnerID :: string
  ls_Deadline :: go_time

record leaseRecord =
  lr_owner :: string
  lr_deadline :: go_time
  lr_revision :: u64
  lr_fence :: u64
  lr_previousRevision :: u64

definition zero_lease :: leaseRecord where
  "zero_lease = \<lparr>lr_owner = [], lr_deadline = 0, lr_revision = 0, lr_fence = 0, lr_previousRevision = 0\<rparr>"

record CallStore =
  st_records :: "(string, CallSnapshot) gomap"
  st_leases :: "(string, leaseRecord) gomap"
  st_expires :: "(string, go_time) gomap"

definition NewWithClock :: CallStore where
  "NewWithClock = \<lparr>st_records = [], st_leases = [], st_expires = []\<rparr>"

text \<open>The guard every operation starts with: a nil context, the request check, cancellation.\<close>

definition guarded :: "Context option \<Rightarrow> bool \<Rightarrow> goerr \<Rightarrow> (goerr + 'a) \<times> 's \<Rightarrow> 's \<Rightarrow> (goerr + 'a) \<times> 's" where
  "guarded ctx valid invalid body s = (case ctx of None \<Rightarrow> (Err invalid, s)
   | Some x \<Rightarrow> if \<not> valid then (Err invalid, s)
     else (case ctx_cause x of Some cause \<Rightarrow> (Err cause, s) | None \<Rightarrow> body))"

definition call_initialSnapshot :: "CallSnapshot \<Rightarrow> bool" where
  "call_initialSnapshot snapshot \<longleftrightarrow>
     (if cs_callID snapshot = [] \<or> cs_operation snapshot = [] \<or> cs_status snapshot \<noteq> StatusAccepted \<or>
         cs_revision snapshot \<noteq> 1 \<or> cs_fence snapshot \<noteq> 0 then False
      else if cs_sequence snapshot = 0 then length (cs_frames snapshot) = 0
      else if cs_sequence snapshot = 1 then length (cs_frames snapshot) = 1 \<and>
        fr_sequence (cs_frames snapshot ! 0) = 1 \<and> fr_kind (cs_frames snapshot ! 0) = FrameAccepted
      else False)"

definition call_ready :: "Status \<Rightarrow> bool" where
  "call_ready status \<longleftrightarrow> status = StatusAccepted \<or> status = StatusRunning \<or> status = StatusSuspended \<or>
     status = StatusCancelRequested"

definition leaseActive :: "CallStore \<Rightarrow> string \<Rightarrow> go_time \<Rightarrow> bool" where
  "leaseActive s key now \<longleftrightarrow> (case gm_get (st_leases s) key of None \<Rightarrow> False
     | Some lease \<Rightarrow> time_After (lr_deadline lease) now)"

definition equalFrame :: "Frame \<Rightarrow> Frame \<Rightarrow> bool" where
  "equalFrame left' right' \<longleftrightarrow> fr_sequence left' = fr_sequence right' \<and> fr_kind left' = fr_kind right' \<and>
     fr_payload left' = fr_payload right'"

definition validSuccessor :: "CallSnapshot \<Rightarrow> CallSnapshot \<Rightarrow> u64 \<Rightarrow> bool" where
  "validSuccessor current next' fence \<longleftrightarrow>
     \<not> (cs_callID next' \<noteq> cs_callID current \<or> cs_operation next' \<noteq> cs_operation current \<or>
        cs_revision next' \<noteq> cs_revision current + 1 \<or> cs_fence next' \<noteq> fence \<or>
        cs_sequence next' < cs_sequence current) \<and>
     length (cs_frames current) \<le> length (cs_frames next') \<and>
     list_all2 equalFrame (cs_frames current) (take (length (cs_frames current)) (cs_frames next')) \<and>
     list_all (\<lambda>index. fr_sequence (cs_frames next' ! index) = of_nat (index + 1))
       [length (cs_frames current) ..< length (cs_frames next')]"

section \<open>Calls\<close>

definition call_Create :: "Context option \<Rightarrow> CallSnapshot \<Rightarrow> CallStore \<Rightarrow> (goerr + CallSnapshot) \<times> CallStore" where
  "call_Create ctx snapshot s = guarded ctx (call_initialSnapshot snapshot) ErrInvalidStore
     (case gm_get (st_records s) (cs_callID snapshot) of
        Some _ \<Rightarrow> (Err ErrAlreadyExists, s)
      | None \<Rightarrow> (Ok snapshot, s\<lparr>st_records := gm_put (cs_callID snapshot) snapshot (st_records s)\<rparr>)) s"

definition call_Load :: "Context option \<Rightarrow> string \<Rightarrow> CallStore \<Rightarrow> (goerr + CallSnapshot) \<times> CallStore" where
  "call_Load ctx callID s = guarded ctx (callID \<noteq> []) ErrInvalidStore
     (case gm_get (st_records s) callID of None \<Rightarrow> (Err ErrNotFound, s) | Some snapshot \<Rightarrow> (Ok snapshot, s)) s"

text \<open>The step into execution that \<open>Acquire\<close> and \<open>Claim\<close> share: readiness, then a newer fence.\<close>

definition begin_execution :: "(string \<Rightarrow> string) \<Rightarrow> go_time \<Rightarrow> CallSnapshot \<Rightarrow> goerr + CallSnapshot" where
  "begin_execution sha now current =
     (if \<not> call_ready (cs_status current) then Err ErrNotReady
      else (case TimerNotReady current now of Some e \<Rightarrow> Err e
      | None \<Rightarrow>
        if cs_fence current = - 1 then Err ErrStaleFence
        else (let target = (if cs_status current = StatusCancelRequested then StatusCancelRequested
                else StatusRunning) in
          Apply sha current (Move target (cs_fence current + 1) []))))"

definition Acquire ::
  "(string \<Rightarrow> string) \<Rightarrow> Context option \<Rightarrow> go_time \<Rightarrow> string \<Rightarrow> u64 \<Rightarrow> CallStore \<Rightarrow>
     (goerr + CallSnapshot) \<times> CallStore" where
  "Acquire sha ctx now callID expectedRevision s =
     guarded ctx (callID \<noteq> [] \<and> expectedRevision \<noteq> 0) ErrInvalidStore
     (case gm_get (st_records s) callID of None \<Rightarrow> (Err ErrNotFound, s)
      | Some current \<Rightarrow>
        if cs_revision current \<noteq> expectedRevision then (Err ErrConflict, s)
        else if leaseActive s callID now then (Err ErrLeaseHeld, s)
        else (let s' = s\<lparr>st_leases := gm_del callID (st_leases s)\<rparr> in
          case begin_execution sha now current of Err e \<Rightarrow> (Err e, s')
          | Ok next' \<Rightarrow> (Ok next', s'\<lparr>st_records := gm_put callID next' (st_records s')\<rparr>))) s"

definition lease_matches :: "CallStore \<Rightarrow> string \<Rightarrow> string \<Rightarrow> u64 \<Rightarrow> u64 \<Rightarrow> bool" where
  "lease_matches s key owner revision fence \<longleftrightarrow> (case gm_get (st_leases s) key of None \<Rightarrow> False
     | Some lease \<Rightarrow> lr_owner lease = owner \<and> lr_revision lease = revision \<and> lr_fence lease = fence)"

text \<open>The effect of an accepted commit; an absent lease reads as the zero lease.\<close>

definition commit_store :: "CommitRequest \<Rightarrow> CallStore \<Rightarrow> CallStore" where
  "commit_store request s =
     (let next' = cm_Snapshot request; key = cs_callID next';
          lease = (case gm_get (st_leases s) key of None \<Rightarrow> zero_lease | Some l \<Rightarrow> l) in
      s\<lparr>st_records := gm_put key next' (st_records s),
        st_expires := (if Status_Terminal (cs_status next') \<and> \<not> time_IsZero (cm_ExpiresAt request)
          then gm_put key (cm_ExpiresAt request) (st_expires s) else gm_del key (st_expires s)),
        st_leases := (if cs_status next' = StatusRunning
          then gm_put key (lease\<lparr>lr_revision := cs_revision next', lr_fence := cs_fence next'\<rparr>) (st_leases s)
          else gm_del key (st_leases s))\<rparr>)"

definition call_Transition ::
  "Context option \<Rightarrow> go_time \<Rightarrow> CommitRequest \<Rightarrow> CallStore \<Rightarrow> (goerr + CallSnapshot) \<times> CallStore" where
  "call_Transition ctx now request s =
     guarded ctx (cm_ExpectedRevision request \<noteq> 0 \<and> cm_Fence request \<noteq> 0 \<and>
       cs_callID (cm_Snapshot request) \<noteq> [] \<and>
       (time_IsZero (cm_ExpiresAt request) \<or> Status_Terminal (cs_status (cm_Snapshot request)))) ErrInvalidStore
     (let key = cs_callID (cm_Snapshot request) in
      case gm_get (st_records s) key of None \<Rightarrow> (Err ErrNotFound, s)
      | Some current \<Rightarrow>
        if cm_LeaseOwner request \<noteq> [] \<and>
          \<not> (lease_matches s key (cm_LeaseOwner request) (cm_ExpectedRevision request) (cm_Fence request) \<and>
             leaseActive s key now) then (Err ErrCallLeaseLost, s)
        else if cm_LeaseOwner request = [] \<and> leaseActive s key now then (Err ErrCallLeaseLost, s)
        else if cm_Fence request \<noteq> cs_fence current then (Err ErrStaleFence, s)
        else if cm_ExpectedRevision request \<noteq> cs_revision current then (Err ErrConflict, s)
        else if \<not> validSuccessor current (cm_Snapshot request) (cm_Fence request) then (Err ErrInvalidStore, s)
        else (Ok (cm_Snapshot request), commit_store request s)) s"

definition ready_keys :: "go_time \<Rightarrow> CallStore \<Rightarrow> string list" where
  "ready_keys now s = sort (gm_keys (filter (\<lambda>(key, snapshot). call_ready (cs_status snapshot) \<and>
     TimerDue snapshot now \<and> \<not> leaseActive s key now) (st_records s)))"

definition ListReady :: "Context option \<Rightarrow> go_time \<Rightarrow> int \<Rightarrow> CallStore \<Rightarrow> (goerr + CallSnapshot list) \<times> CallStore" where
  "ListReady ctx now limit s = guarded ctx (0 < limit \<and> limit \<le> 10000) ErrInvalidStore
     (Ok (map (\<lambda>key. the (gm_get (st_records s) key)) (take (nat limit) (ready_keys now s))), s) s"

section \<open>Commands\<close>

definition store_command ::
  "(string \<Rightarrow> string) \<Rightarrow> Context option \<Rightarrow> CommandRequest \<Rightarrow> Transition \<Rightarrow> CallStore \<Rightarrow>
     (goerr + CallSnapshot) \<times> CallStore" where
  "store_command sha ctx request transition s =
     guarded ctx (cd_CallID request \<noteq> [] \<and> cd_ExpectedRevision request \<noteq> 0) ErrInvalidStore
     (let key = cd_CallID request in
      case gm_get (st_records s) key of None \<Rightarrow> (Err ErrNotFound, s)
      | Some current \<Rightarrow> (case Apply sha current transition of Err e \<Rightarrow> (Err e, s)
        | Ok next' \<Rightarrow>
          if cs_revision next' = cs_revision current then (Ok current, s)
          else if cd_ExpectedRevision request \<noteq> cs_revision current then (Err ErrConflict, s)
          else (Ok next', s\<lparr>st_records := gm_put key next' (st_records s),
            st_leases := gm_del key (st_leases s)\<rparr>))) s"

definition SubmitSignal ::
  "(string \<Rightarrow> string) \<Rightarrow> Context option \<Rightarrow> CommandRequest \<Rightarrow> CallStore \<Rightarrow> (goerr + CallSnapshot) \<times> CallStore" where
  "SubmitSignal sha ctx request s = (case NewFrame FrameSignal (cd_Payload request) of Err e \<Rightarrow> (Err e, s)
   | Ok frame \<Rightarrow> store_command sha ctx request (Signal (cd_CommandID request) [frame]) s)"

definition RequestCancel ::
  "(string \<Rightarrow> string) \<Rightarrow> Context option \<Rightarrow> CommandRequest \<Rightarrow> CallStore \<Rightarrow> (goerr + CallSnapshot) \<times> CallStore" where
  "RequestCancel sha ctx request s = (case NewFrame FrameCancelRequested (cd_Payload request) of Err e \<Rightarrow> (Err e, s)
   | Ok frame \<Rightarrow> store_command sha ctx request (Cancel (cd_CommandID request) [frame]) s)"

section \<open>Leases\<close>

definition claim_new ::
  "(string \<Rightarrow> string) \<Rightarrow> go_time \<Rightarrow> ClaimRequest \<Rightarrow> CallSnapshot \<Rightarrow> CallStore \<Rightarrow> (goerr + Lease) \<times> CallStore" where
  "claim_new sha now request current s =
     (let key = cq_CallID request in
      if cs_revision current \<noteq> cq_ExpectedRevision request then (Err ErrConflict, s)
      else (case begin_execution sha now current of Err e \<Rightarrow> (Err e, s)
      | Ok next' \<Rightarrow> (let deadline = time_Add now (cq_LeaseDuration request) in
          (Ok \<lparr>ls_Snapshot = next', ls_OwnerID = cq_OwnerID request, ls_Deadline = deadline\<rparr>,
           s\<lparr>st_records := gm_put key next' (st_records s),
             st_leases := gm_put key \<lparr>lr_owner = cq_OwnerID request, lr_deadline = deadline,
               lr_revision = cs_revision next', lr_fence = cs_fence next',
               lr_previousRevision = cs_revision current\<rparr> (st_leases s)\<rparr>))))"

definition Claim ::
  "(string \<Rightarrow> string) \<Rightarrow> Context option \<Rightarrow> go_time \<Rightarrow> ClaimRequest \<Rightarrow> CallStore \<Rightarrow> (goerr + Lease) \<times> CallStore" where
  "Claim sha ctx now request s =
     guarded ctx (ClaimRequest_Validate request = None) ErrInvalidStore
     (let key = cq_CallID request in
      case gm_get (st_records s) key of None \<Rightarrow> (Err ErrNotFound, s)
      | Some current \<Rightarrow>
        (case gm_get (st_leases s) key of None \<Rightarrow> claim_new sha now request current s
         | Some lease \<Rightarrow>
           if \<not> time_After (lr_deadline lease) now then claim_new sha now request current s
           else if lr_owner lease = cq_OwnerID request \<and> lr_previousRevision lease = cq_ExpectedRevision request
           then (Ok \<lparr>ls_Snapshot = current, ls_OwnerID = lr_owner lease, ls_Deadline = lr_deadline lease\<rparr>, s)
           else (Err ErrLeaseHeld, s))) s"

definition Renew ::
  "Context option \<Rightarrow> go_time \<Rightarrow> LeaseRequest \<Rightarrow> CallStore \<Rightarrow> (goerr + Lease) \<times> CallStore" where
  "Renew ctx now request s =
     guarded ctx (LeaseRequest_Validate request True = None) ErrInvalidStore
     (let key = lq_CallID request in
      case gm_get (st_records s) key of None \<Rightarrow> (Err ErrNotFound, s)
      | Some current \<Rightarrow>
        (case gm_get (st_leases s) key of None \<Rightarrow> (Err ErrCallLeaseLost, s)
         | Some lease \<Rightarrow>
           if lr_owner lease \<noteq> lq_OwnerID request \<or> lr_revision lease \<noteq> lq_Revision request \<or>
             lr_fence lease \<noteq> lq_Fence request \<or> \<not> time_After (lr_deadline lease) now
           then (Err ErrCallLeaseLost, s)
           else (let lease' = lease\<lparr>lr_deadline := time_Add now (lq_LeaseDuration request)\<rparr> in
             (Ok \<lparr>ls_Snapshot = current, ls_OwnerID = lr_owner lease', ls_Deadline = lr_deadline lease'\<rparr>,
              s\<lparr>st_leases := gm_put key lease' (st_leases s)\<rparr>)))) s"

definition Release ::
  "Context option \<Rightarrow> LeaseRequest \<Rightarrow> CallStore \<Rightarrow> (goerr + unit) \<times> CallStore" where
  "Release ctx request s =
     guarded ctx (LeaseRequest_Validate request False = None) ErrInvalidStore
     (let key = lq_CallID request in
      case gm_get (st_records s) key of None \<Rightarrow> (Err ErrNotFound, s)
      | Some _ \<Rightarrow>
        if \<not> lease_matches s key (lq_OwnerID request) (lq_Revision request) (lq_Fence request)
        then (Err ErrCallLeaseLost, s)
        else (Ok (), s\<lparr>st_leases := gm_del key (st_leases s)\<rparr>)) s"

section \<open>Administration\<close>

record CallSummary =
  sm_CallID :: string
  sm_Operation :: string
  sm_Status :: Status
  sm_Revision :: u64
  sm_Fence :: u64
  sm_Sequence :: u64
  sm_FrameFloor :: u64
  sm_ExpiresAt :: go_time
  sm_WorkflowVersion :: string
  sm_WorkflowFingerprint :: string
  sm_WorkflowNodes :: nat
  sm_WorkflowFailed :: nat

definition NewCallSummary :: "CallSnapshot \<Rightarrow> go_time \<Rightarrow> goerr + CallSummary" where
  "NewCallSummary snapshot expiresAt =
     (if validateSnapshot snapshot \<noteq> None then Err ErrInvalidRetention
      else Ok \<lparr>sm_CallID = cs_callID snapshot, sm_Operation = cs_operation snapshot,
        sm_Status = cs_status snapshot, sm_Revision = cs_revision snapshot, sm_Fence = cs_fence snapshot,
        sm_Sequence = cs_sequence snapshot, sm_FrameFloor = cs_frameFloor snapshot, sm_ExpiresAt = expiresAt,
        sm_WorkflowVersion = (case cs_workflow snapshot of None \<Rightarrow> [] | Some w \<Rightarrow> wf_Version w),
        sm_WorkflowFingerprint = (case cs_workflow snapshot of None \<Rightarrow> [] | Some w \<Rightarrow> wf_Fingerprint w),
        sm_WorkflowNodes = (case cs_workflow snapshot of None \<Rightarrow> 0 | Some w \<Rightarrow> length (wf_Nodes w)),
        sm_WorkflowFailed = (case cs_workflow snapshot of None \<Rightarrow> 0
          | Some w \<Rightarrow> length (filter (\<lambda>(id', node). ns_Status node = WorkflowNodeFailed) (wf_Nodes w)))\<rparr>)"

fun summaries :: "CallStore \<Rightarrow> string list \<Rightarrow> goerr + CallSummary list" where
  "summaries s [] = Ok []"
| "summaries s (key # keys) =
     (case NewCallSummary (the (gm_get (st_records s) key))
         (case gm_get (st_expires s) key of None \<Rightarrow> 0 | Some t \<Rightarrow> t) of Err e \<Rightarrow> Err e
      | Ok summary \<Rightarrow> (case summaries s keys of Err e \<Rightarrow> Err e | Ok rest \<Rightarrow> Ok (summary # rest)))"

definition ListCalls ::
  "Context option \<Rightarrow> string \<Rightarrow> int \<Rightarrow> CallStore \<Rightarrow> (goerr + CallSummary list) \<times> CallStore" where
  "ListCalls ctx after limit s = guarded ctx (\<not> (limit < 1 \<or> limit > 1000)) ErrInvalidRetention
     (summaries s (take (nat limit) (sort (filter (\<lambda>key. key > after) (gm_keys (st_records s))))), s) s"

definition GetCall :: "Context option \<Rightarrow> string \<Rightarrow> CallStore \<Rightarrow> (goerr + CallSummary) \<times> CallStore" where
  "GetCall ctx callID s = guarded ctx (callID \<noteq> []) ErrInvalidRetention
     (case gm_get (st_records s) callID of None \<Rightarrow> (Err ErrNotFound, s)
      | Some snapshot \<Rightarrow> (NewCallSummary snapshot
          (case gm_get (st_expires s) callID of None \<Rightarrow> 0 | Some t \<Rightarrow> t), s)) s"

definition PruneFrames ::
  "Context option \<Rightarrow> string \<Rightarrow> u64 \<Rightarrow> CallStore \<Rightarrow> (goerr + CallSnapshot) \<times> CallStore" where
  "PruneFrames ctx callID floor' s = guarded ctx (callID \<noteq> []) ErrInvalidRetention
     (case gm_get (st_records s) callID of None \<Rightarrow> (Err ErrNotFound, s)
      | Some current \<Rightarrow>
        if \<not> Status_Terminal (cs_status current) then (Err ErrNotReady, s)
        else (case PruneSnapshot current floor' of Err e \<Rightarrow> (Err e, s)
          | Ok pruned \<Rightarrow> (Ok pruned, s\<lparr>st_records := gm_put callID pruned (st_records s)\<rparr>))) s"

definition call_Expire ::
  "(string \<Rightarrow> string) \<Rightarrow> Context option \<Rightarrow> string \<Rightarrow> u64 \<Rightarrow> go_time \<Rightarrow> CallStore \<Rightarrow>
     (goerr + CallSnapshot) \<times> CallStore" where
  "call_Expire sha ctx callID expectedRevision expiresAt s =
     guarded ctx (callID \<noteq> [] \<and> expectedRevision \<noteq> 0 \<and> \<not> time_IsZero expiresAt) ErrInvalidRetention
     (case gm_get (st_records s) callID of None \<Rightarrow> (Err ErrNotFound, s)
      | Some current \<Rightarrow>
        if cs_status current = StatusExpired then (Ok current, s)
        else if Status_Terminal (cs_status current) then (Err ErrTerminal, s)
        else if cs_revision current \<noteq> expectedRevision then (Err ErrConflict, s)
        else (case NewFrame FrameExpired [] of Err e \<Rightarrow> (Err e, s)
        | Ok frame \<Rightarrow> (case Apply sha current (Move StatusExpired (cs_fence current) [frame]) of Err e \<Rightarrow> (Err e, s)
          | Ok expired \<Rightarrow> (Ok expired, s\<lparr>st_records := gm_put callID expired (st_records s),
              st_expires := gm_put callID expiresAt (st_expires s), st_leases := gm_del callID (st_leases s)\<rparr>)))) s"

definition expired_keys :: "go_time \<Rightarrow> CallStore \<Rightarrow> string list" where
  "expired_keys before s = sort (gm_keys (filter (\<lambda>(key, expiresAt).
     (case gm_get (st_records s) key of None \<Rightarrow> False | Some snapshot \<Rightarrow> Status_Terminal (cs_status snapshot)) \<and>
     \<not> time_After expiresAt before) (st_expires s)))"

definition delete_call :: "string \<Rightarrow> CallStore \<Rightarrow> CallStore" where
  "delete_call key s = s\<lparr>st_records := gm_del key (st_records s), st_leases := gm_del key (st_leases s),
     st_expires := gm_del key (st_expires s)\<rparr>"

definition DeleteExpired ::
  "Context option \<Rightarrow> go_time \<Rightarrow> int \<Rightarrow> CallStore \<Rightarrow> (goerr + nat) \<times> CallStore" where
  "DeleteExpired ctx before limit s =
     guarded ctx (\<not> (time_IsZero before \<or> limit < 1 \<or> limit > 1000)) ErrInvalidRetention
     (let keys = take (nat limit) (expired_keys before s) in (Ok (length keys), fold delete_call keys s)) s"

fun NewFromSnapshots :: "CallSnapshot list \<Rightarrow> CallStore \<Rightarrow> goerr + CallStore" where
  "NewFromSnapshots [] store = Ok store"
| "NewFromSnapshots (snapshot # rest) store =
     (if validateSnapshot snapshot \<noteq> None then Err (Wrapf ''restored snapshot'' [ErrInvalidStore])
      else (case gm_get (st_records store) (cs_callID snapshot) of Some _ \<Rightarrow> Err ErrAlreadyExists
        | None \<Rightarrow> NewFromSnapshots rest
            (store\<lparr>st_records := gm_put (cs_callID snapshot) snapshot (st_records store)\<rparr>)))"

section \<open>Commits of an executor\<close>

text \<open>
  \<open>Runtime.commitRequest\<close>: the commit of the successor \<open>next'\<close> of a loaded snapshot by the executor
  \<open>executorID\<close>; \<open>now\<close> is its clock and \<open>terminalRetention\<close> its configured retention.
\<close>

definition commitRequest :: "string \<Rightarrow> go_time \<Rightarrow> duration \<Rightarrow> CallSnapshot \<Rightarrow> CallSnapshot \<Rightarrow> CommitRequest" where
  "commitRequest executorID now terminalRetention current next' =
     \<lparr>cm_ExpectedRevision = cs_revision current, cm_Fence = cs_fence current, cm_LeaseOwner = executorID,
      cm_ExpiresAt = (if Status_Terminal (cs_status next') then time_Add now terminalRetention else 0),
      cm_Snapshot = next'\<rparr>"

end
