(* ===== verification/Continuation_Laws.thy ===== *)
theory Continuation_Laws
  imports Continuation "HOL-Library.Sublist"
begin

text \<open>
  Laws of \<open>Apply\<close> and \<open>PruneSnapshot\<close>: valid snapshots stay valid, revisions, fences, sequences,
  frames and accepted commands only grow, terminal snapshots never change, and a repeated
  command has no second effect.
\<close>

section \<open>Valid snapshots\<close>

definition snapshot_ok :: "CallSnapshot \<Rightarrow> bool" where
  "snapshot_ok s \<longleftrightarrow> call_validIdentity (cs_callID s) \<and> call_validOperation (cs_operation s) \<and>
     Status_valid (cs_status s) \<and> validateWorkflowState (cs_workflow s) = None \<and>
     (cs_readyAt s \<noteq> 0 \<longrightarrow> cs_status s = StatusSuspended \<and> normalizeReadyAt (cs_readyAt s) = cs_readyAt s) \<and>
     cs_revision s \<noteq> 0 \<and> cs_frameFloor s \<noteq> 0 \<and>
     (cs_frameFloor s \<le> cs_sequence s \<or> cs_frameFloor s = cs_sequence s + 1) \<and>
     cs_frameFloor s + of_nat (length (cs_frames s)) = cs_sequence s + 1 \<and>
     (cs_revision s = 1 \<longrightarrow> valid_initial s) \<and>
     (\<forall>i < length (cs_frames s). valid_frame_at (cs_frameFloor s) (cs_frames s ! i) i) \<and>
     (\<forall>(k, r) \<in> set (cs_commands s). call_validIdentity k \<and> (cr_kind r = commandSignal \<or> cr_kind r = commandCancel))"

lemma list_all_enumerate: "list_all (\<lambda>(i, x). P x i) (enumerate 0 xs) \<longleftrightarrow> (\<forall>i < length xs. P (xs ! i) i)"
  by (auto simp: list_all_length nth_enumerate_eq)

lemma u64_count: "(s :: u64) - f + 1 = n \<longleftrightarrow> f + n = s + 1"
  by (auto simp: algebra_simps)

lemma validateSnapshot_ok: "validateSnapshot s = None \<longleftrightarrow> snapshot_ok s"
proof -
  have "cs_frameFloor s > cs_sequence s \<and> cs_frameFloor s \<noteq> cs_sequence s + 1 \<longleftrightarrow>
      \<not> (cs_frameFloor s \<le> cs_sequence s \<or> cs_frameFloor s = cs_sequence s + 1)"
    by auto
  then show ?thesis
    unfolding validateSnapshot_def Let_def snapshot_ok_def list_all_enumerate u64_count time_IsZero_def
    by (auto simp: list_all_iff)
qed

section \<open>Appending frames\<close>

lemma unat_Suc_not_max: "n \<noteq> - 1 \<Longrightarrow> unat ((n :: u64) + 1) = Suc (unat n)"
  using unatSuc [of n] by (simp add: add.commute add_eq_0_iff)

lemma append_frames_Ok:
  "append_frames fs (sq, frames) = Ok (sq', frames') \<Longrightarrow>
     frames' = frames @ map (\<lambda>(i, f). f\<lparr>fr_sequence := sq + 1 + of_nat i\<rparr>) (enumerate 0 fs) \<and>
     unat sq' = unat sq + length fs \<and> sq' = sq + of_nat (length fs) \<and>
     (\<forall>f \<in> set fs. FrameKind_valid (fr_kind f) \<and> fr_kind f \<noteq> FrameAccepted \<and> length (fr_payload f) \<le> maxPayloadBytes)"
proof (induction fs arbitrary: sq frames)
  case (Cons f fs)
  then have ok: "FrameKind_valid (fr_kind f)" "fr_kind f \<noteq> FrameAccepted" "length (fr_payload f) \<le> maxPayloadBytes"
    "sq \<noteq> - 1" and rest: "append_frames fs (sq + 1, frames @ [f\<lparr>fr_sequence := sq + 1\<rparr>]) = Ok (sq', frames')"
    by (auto split: if_splits)
  have shift: "map (\<lambda>(i, f). f\<lparr>fr_sequence := sq + 1 + of_nat i\<rparr>) (enumerate (Suc 0) fs) =
      map (\<lambda>(i, f). f\<lparr>fr_sequence := sq + 1 + 1 + of_nat i\<rparr>) (enumerate 0 fs)"
    by (rule nth_equalityI) (auto simp: nth_enumerate_eq algebra_simps)
  have "unat (sq + 1) = unat sq + 1" using ok(4) by (simp add: unat_Suc_not_max)
  with Cons.IH [OF rest] ok shift show ?case by (auto simp: algebra_simps)
qed simp

section \<open>Apply\<close>

lemma normalizeReadyAt_idem [simp]: "normalizeReadyAt (normalizeReadyAt v) = normalizeReadyAt v"
proof -
  have exact: "normalizeReadyAt u = u" if "u mod microsecond = 0" for u
    using that by (simp add: normalizeReadyAt_def time_IsZero_def)
  have "normalizeReadyAt v mod microsecond = 0"
    by (auto simp: normalizeReadyAt_def time_IsZero_def time_Add_def Let_def microsecond_def)
  then show ?thesis by (rule exact)
qed

lemma gm_put_mem: "(k, v) \<in> set (gm_put x y m) \<Longrightarrow> (k, v) \<in> set m \<or> k = x \<and> v = y"
  by (induction m) (auto split: if_splits)

text \<open>What a successful transition did, apart from the deduplication of commands.\<close>

definition advances :: "(string \<Rightarrow> string) \<Rightarrow> CallSnapshot \<Rightarrow> Transition \<Rightarrow> CallSnapshot \<Rightarrow> bool" where
  "advances sha s tr s' \<longleftrightarrow> \<not> Status_Terminal (cs_status s) \<and>
     allowedTransition (cs_status s) (tr_status tr) (tr_command tr) \<and> cs_revision s \<noteq> - 1 \<and>
     cs_callID s' = cs_callID s \<and> cs_operation s' = cs_operation s \<and> cs_status s' = tr_status tr \<and>
     cs_readyAt s' = (if tr_status tr = StatusSuspended then normalizeReadyAt (tr_readyAt tr) else 0) \<and>
     cs_revision s' = cs_revision s + 1 \<and>
     cs_fence s' = (if tr_fence tr = 0 then cs_fence s else tr_fence tr) \<and> cs_fence s \<le> cs_fence s' \<and>
     (tr_status tr = StatusRunning \<longrightarrow> cs_fence s' \<noteq> 0) \<and>
     cs_frameFloor s' = cs_frameFloor s \<and>
     append_frames (tr_frames tr) (cs_sequence s, cs_frames s) = Ok (cs_sequence s', cs_frames s') \<and>
     cs_commands s' = (if tr_command tr = commandNone then cs_commands s
       else gm_put (tr_commandID tr) (command_record sha tr) (cs_commands s)) \<and>
     cs_workflow s' = (case tr_workflow tr of None \<Rightarrow> cs_workflow s | Some w \<Rightarrow> Some w)"

definition deduplicates :: "(string \<Rightarrow> string) \<Rightarrow> CallSnapshot \<Rightarrow> Transition \<Rightarrow> bool" where
  "deduplicates sha s tr \<longleftrightarrow> tr_command tr \<noteq> commandNone \<and>
     gm_get (cs_commands s) (tr_commandID tr) = Some (command_record sha tr)"

lemma apply_new_Ok: "apply_new sha s tr = Ok s' \<Longrightarrow> advances sha s tr s'"
  by (auto simp: apply_new_def advances_def Let_def split: if_splits sum.splits)

lemma Apply_Ok:
  assumes "Apply sha s tr = Ok s'"
  shows "snapshot_ok s" and "Status_valid (tr_status tr)"
    and "tr_command tr \<noteq> commandNone \<Longrightarrow> call_validIdentity (tr_commandID tr)"
    and "tr_workflow tr = Some w \<Longrightarrow> validateWorkflowSuccessor (cs_workflow s) (Some w) = None"
    and "deduplicates sha s tr \<and> s' = s \<or> \<not> deduplicates sha s tr \<and> advances sha s tr s' \<and>
      (tr_command tr \<noteq> commandNone \<longrightarrow> gm_get (cs_commands s) (tr_commandID tr) = None)"
  using assms
  by (auto simp: Apply_def Let_def deduplicates_def validateSnapshot_ok dest: apply_new_Ok
      split: option.splits if_splits)

lemma successor_workflow_valid: "validateWorkflowSuccessor w (Some v) = None \<Longrightarrow> validateWorkflowState (Some v) = None"
  by (auto simp: validateWorkflowSuccessor_def split: option.splits if_splits)

lemma allowed_command: "allowedTransition a b c \<Longrightarrow> c = commandNone \<or> c = commandSignal \<or> c = commandCancel"
  by (cases c) (auto simp: allowedTransition_def)

lemma advances_frames:
  assumes "snapshot_ok s" and "advances sha s tr s'"
  shows "prefix (cs_frames s) (cs_frames s')" and "cs_sequence s \<le> cs_sequence s'"
    and "cs_frameFloor s' \<le> cs_sequence s' \<or> cs_frameFloor s' = cs_sequence s' + 1"
    and "cs_frameFloor s' + of_nat (length (cs_frames s')) = cs_sequence s' + 1"
    and "\<forall>i < length (cs_frames s'). valid_frame_at (cs_frameFloor s') (cs_frames s' ! i) i"
proof -
  let ?fs = "tr_frames tr" and ?n = "length (cs_frames s)"
  have same: "cs_frameFloor s' = cs_frameFloor s" using assms(2) by (simp add: advances_def)
  have app: "append_frames ?fs (cs_sequence s, cs_frames s) = Ok (cs_sequence s', cs_frames s')"
    using assms(2) by (simp add: advances_def)
  from append_frames_Ok [OF this]
  have frames: "cs_frames s' = cs_frames s @ map (\<lambda>(i, f). f\<lparr>fr_sequence := cs_sequence s + 1 + of_nat i\<rparr>) (enumerate 0 ?fs)"
    and count: "unat (cs_sequence s') = unat (cs_sequence s) + length ?fs" "cs_sequence s' = cs_sequence s + of_nat (length ?fs)"
    and kinds: "\<forall>f \<in> set ?fs. FrameKind_valid (fr_kind f) \<and> fr_kind f \<noteq> FrameAccepted \<and> length (fr_payload f) \<le> maxPayloadBytes"
    by blast+
  have floor: "cs_frameFloor s + of_nat ?n = cs_sequence s + 1" using assms(1) by (simp add: snapshot_ok_def)
  show "prefix (cs_frames s) (cs_frames s')" by (simp add: frames)
  show le: "cs_sequence s \<le> cs_sequence s'" using count(1) by (simp add: word_le_nat_alt)
  show "cs_frameFloor s' + of_nat (length (cs_frames s')) = cs_sequence s' + 1"
    using floor by (simp add: frames same count(2) algebra_simps)
  show "cs_frameFloor s' \<le> cs_sequence s' \<or> cs_frameFloor s' = cs_sequence s' + 1"
  proof (cases ?fs)
    case Nil
    then show ?thesis using assms(1) count(2) same by (simp add: snapshot_ok_def)
  next
    case (Cons f fs)
    with count(1) have "unat (cs_sequence s + 1) \<le> unat (cs_sequence s')"
      using unat_Suc_not_max [of "cs_sequence s"] by (cases "cs_sequence s = - 1") simp_all
    with le assms(1) same show ?thesis by (auto simp: snapshot_ok_def word_le_nat_alt)
  qed
  show "\<forall>i < length (cs_frames s'). valid_frame_at (cs_frameFloor s') (cs_frames s' ! i) i"
  proof (intro allI impI)
    fix i
    assume i: "i < length (cs_frames s')"
    show "valid_frame_at (cs_frameFloor s') (cs_frames s' ! i) i"
    proof (cases "i < ?n")
      case True
      then show ?thesis using assms(1) same by (simp add: frames nth_append snapshot_ok_def)
    next
      case False
      then obtain j where j: "i = ?n + j" "j < length ?fs" using i le_Suc_ex [of ?n i] by (auto simp: frames)
      have "cs_frameFloor s + of_nat i = cs_sequence s + 1 + of_nat j" using floor j(1) by (simp add: algebra_simps)
      moreover have "?fs ! j \<in> set ?fs" using j(2) by simp
      ultimately show ?thesis
        using j kinds [rule_format, of "?fs ! j"] by (auto simp: frames nth_append nth_enumerate_eq valid_frame_at_def same)
    qed
  qed
qed

lemma advances_ok:
  assumes "snapshot_ok s" and "advances sha s tr s'" and "Status_valid (tr_status tr)"
    and cid: "tr_command tr \<noteq> commandNone \<Longrightarrow> call_validIdentity (tr_commandID tr)"
    and "\<And>w. tr_workflow tr = Some w \<Longrightarrow> validateWorkflowSuccessor (cs_workflow s) (Some w) = None"
  shows "snapshot_ok s'"
proof -
  have "validateWorkflowState (cs_workflow s') = None"
    using assms(1,2,5) successor_workflow_valid by (auto simp: advances_def snapshot_ok_def split: option.splits)
  moreover have "cs_revision s' \<noteq> 0" and "cs_revision s' \<noteq> 1"
  proof -
    have "cs_revision s' = cs_revision s + 1" and "cs_revision s \<noteq> - 1" and "cs_revision s \<noteq> 0"
      using assms(1,2) by (simp_all add: advances_def snapshot_ok_def)
    then show "cs_revision s' \<noteq> 0" and "cs_revision s' \<noteq> 1" by (simp_all add: eq_neg_iff_add_eq_0 [symmetric])
  qed
  moreover have "call_validIdentity k \<and> (cr_kind r = commandSignal \<or> cr_kind r = commandCancel)"
    if "(k, r) \<in> set (cs_commands s')" for k r
  proof -
    have "(k, r) \<in> set (cs_commands s) \<or> tr_command tr \<noteq> commandNone \<and> k = tr_commandID tr \<and> cr_kind r = tr_command tr"
      using that assms(2) by (auto simp: advances_def command_record_def dest: gm_put_mem split: if_splits)
    moreover have "tr_command tr = commandNone \<or> tr_command tr = commandSignal \<or> tr_command tr = commandCancel"
      using assms(2) by (auto simp: advances_def dest: allowed_command)
    moreover have "(k, r) \<in> set (cs_commands s) \<Longrightarrow>
        call_validIdentity k \<and> (cr_kind r = commandSignal \<or> cr_kind r = commandCancel)"
      using assms(1) by (auto simp: snapshot_ok_def)
    ultimately show ?thesis using cid by auto
  qed
  then have "\<forall>(k, r) \<in> set (cs_commands s'). call_validIdentity k \<and> (cr_kind r = commandSignal \<or> cr_kind r = commandCancel)"
    by blast
  moreover have "call_validIdentity (cs_callID s')" and "call_validOperation (cs_operation s')"
    and "Status_valid (cs_status s')" and "cs_frameFloor s' \<noteq> 0"
    and "cs_readyAt s' \<noteq> 0 \<longrightarrow> cs_status s' = StatusSuspended \<and> normalizeReadyAt (cs_readyAt s') = cs_readyAt s'"
    using assms(1-3) by (simp_all add: snapshot_ok_def advances_def)
  ultimately show ?thesis
    using advances_frames(3-5) [OF assms(1,2)] unfolding snapshot_ok_def by (intro conjI) simp_all
qed

section \<open>Growth\<close>

text \<open>
  The order of the snapshots of one call: identity is fixed, counters, frames and accepted
  commands grow, and nothing changes after a terminal status. Pruning drops a prefix of the
  frames of a terminal snapshot, so frames are compared by the sequences still held.
\<close>

definition pruned :: "CallSnapshot \<Rightarrow> CallSnapshot \<Rightarrow> bool" where
  "pruned s s' \<longleftrightarrow> s' = s\<lparr>cs_frameFloor := cs_frameFloor s', cs_frames := cs_frames s'\<rparr>"

definition grows :: "CallSnapshot \<Rightarrow> CallSnapshot \<Rightarrow> bool" where
  "grows s s' \<longleftrightarrow> cs_callID s' = cs_callID s \<and> cs_operation s' = cs_operation s \<and>
     cs_revision s \<le> cs_revision s' \<and> cs_fence s \<le> cs_fence s' \<and> cs_sequence s \<le> cs_sequence s' \<and>
     cs_frameFloor s \<le> cs_frameFloor s' \<and>
     (\<forall>f \<in> set (cs_frames s). cs_frameFloor s' \<le> fr_sequence f \<longrightarrow> f \<in> set (cs_frames s')) \<and>
     (\<forall>k r. gm_get (cs_commands s) k = Some r \<longrightarrow> gm_get (cs_commands s') k = Some r) \<and>
     (Status_Terminal (cs_status s) \<or> cs_revision s = cs_revision s' \<longrightarrow> pruned s s') \<and>
     (\<not> Status_Terminal (cs_status s') \<and> cs_revision s = cs_revision s' \<longrightarrow> s' = s)"

lemma pruned_trans: "pruned s t \<Longrightarrow> pruned t u \<Longrightarrow> pruned s u"
  by (cases s; cases t; cases u) (simp add: pruned_def)

lemma pruned_fields: "pruned s t \<Longrightarrow> cs_status t = cs_status s \<and> cs_revision t = cs_revision s"
  by (cases s; cases t) (simp add: pruned_def)

lemma grows_refl [simp]: "grows s s"
  by (simp add: grows_def pruned_def)

lemma grows_trans:
  assumes "grows s t" and "grows t u"
  shows "grows s u"
proof -
  have "pruned s u" if "Status_Terminal (cs_status s) \<or> cs_revision s = cs_revision u"
  proof -
    have "Status_Terminal (cs_status s) \<or> cs_revision s = cs_revision t"
      using that assms by (auto simp: grows_def)
    then have st: "pruned s t" using assms(1) by (simp add: grows_def)
    then have "Status_Terminal (cs_status t) \<or> cs_revision t = cs_revision u" using that pruned_fields by metis
    then show ?thesis using st assms(2) pruned_trans by (auto simp: grows_def)
  qed
  moreover have "u = s" if "\<not> Status_Terminal (cs_status u)" "cs_revision s = cs_revision u"
  proof -
    have "cs_revision t = cs_revision u" using that(2) assms by (auto simp: grows_def)
    then have "u = t" using that(1) assms(2) by (simp add: grows_def)
    then show ?thesis using that assms(1) by (simp add: grows_def)
  qed
  moreover have "f \<in> set (cs_frames u)" if "f \<in> set (cs_frames s)" "cs_frameFloor u \<le> fr_sequence f" for f
    using assms that unfolding grows_def by (meson order.trans)
  moreover have "gm_get (cs_commands u) k = Some r" if "gm_get (cs_commands s) k = Some r" for k r
    using assms that by (simp add: grows_def)
  moreover have "cs_callID u = cs_callID s" "cs_operation u = cs_operation s" "cs_revision s \<le> cs_revision u"
    "cs_fence s \<le> cs_fence u" "cs_sequence s \<le> cs_sequence u" "cs_frameFloor s \<le> cs_frameFloor u"
    using assms by (auto simp: grows_def)
  ultimately show ?thesis unfolding grows_def by blast
qed

lemma advances_grows:
  assumes "snapshot_ok s" and "advances sha s tr s'"
    and "tr_command tr \<noteq> commandNone \<Longrightarrow> gm_get (cs_commands s) (tr_commandID tr) = None"
  shows "grows s s'" and "cs_revision s < cs_revision s'"
proof -
  show less: "cs_revision s < cs_revision s'"
    using assms(2) u64_less_Suc by (simp add: advances_def)
  have "set (cs_frames s) \<subseteq> set (cs_frames s')"
    using advances_frames(1) [OF assms(1,2)] by (rule set_mono_prefix)
  moreover have "gm_get (cs_commands s') k = Some r" if "gm_get (cs_commands s) k = Some r" for k r
    using that assms(2,3) by (auto simp: advances_def gm_get_put)
  moreover have "cs_fence s \<le> cs_fence s'" using assms(2) unfolding advances_def by blast
  moreover have "cs_callID s' = cs_callID s" "cs_operation s' = cs_operation s"
    "cs_frameFloor s' = cs_frameFloor s" "\<not> Status_Terminal (cs_status s)"
    using assms(2) by (simp_all add: advances_def)
  ultimately show "grows s s'"
    using less advances_frames(2) [OF assms(1,2)] by (auto simp: grows_def)
qed

lemma Apply_laws:
  assumes "Apply sha s tr = Ok s'"
  shows "snapshot_ok s'" and "grows s s'" and "s' = s \<or> cs_revision s < cs_revision s'"
proof -
  note ok = Apply_Ok(1) [OF assms] and cases = Apply_Ok(5) [OF assms]
  show "snapshot_ok s'"
    using cases ok advances_ok [OF ok _ Apply_Ok(2) [OF assms] Apply_Ok(3) [OF assms] Apply_Ok(4) [OF assms]]
    by blast
  show "grows s s'" and "s' = s \<or> cs_revision s < cs_revision s'"
    using cases advances_grows [OF ok, of sha tr s'] by auto
qed

section \<open>Pruning\<close>

lemma unat_u64_less: "unat (x :: u64) < 2 ^ 64"
proof -
  have "unat x < 2 ^ LENGTH(64)" by (rule unsigned_less)
  then show ?thesis by simp
qed

lemma prune_drop:
  assumes "floor < floor'" and "i < unat (floor' - floor)"
  shows "(floor :: u64) + of_nat i < floor'"
proof -
  have diff: "unat floor' = unat floor + unat (floor' - floor)"
    using assms(1) by (simp add: unat_sub word_le_nat_alt word_less_nat_alt)
  have small: "i < 2 ^ 64" using assms(2) unat_u64_less [of "floor' - floor"] by linarith
  have "unat floor + i < 2 ^ 64" using assms(2) diff unat_u64_less [of floor'] by linarith
  then have "unat (floor + of_nat i) = unat floor + i"
    using small by (simp add: unat_word_ariths unat_of_nat)
  then show ?thesis using assms(2) diff by (simp add: word_less_nat_alt)
qed

lemma PruneSnapshot_laws:
  assumes "PruneSnapshot s fl = Ok s'" and "Status_Terminal (cs_status s)"
  shows "snapshot_ok s'" and "grows s s'" and "pruned s s'"
proof -
  consider "s' = s" "snapshot_ok s" | "cs_frameFloor s < fl" "snapshot_ok s" "snapshot_ok s'"
    "s' = s\<lparr>cs_frameFloor := fl, cs_frames := drop (unat (fl - cs_frameFloor s)) (cs_frames s)\<rparr>"
    using assms(1) by (auto simp: PruneSnapshot_def Let_def validateSnapshot_ok split: if_splits)
  then have "snapshot_ok s' \<and> grows s s' \<and> pruned s s'"
  proof cases
    case 2
    have "f \<in> set (cs_frames s')" if f: "f \<in> set (cs_frames s)" "fl \<le> fr_sequence f" for f
    proof -
      obtain i where i: "i < length (cs_frames s)" "cs_frames s ! i = f" using f(1) by (auto simp: in_set_conv_nth)
      with 2(2) have "fr_sequence f = cs_frameFloor s + of_nat i" by (auto simp: snapshot_ok_def valid_frame_at_def)
      with f(2) prune_drop [OF 2(1), of i] have "unat (fl - cs_frameFloor s) \<le> i" by (metis not_le)
      with i have "f \<in> set (drop (unat (fl - cs_frameFloor s)) (cs_frames s))"
        by (auto simp: in_set_conv_nth intro!: exI [of _ "i - unat (fl - cs_frameFloor s)"])
      with 2(4) show ?thesis by simp
    qed
    moreover have "pruned s s'" using 2(4) by (simp add: pruned_def)
    ultimately show ?thesis using 2 assms(2) by (auto simp: grows_def)
  qed (auto simp: pruned_def)
  then show "snapshot_ok s'" and "grows s s'" and "pruned s s'" by auto
qed

section \<open>Digests\<close>

lemma length_be_bytes [simp]: "length (be_bytes k n) = k"
  by (induction k arbitrary: n) simp_all

lemma be_bytes_inj: "m < 256 ^ k \<Longrightarrow> n < 256 ^ k \<Longrightarrow> be_bytes k m = be_bytes k n \<Longrightarrow> m = n"
proof (induction k arbitrary: m n)
  case (Suc k)
  then have "be_bytes k (m div 256) = be_bytes k (n div 256)" and last: "char_of (m mod 256) = char_of (n mod 256)"
    by auto
  moreover have "m div 256 < 256 ^ k" and "n div 256 < 256 ^ k"
    using Suc.prems(1,2) by (simp_all add: less_mult_imp_div_less mult.commute)
  ultimately have "m div 256 = n div 256" by (intro Suc.IH)
  moreover have "m mod 256 = n mod 256"
    using arg_cong [OF last, of "of_char :: char \<Rightarrow> nat"] by simp
  ultimately show ?case by (metis div_mult_mod_eq)
qed simp

lemma writeDigestPart_inj:
  assumes "writeDigestPart a @ x = writeDigestPart b @ y" and "length a < 2 ^ 64" and "length b < 2 ^ 64"
  shows "a = b \<and> x = y"
proof -
  have "be_bytes 8 (length a) = be_bytes 8 (length b)" and rest: "a @ x = b @ y"
    using assms(1) by (auto simp: writeDigestPart_def)
  then have "length a = length b" using assms(2,3) by (intro be_bytes_inj [of _ 8]) simp_all
  with rest show ?thesis by simp
qed

definition frame_content :: "Frame \<Rightarrow> FrameKind \<times> string" where
  "frame_content f = (fr_kind f, fr_payload f)"

lemma frameKind_string_inj: "FrameKind_valid a \<Longrightarrow> FrameKind_valid b \<Longrightarrow> frameKind_string a = frameKind_string b \<Longrightarrow> a = b"
  by (cases a; cases b) (simp_all add: FrameKind_valid_def)

lemma frameKind_string_short: "FrameKind_valid k \<Longrightarrow> length (frameKind_string k) < 2 ^ 64"
  by (cases k) (simp_all add: FrameKind_valid_def)

text \<open>The framing of digests is unambiguous: different frame contents give different inputs.\<close>

lemma digest_parts_inj:
  assumes "\<forall>f \<in> set fs. FrameKind_valid (fr_kind f) \<and> length (fr_payload f) < 2 ^ 64"
    and "\<forall>f \<in> set gs. FrameKind_valid (fr_kind f) \<and> length (fr_payload f) < 2 ^ 64"
    and "concat (map (\<lambda>f. writeDigestPart (frameKind_string (fr_kind f)) @ writeDigestPart (fr_payload f)) fs) =
      concat (map (\<lambda>f. writeDigestPart (frameKind_string (fr_kind f)) @ writeDigestPart (fr_payload f)) gs)"
  shows "map frame_content fs = map frame_content gs"
  using assms
proof (induction fs arbitrary: gs)
  case Nil
  then show ?case by (cases gs) (simp_all add: writeDigestPart_def flip: length_0_conv)
next
  case (Cons f fs)
  then obtain g gs' where gs: "gs = g # gs'"
    by (cases gs) (simp_all add: writeDigestPart_def flip: length_0_conv)
  let ?rest = "\<lambda>fs. concat (map (\<lambda>f. writeDigestPart (frameKind_string (fr_kind f)) @ writeDigestPart (fr_payload f)) fs)"
  have "writeDigestPart (frameKind_string (fr_kind f)) @ (writeDigestPart (fr_payload f) @ ?rest fs) =
      writeDigestPart (frameKind_string (fr_kind g)) @ (writeDigestPart (fr_payload g) @ ?rest gs')"
    using Cons.prems(3) gs by simp
  note split = writeDigestPart_inj [OF this]
  have valid: "FrameKind_valid (fr_kind f)" "FrameKind_valid (fr_kind g)" "length (fr_payload f) < 2 ^ 64"
    "length (fr_payload g) < 2 ^ 64"
    using Cons.prems(1,2) gs by auto
  have kind: "frameKind_string (fr_kind f) = frameKind_string (fr_kind g)"
    and "writeDigestPart (fr_payload f) @ ?rest fs = writeDigestPart (fr_payload g) @ ?rest gs'"
    using split [OF frameKind_string_short [OF valid(1)] frameKind_string_short [OF valid(2)]] by blast+
  from writeDigestPart_inj [OF this(2) valid(3,4)]
  have "fr_payload f = fr_payload g" and "?rest fs = ?rest gs'" by blast+
  moreover have "fr_kind f = fr_kind g" using kind frameKind_string_inj valid by blast
  ultimately show ?case using Cons.IH [of gs'] Cons.prems(1,2) gs by (simp add: frame_content_def)
qed

lemma digest_input_inj:
  assumes "\<forall>f \<in> set fs. FrameKind_valid (fr_kind f) \<and> length (fr_payload f) < 2 ^ 64"
    and "\<forall>f \<in> set gs. FrameKind_valid (fr_kind f) \<and> length (fr_payload f) < 2 ^ 64"
    and "digest_input fs = digest_input gs"
  shows "map frame_content fs = map frame_content gs"
  using assms(3) by (intro digest_parts_inj [OF assms(1,2)]) (simp add: digest_input_def)

end
