(* ===== verification/Call_History.thy ===== *)
theory Call_History
  imports Call_Store Continuation_Laws
begin

text \<open>
  Histories of the call store: any number of clients and executors create, load, claim, commit,
  signal, cancel, expire, prune and delete calls in any order, each on the snapshots it got from
  the store earlier. Every stored snapshot stays valid, snapshots of a call only grow, and only
  the executor with the latest claim commits, and it commits on the latest state.
\<close>

section \<open>The system\<close>

text \<open>
  \<open>sy_held\<close> are the snapshots the store has returned, any of which a client may still hold;
  \<open>sy_grants\<close> are the granted executions, oldest first: call, fence, and the owner of the lease or
  the empty string for an \<open>Acquire\<close>.
\<close>

record CallSystem =
  sy_store :: CallStore
  sy_held :: "CallSnapshot list"
  sy_grants :: "(string \<times> u64 \<times> string) list"

datatype call_op =
  OpCreate CallSnapshot
| OpLoad string
| OpAcquire go_time string u64
| OpCommit go_time nat Transition string go_time duration
| OpSignal CommandRequest
| OpCancel CommandRequest
| OpClaim go_time ClaimRequest
| OpRenew go_time LeaseRequest
| OpRelease LeaseRequest
| OpPrune string u64
| OpExpire string u64 go_time
| OpDelete go_time int

definition returns :: "(goerr + CallSnapshot) \<times> CallStore \<Rightarrow> CallSystem \<Rightarrow> CallSystem" where
  "returns result sys = (case result of (Err _, st) \<Rightarrow> sys\<lparr>sy_store := st\<rparr>
   | (Ok s, st) \<Rightarrow> sys\<lparr>sy_store := st, sy_held := sy_held sys @ [s]\<rparr>)"

definition grant_new :: "string \<Rightarrow> string \<Rightarrow> CallSystem \<Rightarrow> CallSystem \<Rightarrow> CallSystem" where
  "grant_new key owner sys sys' =
     (case (gm_get (st_records (sy_store sys)) key, gm_get (st_records (sy_store sys')) key) of
        (Some r, Some r') \<Rightarrow> if cs_fence r < cs_fence r'
          then sys'\<lparr>sy_grants := sy_grants sys' @ [(key, cs_fence r', owner)]\<rparr> else sys'
      | _ \<Rightarrow> sys')"

definition lease_result :: "(goerr + Lease) \<times> CallStore \<Rightarrow> (goerr + CallSnapshot) \<times> CallStore" where
  "lease_result result = (case result of (Err e, st) \<Rightarrow> (Err e, st) | (Ok lease, st) \<Rightarrow> (Ok (ls_Snapshot lease), st))"

text \<open>
  An executor commits by applying a transition to a snapshot it holds, the \<open>i\<close>-th returned one, and
  sending the result to the store, as \<open>Runtime\<close> and \<open>WorkflowRuntime\<close> do.
\<close>

fun call_step :: "(string \<Rightarrow> string) \<Rightarrow> CallSystem \<Rightarrow> Context option \<times> call_op \<Rightarrow> CallSystem" where
  "call_step sha sys (ctx, OpCreate s) = returns (call_Create ctx s (sy_store sys)) sys"
| "call_step sha sys (ctx, OpLoad key) = returns (call_Load ctx key (sy_store sys)) sys"
| "call_step sha sys (ctx, OpAcquire now key expected) =
     grant_new key [] sys (returns (Acquire sha ctx now key expected (sy_store sys)) sys)"
| "call_step sha sys (ctx, OpCommit now i tr owner clock retention) =
     (if i < length (sy_held sys) then
        (case Apply sha (sy_held sys ! i) tr of Err _ \<Rightarrow> sys
         | Ok s' \<Rightarrow> returns (call_Transition ctx now (commitRequest owner clock retention (sy_held sys ! i) s')
             (sy_store sys)) sys)
      else sys)"
| "call_step sha sys (ctx, OpSignal request) = returns (SubmitSignal sha ctx request (sy_store sys)) sys"
| "call_step sha sys (ctx, OpCancel request) = returns (RequestCancel sha ctx request (sy_store sys)) sys"
| "call_step sha sys (ctx, OpClaim now request) = grant_new (cq_CallID request) (cq_OwnerID request) sys
     (returns (lease_result (Claim sha ctx now request (sy_store sys))) sys)"
| "call_step sha sys (ctx, OpRenew now request) = returns (lease_result (Renew ctx now request (sy_store sys))) sys"
| "call_step sha sys (ctx, OpRelease request) = sys\<lparr>sy_store := snd (Release ctx request (sy_store sys))\<rparr>"
| "call_step sha sys (ctx, OpPrune key fl) = returns (PruneFrames ctx key fl (sy_store sys)) sys"
| "call_step sha sys (ctx, OpExpire key expected expiresAt) = returns (call_Expire sha ctx key expected expiresAt (sy_store sys)) sys"
| "call_step sha sys (ctx, OpDelete before limit) =
     sys\<lparr>sy_store := snd (DeleteExpired ctx before limit (sy_store sys))\<rparr>"

text \<open>
  Clients create calls with the constructors of the package, which give valid snapshots, and never
  reuse the identity of a call.
\<close>

fun call_guard :: "CallSystem \<Rightarrow> Context option \<times> call_op \<Rightarrow> bool" where
  "call_guard sys (ctx, OpCreate s) \<longleftrightarrow> validateSnapshot s = None \<and> cs_callID s \<notin> cs_callID ` set (sy_held sys)"
| "call_guard sys _ \<longleftrightarrow> True"

definition call_init :: CallSystem where
  "call_init = \<lparr>sy_store = NewWithClock, sy_held = [], sy_grants = []\<rparr>"

definition last_grant :: "(string \<times> u64 \<times> string) list \<Rightarrow> string \<Rightarrow> (u64 \<times> string) option" where
  "last_grant grants key = map_option snd (find (\<lambda>(k, f, o'). k = key) (rev grants))"

section \<open>The invariant\<close>

definition record_ok :: "CallSystem \<Rightarrow> string \<Rightarrow> CallSnapshot \<Rightarrow> bool" where
  "record_ok sys key r \<longleftrightarrow> cs_callID r = key \<and> snapshot_ok r \<and> r \<in> set (sy_held sys) \<and>
     (\<forall>(k, f, o') \<in> set (sy_grants sys). k = key \<longrightarrow> f \<le> cs_fence r)"

definition lease_ok :: "CallSystem \<Rightarrow> string \<Rightarrow> leaseRecord \<Rightarrow> bool" where
  "lease_ok sys key l \<longleftrightarrow> (\<exists>r. gm_get (st_records (sy_store sys)) key = Some r \<and>
     lr_revision l = cs_revision r \<and> lr_fence l = cs_fence r \<and> \<not> Status_Terminal (cs_status r) \<and>
     (lr_owner l \<noteq> [] \<longrightarrow> last_grant (sy_grants sys) key = Some (lr_fence l, lr_owner l)))"

definition held_ok :: "CallSystem \<Rightarrow> CallSnapshot \<Rightarrow> bool" where
  "held_ok sys h \<longleftrightarrow> snapshot_ok h \<and>
     (\<forall>r. gm_get (st_records (sy_store sys)) (cs_callID h) = Some r \<longrightarrow> grows h r)"

definition call_inv :: "CallSystem \<Rightarrow> bool" where
  "call_inv sys \<longleftrightarrow> gm_wf (st_records (sy_store sys)) \<and>
     (\<forall>k r. gm_get (st_records (sy_store sys)) k = Some r \<longrightarrow> record_ok sys k r) \<and>
     (\<forall>k l. gm_get (st_leases (sy_store sys)) k = Some l \<longrightarrow> lease_ok sys k l) \<and>
     (\<forall>h \<in> set (sy_held sys). held_ok sys h) \<and>
     (\<forall>(k, f, o') \<in> set (sy_grants sys). k \<in> cs_callID ` set (sy_held sys)) \<and>
     sorted_wrt (\<lambda>(k, f, o') (k', f', o''). k = k' \<longrightarrow> f < f') (sy_grants sys)"

lemma call_init_inv: "call_inv call_init"
  by (simp add: call_inv_def call_init_def NewWithClock_def)

lemma last_grant_append:
  "last_grant (gs @ [(k, f, o')]) key = (if k = key then Some (f, o') else last_grant gs key)"
  by (simp add: last_grant_def)

text \<open>The effects of the operations: nothing, one written record, a new record, deletions.\<close>

lemma inv_quiet:
  assumes "call_inv sys" and "st_records (sy_store sys') = st_records (sy_store sys)"
    and leases: "\<And>k l'. gm_get (st_leases (sy_store sys')) k = Some l' \<Longrightarrow> \<exists>l. gm_get (st_leases (sy_store sys)) k = Some l \<and>
      lr_owner l' = lr_owner l \<and> lr_revision l' = lr_revision l \<and> lr_fence l' = lr_fence l"
    and "sy_held sys' = sy_held sys @ xs" and "sy_grants sys' = sy_grants sys"
    and xs: "\<And>x. x \<in> set xs \<Longrightarrow> \<exists>k. gm_get (st_records (sy_store sys)) k = Some x"
  shows "call_inv sys'"
proof -
  have recs: "record_ok sys k r" if "gm_get (st_records (sy_store sys)) k = Some r" for k r
    using assms(1) that by (simp add: call_inv_def)
  have "held_ok sys' x" if x: "x \<in> set xs" for x
  proof -
    obtain k where k: "gm_get (st_records (sy_store sys)) k = Some x" using xs [OF x] by blast
    with recs have "cs_callID x = k" "snapshot_ok x" by (auto simp: record_ok_def)
    with k show ?thesis by (simp add: held_ok_def assms(2))
  qed
  moreover have "held_ok sys' h" if "h \<in> set (sy_held sys)" for h
    using assms(1,2) that by (simp add: call_inv_def held_ok_def)
  moreover have "record_ok sys' k r" if "gm_get (st_records (sy_store sys)) k = Some r" for k r
    using recs [OF that] assms(4,5) by (auto simp: record_ok_def)
  moreover have "lease_ok sys' k l'" if "gm_get (st_leases (sy_store sys')) k = Some l'" for k l'
    using leases [OF that] assms(1,2,5) by (auto simp: call_inv_def lease_ok_def)
  ultimately show ?thesis
    using assms(1,2,4,5) by (auto simp: call_inv_def)
qed

lemma inv_write:
  assumes inv: "call_inv sys" and r: "gm_get (st_records (sy_store sys)) key = Some r"
    and records: "st_records (sy_store sys') = gm_put key r' (st_records (sy_store sys))"
    and r': "snapshot_ok r'" "grows r r'"
    and others: "\<And>k. k \<noteq> key \<Longrightarrow> gm_get (st_leases (sy_store sys')) k = gm_get (st_leases (sy_store sys)) k"
    and lease: "\<And>l. gm_get (st_leases (sy_store sys')) key = Some l \<Longrightarrow> lr_revision l = cs_revision r' \<and>
      lr_fence l = cs_fence r' \<and> \<not> Status_Terminal (cs_status r') \<and>
      (lr_owner l \<noteq> [] \<longrightarrow> last_grant (sy_grants sys') key = Some (lr_fence l, lr_owner l))"
    and held: "sy_held sys' = sy_held sys @ [r']"
    and grants: "sy_grants sys' = sy_grants sys \<or>
      sy_grants sys' = sy_grants sys @ [(key, cs_fence r', owner)] \<and> cs_fence r < cs_fence r'"
  shows "call_inv sys'"
proof -
  have rec: "record_ok sys key r" using inv r by (simp add: call_inv_def)
  have id': "cs_callID r' = key" and fence: "cs_fence r \<le> cs_fence r'" using rec r'(2) by (auto simp: record_ok_def grows_def)
  have get: "gm_get (st_records (sy_store sys')) k = (if k = key then Some r' else gm_get (st_records (sy_store sys)) k)" for k
    by (simp add: records gm_get_put)
  have "record_ok sys' k q" if "gm_get (st_records (sy_store sys')) k = Some q" for k q
  proof (cases "k = key")
    case True
    then show ?thesis using that rec id' fence r'(1) grants held unfolding get record_ok_def by fastforce
  next
    case False
    with that have "record_ok sys k q" using inv by (simp add: get call_inv_def)
    then show ?thesis using False grants held unfolding record_ok_def by auto
  qed
  moreover have "held_ok sys' h" if "h \<in> set (sy_held sys')" for h
  proof (cases "h = r'")
    case True
    then show ?thesis using r'(1) id' by (simp add: held_ok_def get)
  next
    case False
    then have "held_ok sys h" using that inv held by (simp add: call_inv_def)
    then show ?thesis using r r'(2) grows_trans by (auto simp: held_ok_def get)
  qed
  moreover have "lease_ok sys' k l" if "gm_get (st_leases (sy_store sys')) k = Some l" for k l
  proof (cases "k = key")
    case True
    then show ?thesis using lease [of l] that by (auto simp: lease_ok_def get)
  next
    case False
    then have "lease_ok sys k l" using that inv others by (simp add: call_inv_def)
    moreover have "last_grant (sy_grants sys') k = last_grant (sy_grants sys) k"
      using grants False by (auto simp: last_grant_append)
    ultimately show ?thesis using False by (auto simp: lease_ok_def get)
  qed
  moreover have "f < cs_fence r'" if "(key, f, o') \<in> set (sy_grants sys)" "cs_fence r < cs_fence r'" for f o'
  proof -
    have "f \<le> cs_fence r" using rec that(1) by (auto simp: record_ok_def)
    then show ?thesis using that(2) by (rule le_less_trans)
  qed
  then have "sorted_wrt (\<lambda>(k, f, o') (k', f', o''). k = k' \<longrightarrow> f < f') (sy_grants sys')"
    using grants inv by (auto simp: call_inv_def sorted_wrt_append)
  moreover have "\<forall>(k, f, o') \<in> set (sy_grants sys'). k \<in> cs_callID ` set (sy_held sys')"
    using grants inv rec held by (auto simp: call_inv_def record_ok_def)
  moreover have "gm_wf (st_records (sy_store sys'))" using inv by (simp add: records call_inv_def)
  ultimately show ?thesis by (simp add: call_inv_def)
qed

lemma inv_create:
  assumes inv: "call_inv sys" and "cs_callID s \<notin> cs_callID ` set (sy_held sys)" and "snapshot_ok s"
    and "st_records (sy_store sys') = gm_put (cs_callID s) s (st_records (sy_store sys))"
    and "st_leases (sy_store sys') = st_leases (sy_store sys)"
    and "sy_held sys' = sy_held sys @ [s]" and "sy_grants sys' = sy_grants sys"
  shows "call_inv sys'"
proof -
  have get: "gm_get (st_records (sy_store sys')) k = (if k = cs_callID s then Some s else gm_get (st_records (sy_store sys)) k)" for k
    by (simp add: assms(4) gm_get_put)
  have none: "gm_get (st_records (sy_store sys)) (cs_callID s) = None"
  proof (rule ccontr)
    assume "gm_get (st_records (sy_store sys)) (cs_callID s) \<noteq> None"
    then obtain r where "record_ok sys (cs_callID s) r" using inv by (auto simp: call_inv_def)
    then have "cs_callID r = cs_callID s" and "r \<in> set (sy_held sys)" by (simp_all add: record_ok_def)
    with assms(2) show False by (metis image_eqI)
  qed
  have "\<forall>(k, f, o') \<in> set (sy_grants sys). k \<noteq> cs_callID s" using inv assms(2) by (auto simp: call_inv_def)
  have "record_ok sys' k q" if "gm_get (st_records (sy_store sys')) k = Some q" for k q
  proof (cases "k = cs_callID s")
    case True
    then show ?thesis using that \<open>\<forall>(k, f, o') \<in> set (sy_grants sys). k \<noteq> cs_callID s\<close> assms(3,6,7)
      by (auto simp: get record_ok_def)
  next
    case False
    then have "record_ok sys k q" using that inv by (simp add: get call_inv_def)
    then show ?thesis using assms(6,7) by (simp add: record_ok_def)
  qed
  moreover have "held_ok sys' h" if "h \<in> set (sy_held sys')" for h
  proof (cases "h = s")
    case False
    then have h: "h \<in> set (sy_held sys)" using that assms(6) by simp
    then have "cs_callID h \<noteq> cs_callID s" using assms(2) by (metis imageI)
    then show ?thesis using inv h by (simp add: call_inv_def held_ok_def get)
  qed (simp add: held_ok_def assms(3) get)
  moreover have "lease_ok sys' k l" if "gm_get (st_leases (sy_store sys')) k = Some l" for k l
  proof -
    have "lease_ok sys k l" using that inv assms(5) by (simp add: call_inv_def)
    moreover from this none have "k \<noteq> cs_callID s" by (auto simp: lease_ok_def)
    ultimately show ?thesis by (simp add: lease_ok_def get assms(7))
  qed
  ultimately show ?thesis using inv assms(4,6,7) by (auto simp: call_inv_def)
qed

lemma inv_delete:
  assumes inv: "call_inv sys"
  shows "call_inv (sys\<lparr>sy_store := delete_call key (sy_store sys)\<rparr>)"
  using inv
  by (auto simp: call_inv_def delete_call_def record_ok_def lease_ok_def held_ok_def gm_get_del split: if_splits)

section \<open>The operations\<close>

lemma returns_simps [simp]:
  "returns (Err e, st) sys = sys\<lparr>sy_store := st\<rparr>"
  "returns (Ok r, st) sys = sys\<lparr>sy_store := st, sy_held := sy_held sys @ [r]\<rparr>"
  by (simp_all add: returns_def)

lemma guarded_returns:
  assumes "call_inv sys" and "valid \<Longrightarrow> call_inv (returns body sys)"
  shows "call_inv (returns (guarded ctx valid e body (sy_store sys)) sys)"
  using assms by (auto simp: guarded_def split: option.splits)

lemma lease_result_simps [simp]:
  "lease_result (Err e, st) = (Err e, st)" "lease_result (Ok l, st) = (Ok (ls_Snapshot l), st)"
  by (simp_all add: lease_result_def)

lemma lease_result_guarded: "lease_result (guarded ctx valid e body s) = guarded ctx valid e (lease_result body) s"
  by (simp add: guarded_def split: option.splits)

lemma inv_load:
  assumes "call_inv sys" and "gm_get (st_records (sy_store sys)) k = Some r"
  shows "call_inv (sys\<lparr>sy_held := sy_held sys @ [r]\<rparr>)"
  by (rule inv_quiet [OF assms(1), where xs = "[r]"]) (use assms(2) in auto)

lemma inv_drop_lease:
  assumes "call_inv sys"
  shows "call_inv (sys\<lparr>sy_store := sy_store sys\<lparr>st_leases := gm_del key (st_leases (sy_store sys))\<rparr>\<rparr>)"
  by (rule inv_quiet [OF assms, where xs = "[]"]) (auto simp: gm_get_del split: if_splits)

lemma create_inv:
  assumes "call_inv sys" and "call_guard sys (ctx, OpCreate s)"
  shows "call_inv (call_step sha sys (ctx, OpCreate s))"
proof -
  have "call_inv (sys\<lparr>sy_store := (sy_store sys)\<lparr>st_records := gm_put (cs_callID s) s (st_records (sy_store sys))\<rparr>,
      sy_held := sy_held sys @ [s]\<rparr>)"
    using assms(2) by (intro inv_create [OF assms(1), of s]) (simp_all add: validateSnapshot_ok)
  with assms(1) show ?thesis
    by (auto simp: call_Create_def intro!: guarded_returns split: option.splits)
qed

lemma load_inv: "call_inv sys \<Longrightarrow> call_inv (call_step sha sys (ctx, OpLoad key))"
  by (auto simp: call_Load_def intro!: guarded_returns intro: inv_load split: option.splits)

lemma begin_execution_Ok:
  assumes "begin_execution sha now r = Ok r'"
  shows "snapshot_ok r'" and "grows r r'" and "cs_fence r < cs_fence r'" and "\<not> Status_Terminal (cs_status r')"
    and "cs_revision r < cs_revision r'"
proof -
  define target where "target = (if cs_status r = StatusCancelRequested then StatusCancelRequested else StatusRunning)"
  have ap: "Apply sha r (Move target (cs_fence r + 1) []) = Ok r'" and max: "cs_fence r \<noteq> - 1"
    using assms by (auto simp: begin_execution_def target_def Let_def split: if_splits option.splits)
  show "snapshot_ok r'" and "grows r r'" using Apply_laws(1,2) [OF ap] .
  have "cs_fence r + 1 \<noteq> 0" using max by (simp add: eq_neg_iff_add_eq_0 [symmetric])
  moreover have adv: "advances sha r (Move target (cs_fence r + 1) []) r'"
    using Apply_Ok(5) [OF ap] by (auto simp: deduplicates_def Move_def)
  ultimately have "cs_fence r' = cs_fence r + 1" and st: "cs_status r' = target" and "cs_revision r' = cs_revision r + 1"
    and "cs_revision r \<noteq> - 1"
    by (simp_all add: advances_def Move_def)
  then show "cs_fence r < cs_fence r'" and "cs_revision r < cs_revision r'"
    using max by (simp_all add: u64_less_Suc)
  show "\<not> Status_Terminal (cs_status r')" using st by (simp add: target_def Status_Terminal_def)
qed

lemma call_acquire_inv:
  assumes inv: "call_inv sys"
  shows "call_inv (call_step sha sys (ctx, OpAcquire now key expected))"
proof -
  let ?st = "sy_store sys"
  let ?dropped = "?st\<lparr>st_leases := gm_del key (st_leases ?st)\<rparr>"
  have wr: "call_inv (grant_new key [] sys (sys\<lparr>sy_store := ?dropped\<lparr>st_records := gm_put key r' (st_records ?st)\<rparr>,
      sy_held := sy_held sys @ [r']\<rparr>))"
    if r: "gm_get (st_records ?st) key = Some r" and r': "begin_execution sha now r = Ok r'" for r r'
    using begin_execution_Ok [OF r'] r
    by (intro inv_write [OF inv r, where r' = r' and owner = "[]"]) (auto simp: grant_new_def gm_get_put gm_get_del)
  have none: "grant_new key [] sys sys' = sys'" if "st_records (sy_store sys') = st_records ?st" for sys'
    using that by (simp add: grant_new_def split: option.splits)
  show ?thesis
    using inv inv_drop_lease [OF inv, of key] wr
    by (auto simp: Acquire_def guarded_def none Let_def split: option.splits sum.splits)
qed

lemma grows_callID: "grows s s' \<Longrightarrow> cs_callID s' = cs_callID s"
  and grows_fence: "grows s s' \<Longrightarrow> cs_fence s \<le> cs_fence s'"
  and grows_current: "grows s s' \<Longrightarrow> \<not> Status_Terminal (cs_status s) \<Longrightarrow> cs_revision s = cs_revision s' \<Longrightarrow> s' = s"
  unfolding grows_def using pruned_fields by metis+

lemma Transition_Ok:
  assumes "call_Transition ctx now request st = (Ok s, st')"
  shows "s = cm_Snapshot request" and "st' = commit_store request st"
    and "\<exists>r. gm_get (st_records st) (cs_callID s) = Some r \<and> cm_Fence request = cs_fence r \<and>
      cm_ExpectedRevision request = cs_revision r \<and> validSuccessor r s (cs_fence r)"
    and "cm_LeaseOwner request \<noteq> [] \<Longrightarrow> leaseActive st (cs_callID s) now \<and>
      lease_matches st (cs_callID s) (cm_LeaseOwner request) (cm_ExpectedRevision request) (cm_Fence request)"
    and "cm_LeaseOwner request = [] \<Longrightarrow> \<not> leaseActive st (cs_callID s) now"
  using assms
  by (auto simp: call_Transition_def guarded_def Let_def split: option.splits if_splits)

text \<open>A commit is accepted only on the latest state of the call.\<close>

lemma commit_current:
  assumes "call_inv sys" and "h \<in> set (sy_held sys)" and "Apply sha h tr = Ok s'"
    and "call_Transition ctx now (commitRequest owner clock retention h s') (sy_store sys) = (Ok s, st')"
  shows "gm_get (st_records (sy_store sys)) (cs_callID h) = Some h" and "s = s'" and "cs_callID s' = cs_callID h"
    and "advances sha h tr s'" and "cs_fence s' = cs_fence h"
proof -
  show s: "s = s'" using Transition_Ok(1) [OF assms(4)] by (simp add: commitRequest_def)
  show id': "cs_callID s' = cs_callID h" using Apply_laws(2) [OF assms(3)] by (rule grows_callID)
  obtain r where r: "gm_get (st_records (sy_store sys)) (cs_callID h) = Some r" "cs_fence h = cs_fence r"
      "cs_revision h = cs_revision r" "validSuccessor r s' (cs_fence r)"
    using Transition_Ok(3) [OF assms(4)] s id' by (auto simp: commitRequest_def)
  then have succ: "cs_revision s' = cs_revision h + 1" "cs_fence s' = cs_fence r"
    by (simp_all add: validSuccessor_def)
  then have "s' \<noteq> h" by auto
  then show adv: "advances sha h tr s'" using Apply_Ok(5) [OF assms(3)] by blast
  show "cs_fence s' = cs_fence h" using succ r(2) by simp
  have "grows h r" using assms(1,2) r(1) by (simp add: call_inv_def held_ok_def)
  moreover have "\<not> Status_Terminal (cs_status h)" using adv by (simp add: advances_def)
  ultimately have "r = h" using r(3) by (rule grows_current)
  with r(1) show "gm_get (st_records (sy_store sys)) (cs_callID h) = Some h" by simp
qed

lemma commit_store_fields:
  "st_records (commit_store request st) = gm_put (cs_callID (cm_Snapshot request)) (cm_Snapshot request) (st_records st)"
  "k \<noteq> cs_callID (cm_Snapshot request) \<Longrightarrow> gm_get (st_leases (commit_store request st)) k = gm_get (st_leases st) k"
  by (auto simp: commit_store_def Let_def gm_get_put gm_get_del)

lemma commit_store_lease:
  assumes "gm_get (st_leases (commit_store request st)) (cs_callID (cm_Snapshot request)) = Some l"
  shows "cs_status (cm_Snapshot request) = StatusRunning" and "lr_revision l = cs_revision (cm_Snapshot request)"
    and "lr_fence l = cs_fence (cm_Snapshot request)"
    and "lr_owner l \<noteq> [] \<Longrightarrow> \<exists>l0. gm_get (st_leases st) (cs_callID (cm_Snapshot request)) = Some l0 \<and> lr_owner l0 = lr_owner l"
  using assms by (auto simp: commit_store_def Let_def gm_get_put gm_get_del zero_lease_def split: if_splits option.splits)

lemma commit_write:
  assumes inv: "call_inv sys" and h: "gm_get (st_records (sy_store sys)) (cs_callID h) = Some h"
    and s': "snapshot_ok s'" "grows h s'" "cs_callID s' = cs_callID h" "cs_fence s' = cs_fence h"
    and request: "cm_Snapshot request = s'"
  shows "call_inv (sys\<lparr>sy_store := commit_store request (sy_store sys), sy_held := sy_held sys @ [s']\<rparr>)"
proof (rule inv_write [OF inv h, where r' = s'])
  fix l
  assume "gm_get (st_leases (sy_store (sys\<lparr>sy_store := commit_store request (sy_store sys),
    sy_held := sy_held sys @ [s']\<rparr>))) (cs_callID h) = Some l"
  then have "gm_get (st_leases (commit_store request (sy_store sys))) (cs_callID (cm_Snapshot request)) = Some l"
    using request s'(3) by simp
  note l = commit_store_lease [OF this]
  have "last_grant (sy_grants sys) (cs_callID h) = Some (lr_fence l, lr_owner l)" if owner: "lr_owner l \<noteq> []"
  proof -
    obtain l0 where l0: "gm_get (st_leases (sy_store sys)) (cs_callID h) = Some l0" "lr_owner l0 = lr_owner l"
      using l(4) [OF owner] request s'(3) by auto
    then have "lease_ok sys (cs_callID h) l0" using inv by (simp add: call_inv_def)
    then show ?thesis using l0(2) owner h s'(4) l(3) request by (simp add: lease_ok_def)
  qed
  with l request show "lr_revision l = cs_revision s' \<and> lr_fence l = cs_fence s' \<and> \<not> Status_Terminal (cs_status s') \<and>
      (lr_owner l \<noteq> [] \<longrightarrow> last_grant (sy_grants (sys\<lparr>sy_store := commit_store request (sy_store sys),
        sy_held := sy_held sys @ [s']\<rparr>)) (cs_callID h) = Some (lr_fence l, lr_owner l))"
    by (simp add: Status_Terminal_def)
qed (use s' request in \<open>simp_all add: commit_store_fields\<close>)

lemma Transition_Err:
  "call_Transition ctx now request st = (Err e, st') \<Longrightarrow> st' = st"
  by (auto simp: call_Transition_def guarded_def Let_def split: option.splits if_splits)

lemma commit_inv:
  assumes inv: "call_inv sys"
  shows "call_inv (call_step sha sys (ctx, OpCommit now i tr owner clock retention))"
proof -
  let ?h = "sy_held sys ! i" and ?request = "commitRequest owner clock retention (sy_held sys ! i)"
  have "call_inv (returns (call_Transition ctx now (?request s') (sy_store sys)) sys)"
    if i: "i < length (sy_held sys)" and ap: "Apply sha ?h tr = Ok s'" for s'
  proof (cases "call_Transition ctx now (?request s') (sy_store sys)")
    case res: (Pair res st')
    show ?thesis
    proof (cases res)
      case (Inl e)
      with res Transition_Err [OF res [unfolded Inl]] inv show ?thesis by simp
    next
      case (Inr s)
      note ok = res [unfolded Inr]
      note cur = commit_current [OF inv nth_mem [OF i] ap ok]
      have "call_inv (sys\<lparr>sy_store := commit_store (?request s') (sy_store sys), sy_held := sy_held sys @ [s']\<rparr>)"
        using Apply_laws(1,2) [OF ap] cur by (intro commit_write [OF inv cur(1)]) (simp_all add: commitRequest_def)
      with ok Transition_Ok(2) [OF ok] cur(2) show ?thesis by simp
    qed
  qed
  with inv show ?thesis by (simp split: sum.split)
qed

lemma inv_write_unleased:
  assumes "call_inv sys" and "gm_get (st_records (sy_store sys)) key = Some r" and "snapshot_ok r'" and "grows r r'"
  shows "call_inv (sys\<lparr>sy_store := (sy_store sys)\<lparr>st_records := gm_put key r' (st_records (sy_store sys)),
      st_expires := ex, st_leases := gm_del key (st_leases (sy_store sys))\<rparr>, sy_held := sy_held sys @ [r']\<rparr>)"
  by (rule inv_write [OF assms(1,2), where r' = r']) (simp_all add: assms(3,4) gm_get_del)

lemma command_inv:
  assumes inv: "call_inv sys"
  shows "call_inv (returns (store_command sha ctx request tr (sy_store sys)) sys)"
proof -
  have "call_inv (sys\<lparr>sy_store := (sy_store sys)\<lparr>st_records := gm_put (cd_CallID request) r' (st_records (sy_store sys)),
      st_leases := gm_del (cd_CallID request) (st_leases (sy_store sys))\<rparr>, sy_held := sy_held sys @ [r']\<rparr>)"
    if "gm_get (st_records (sy_store sys)) (cd_CallID request) = Some r" and "Apply sha r tr = Ok r'" for r r'
    using inv_write_unleased [OF inv that(1) Apply_laws(1,2) [OF that(2)], of "st_expires (sy_store sys)"] by simp
  then show ?thesis
    unfolding store_command_def Let_def
    by (intro guarded_returns [OF inv]) (auto simp: inv intro: inv_load [OF inv] split: option.split sum.split)
qed

lemma signal_inv: "call_inv sys \<Longrightarrow> call_inv (call_step sha sys (ctx, OpSignal request))"
  by (auto simp: SubmitSignal_def intro: command_inv split: sum.split)

lemma call_cancel_inv: "call_inv sys \<Longrightarrow> call_inv (call_step sha sys (ctx, OpCancel request))"
  by (auto simp: RequestCancel_def intro: command_inv split: sum.split)

lemma claim_inv:
  assumes inv: "call_inv sys"
  shows "call_inv (call_step sha sys (ctx, OpClaim now request))"
proof -
  let ?st = "sy_store sys" and ?key = "cq_CallID request" and ?owner = "cq_OwnerID request"
  have none: "grant_new ?key ?owner sys sys' = sys'" if "st_records (sy_store sys') = st_records ?st" for sys'
    using that by (simp add: grant_new_def split: option.splits)
  have claim: "call_inv (grant_new ?key ?owner sys (returns (lease_result (claim_new sha now request r ?st)) sys))"
    if r: "gm_get (st_records ?st) ?key = Some r" for r
  proof (cases "begin_execution sha now r")
    case (Inl e)
    then show ?thesis using inv by (simp add: claim_new_def Let_def none)
  next
    case (Inr r')
    let ?l = "\<lparr>lr_owner = ?owner, lr_deadline = time_Add now (cq_LeaseDuration request), lr_revision = cs_revision r',
      lr_fence = cs_fence r', lr_previousRevision = cs_revision r\<rparr>"
    have "call_inv (sys\<lparr>sy_store := ?st\<lparr>st_records := gm_put ?key r' (st_records ?st),
        st_leases := gm_put ?key ?l (st_leases ?st)\<rparr>, sy_held := sy_held sys @ [r'],
        sy_grants := sy_grants sys @ [(?key, cs_fence r', ?owner)]\<rparr>)"
      using begin_execution_Ok [OF Inr]
      by (intro inv_write [OF inv r, where r' = r' and owner = ?owner]) (auto simp: gm_get_put last_grant_append)
    then show ?thesis using inv Inr r begin_execution_Ok(3) [OF Inr]
      by (cases "cs_revision r = cq_ExpectedRevision request")
        (simp_all add: claim_new_def Let_def none, simp_all add: grant_new_def gm_get_put)
  qed
  have same: "call_inv (grant_new ?key ?owner sys (sys\<lparr>sy_held := sy_held sys @ [r]\<rparr>))"
    if "gm_get (st_records ?st) ?key = Some r" for r
    using inv_load [OF inv that] by (simp add: none)
  show ?thesis
    using inv claim same
    by (auto simp: Claim_def lease_result_guarded guarded_def none Let_def split: option.splits)
qed

lemma renew_inv:
  assumes inv: "call_inv sys"
  shows "call_inv (call_step sha sys (ctx, OpRenew now request))"
proof -
  let ?st = "sy_store sys" and ?key = "lq_CallID request"
  have "call_inv (sys\<lparr>sy_store := ?st\<lparr>st_leases := gm_put ?key (l\<lparr>lr_deadline := d\<rparr>) (st_leases ?st)\<rparr>,
      sy_held := sy_held sys @ [r]\<rparr>)"
    if "gm_get (st_records ?st) ?key = Some r" and "gm_get (st_leases ?st) ?key = Some l" for r l d
    by (rule inv_quiet [OF inv, where xs = "[r]"]) (use that in \<open>auto simp: gm_get_put split: if_splits\<close>)
  then show ?thesis
    using inv by (auto simp: Renew_def lease_result_guarded guarded_def Let_def split: option.splits)
qed

lemma call_release_inv:
  assumes inv: "call_inv sys"
  shows "call_inv (call_step sha sys (ctx, OpRelease request))"
  using inv inv_drop_lease [OF inv]
  by (auto simp: Release_def guarded_def Let_def split: option.splits)

lemma prune_inv:
  assumes inv: "call_inv sys"
  shows "call_inv (call_step sha sys (ctx, OpPrune key fl))"
proof -
  let ?st = "sy_store sys"
  have "call_inv (sys\<lparr>sy_store := ?st\<lparr>st_records := gm_put key r' (st_records ?st)\<rparr>, sy_held := sy_held sys @ [r']\<rparr>)"
    if r: "gm_get (st_records ?st) key = Some r" and t: "Status_Terminal (cs_status r)"
      and p: "PruneSnapshot r fl = Ok r'" for r r'
  proof (rule inv_write [OF inv r, where r' = r'])
    fix l
    assume "gm_get (st_leases (sy_store (sys\<lparr>sy_store := ?st\<lparr>st_records := gm_put key r' (st_records ?st)\<rparr>,
      sy_held := sy_held sys @ [r']\<rparr>))) key = Some l"
    then have "lease_ok sys key l" using inv by (simp add: call_inv_def)
    with r t have False by (simp add: lease_ok_def)
    then show "lr_revision l = cs_revision r' \<and> lr_fence l = cs_fence r' \<and> \<not> Status_Terminal (cs_status r') \<and>
      (lr_owner l \<noteq> [] \<longrightarrow> last_grant (sy_grants (sys\<lparr>sy_store := ?st\<lparr>st_records := gm_put key r' (st_records ?st)\<rparr>,
        sy_held := sy_held sys @ [r']\<rparr>)) key = Some (lr_fence l, lr_owner l))" ..
  qed (use PruneSnapshot_laws(1,2) [OF p t] in simp_all)
  then show ?thesis
    using inv by (auto simp: PruneFrames_def intro!: guarded_returns split: option.splits sum.splits)
qed

lemma expire_inv:
  assumes inv: "call_inv sys"
  shows "call_inv (call_step sha sys (ctx, OpExpire key expected expiresAt))"
proof -
  let ?st = "sy_store sys"
  have "call_inv (sys\<lparr>sy_store := ?st\<lparr>st_records := gm_put key r' (st_records ?st),
      st_expires := gm_put key expiresAt (st_expires ?st), st_leases := gm_del key (st_leases ?st)\<rparr>,
      sy_held := sy_held sys @ [r']\<rparr>)"
    if "gm_get (st_records ?st) key = Some r" and "Apply sha r tr = Ok r'" for r r' tr
    using inv_write_unleased [OF inv that(1) Apply_laws(1,2) [OF that(2)]] .
  then show ?thesis
    using inv by (auto simp: call_Expire_def intro!: guarded_returns intro: inv_load split: option.splits sum.splits)
qed

lemma delete_inv:
  assumes inv: "call_inv sys"
  shows "call_inv (call_step sha sys (ctx, OpDelete before limit))"
proof -
  have "call_inv (sys\<lparr>sy_store := fold delete_call keys (sy_store sys)\<rparr>)" for keys
    using inv
  proof (induction keys arbitrary: sys)
    case (Cons k keys)
    from Cons.IH [OF inv_delete [OF Cons.prems, of k]] show ?case by simp
  qed simp
  then show ?thesis using inv by (auto simp: DeleteExpired_def guarded_def Let_def split: option.splits)
qed

lemma call_step_inv:
  assumes "call_inv sys" and "call_guard sys op"
  shows "call_inv (call_step sha sys op)"
proof (cases op)
  case (Pair ctx op')
  with assms show ?thesis
    by (cases op') (simp_all only: create_inv load_inv call_acquire_inv commit_inv signal_inv call_cancel_inv claim_inv
        renew_inv call_release_inv prune_inv expire_inv delete_inv)
qed

interpretation call_sys: guarded_machine "call_step sha" call_guard call_inv for sha
  by unfold_locales (rule call_step_inv)

section \<open>Consequences\<close>

lemma returns_held: "set (sy_held sys) \<subseteq> set (sy_held (returns result sys))"
  by (auto simp: returns_def split: prod.splits sum.splits)

lemma grant_new_held [simp]: "sy_held (grant_new key owner sys sys') = sy_held sys'"
  by (simp add: grant_new_def split: option.splits)

lemma step_held: "set (sy_held sys) \<subseteq> set (sy_held (call_step sha sys op))"
proof (cases op)
  case (Pair ctx op')
  then show ?thesis
    using returns_held by (cases op') (auto split: sum.splits dest: subsetD)
qed

lemma run_held: "set (sy_held sys) \<subseteq> set (sy_held (run (call_step sha) sys ops))"
proof (induction ops arbitrary: sys)
  case (Cons op ops)
  then show ?case using step_held [of sys sha op] by fastforce
qed simp

lemma history_inv: "run_ok (call_step sha) call_guard call_init ops \<Longrightarrow> call_inv (run (call_step sha) call_init ops)"
  by (rule call_sys.run_inv [OF call_init_inv])

lemma inv_record:
  assumes "call_inv sys" and "gm_get (st_records (sy_store sys)) k = Some r"
  shows "cs_callID r = k" and "snapshot_ok r" and "r \<in> set (sy_held sys)"
  using assms by (auto simp: call_inv_def record_ok_def)

lemma inv_held:
  assumes "call_inv sys" and "h \<in> set (sy_held sys)" and "gm_get (st_records (sy_store sys)) (cs_callID h) = Some r"
  shows "grows h r"
  using assms by (simp add: call_inv_def held_ok_def)


lemma last_grant_mem: "last_grant gs k = Some (f, o') \<Longrightarrow> (k, f, o') \<in> set gs"
  by (auto simp: last_grant_def dest!: find_SomeD)

lemma last_grant_greatest:
  assumes "sorted_wrt (\<lambda>(k, f, o') (k', f', o''). k = k' \<longrightarrow> f < f') gs" and "last_grant gs k = Some (f, o')"
    and "(k, f', o'') \<in> set gs"
  shows "(f', o'') = (f, o') \<or> f' < (f :: u64)"
  using assms
proof (induction gs rule: rev_induct)
  case (snoc g gs)
  obtain kg fg og where g: "g = (kg, fg, og)" by (cases g)
  show ?case
  proof (cases "kg = k")
    case True
    then have "(f, o') = (fg, og)" using snoc.prems(2) g by (simp add: last_grant_append)
    moreover have "f' < fg" if "(k, f', o'') \<in> set gs"
      using snoc.prems(1) that True by (auto simp: sorted_wrt_append g)
    ultimately show ?thesis using snoc.prems(3) g by auto
  next
    case False
    then show ?thesis using snoc g by (auto simp: last_grant_append sorted_wrt_append)
  qed
qed (simp add: last_grant_def)

text \<open>
  C6. Only the latest owner commits, and on the latest state. When an executor that names itself as
  lease owner has a commit accepted, the snapshot it worked on is the one in the store, its lease
  has not expired, and its grant is the latest one of the call: every other grant ever given for
  the call has a smaller fence.
\<close>

theorem commit_by_latest_owner:
  assumes "run_ok (call_step sha) call_guard call_init ops" and "sys = run (call_step sha) call_init ops"
    and "h \<in> set (sy_held sys)" and "owner \<noteq> []" and "Apply sha h tr = Ok s'"
    and "call_Transition ctx now (commitRequest owner clock retention h s') (sy_store sys) = (Ok s, st)"
  shows "gm_get (st_records (sy_store sys)) (cs_callID h) = Some h \<and>
    gm_get (st_records st) (cs_callID h) = Some s' \<and>
    leaseActive (sy_store sys) (cs_callID h) now \<and> (cs_callID h, cs_fence h, owner) \<in> set (sy_grants sys) \<and>
    (\<forall>f o'. (cs_callID h, f, o') \<in> set (sy_grants sys) \<longrightarrow> (f, o') = (cs_fence h, owner) \<or> f < cs_fence h)"
proof -
  have inv: "call_inv sys" using history_inv [OF assms(1)] assms(2) by simp
  note cur = commit_current [OF inv assms(3,5,6)]
  have lease: "leaseActive (sy_store sys) (cs_callID h) now"
    "lease_matches (sy_store sys) (cs_callID h) owner (cs_revision h) (cs_fence h)"
    using Transition_Ok(4) [OF assms(6)] cur(2,3) assms(4) by (auto simp: commitRequest_def)
  then obtain l where l: "gm_get (st_leases (sy_store sys)) (cs_callID h) = Some l" "lr_owner l = owner" "lr_fence l = cs_fence h"
    by (auto simp: lease_matches_def split: option.splits)
  then have "lease_ok sys (cs_callID h) l" using inv by (simp add: call_inv_def)
  then have grant: "last_grant (sy_grants sys) (cs_callID h) = Some (cs_fence h, owner)"
    using l assms(4) by (auto simp: lease_ok_def)
  have "gm_get (st_records st) (cs_callID h) = Some s'"
    using Transition_Ok(2) [OF assms(6)] cur(3) by (simp add: commit_store_fields commitRequest_def gm_get_put)
  moreover have "sorted_wrt (\<lambda>(k, f, o') (k', f', o''). k = k' \<longrightarrow> f < f') (sy_grants sys)"
    using inv by (simp add: call_inv_def)
  ultimately show ?thesis
    using cur(1) lease(1) last_grant_mem [OF grant] last_grant_greatest [OF _ grant] by auto
qed

text \<open>Repeating a command that a snapshot remembers.\<close>

lemma Apply_repeated:
  assumes "snapshot_ok r" and "gm_get (cs_commands r) (tr_commandID tr) = Some c"
    and "tr_command tr \<noteq> commandNone" and "Status_valid (tr_status tr)" and "tr_workflow tr = None" and "tr_readyAt tr = 0"
    and "\<not> tr_timer tr"
  shows "Apply sha r tr = (if c = command_record sha tr then Ok r
    else Err (stateError ErrCommandConflict (cs_status r) (tr_status tr)))"
proof -
  have "call_validIdentity (tr_commandID tr)"
    using assms(1) map_of_SomeD [OF assms(2)] by (auto simp: snapshot_ok_def)
  with assms show ?thesis
    by (simp add: Apply_def Let_def validateSnapshot_ok [THEN iffD2, OF assms(1)] time_IsZero_def)
qed

lemma store_command_Ok:
  assumes "store_command sha ctx request tr st = (Ok s, st')" and "tr_command tr \<noteq> commandNone"
  shows "gm_get (cs_commands s) (tr_commandID tr) = Some (command_record sha tr)" and "cd_CallID request \<noteq> []"
    and "\<exists>r. gm_get (st_records st) (cd_CallID request) = Some r \<and> cs_callID s = cs_callID r"
proof -
  obtain r next' where r: "gm_get (st_records st) (cd_CallID request) = Some r" and ap: "Apply sha r tr = Ok next'"
      and s: "cs_revision next' = cs_revision r \<and> s = r \<or> s = next'"
    and key: "cd_CallID request \<noteq> []"
    using assms(1) by (auto simp: store_command_def guarded_def Let_def split: option.splits sum.splits if_splits)
  show "cd_CallID request \<noteq> []" using key .
  have s: "s = next'" using s Apply_laws(3) [OF ap] by auto
  show "gm_get (cs_commands s) (tr_commandID tr) = Some (command_record sha tr)"
    using Apply_Ok(5) [OF ap] assms(2) s by (auto simp: deduplicates_def advances_def gm_get_put)
  show "\<exists>r. gm_get (st_records st) (cd_CallID request) = Some r \<and> cs_callID s = cs_callID r"
    using r s grows_callID [OF Apply_laws(2) [OF ap]] by blast
qed

definition signal_frame :: "string \<Rightarrow> Frame" where
  "signal_frame payload = \<lparr>fr_sequence = 0, fr_kind = FrameSignal, fr_payload = payload\<rparr>"

lemma SubmitSignal_eq:
  "SubmitSignal sha ctx request st = (if length (cd_Payload request) > maxPayloadBytes then (Err ErrInvalidFrame, st)
     else store_command sha ctx request (Signal (cd_CommandID request) [signal_frame (cd_Payload request)]) st)"
  by (simp add: SubmitSignal_def NewFrame_def FrameKind_valid_def signal_frame_def)

lemma repeated_signal:
  assumes "snapshot_ok r" and "gm_get (st_records st) (cd_CallID request) = Some r"
    and "gm_get (cs_commands r) (cd_CommandID request) = Some (command_record sha (Signal (cd_CommandID request) [signal_frame p]))"
    and "length (cd_Payload request) \<le> maxPayloadBytes" and "cd_CallID request \<noteq> []" and "cd_ExpectedRevision request \<noteq> 0"
    and "ctx = Some x" and "ctx_cause x = None"
  shows "SubmitSignal sha ctx request st =
    (if sha (digest_input [signal_frame (cd_Payload request)]) = sha (digest_input [signal_frame p]) then (Ok r, st)
     else (Err (stateError ErrCommandConflict (cs_status r) StatusAccepted), st))"
proof -
  let ?tr = "Signal (cd_CommandID request) [signal_frame (cd_Payload request)]"
  have "Apply sha r ?tr = (if sha (digest_input [signal_frame (cd_Payload request)]) = sha (digest_input [signal_frame p])
      then Ok r else Err (stateError ErrCommandConflict (cs_status r) StatusAccepted))"
    using assms(3) by (subst Apply_repeated [OF assms(1)])
      (auto simp: Signal_def Status_valid_def command_record_def commandDigest_def)
  then show ?thesis
    using assms(2,4-) by (simp add: SubmitSignal_eq store_command_def guarded_def)
qed

text \<open>
  C7. Signals are idempotent. After a signal has been accepted, sending it again at any later time,
  with whatever expected revision and also when the call has ended, returns the stored snapshot and
  changes nothing; the same command identity with another payload is refused as a conflict. The
  hypothesis on \<open>sha\<close> says that the two digests do not collide.
\<close>

theorem signal_idempotent:
  assumes "run_ok (call_step sha) call_guard call_init (ops @ (ctx, OpSignal request) # later)"
    and "SubmitSignal sha ctx request (sy_store (run (call_step sha) call_init ops)) = (Ok s, st)"
    and "sys = run (call_step sha) call_init (ops @ (ctx, OpSignal request) # later)"
    and "gm_get (st_records (sy_store sys)) (cd_CallID request) = Some r"
    and "request' = request\<lparr>cd_ExpectedRevision := expected, cd_Payload := payload\<rparr>" and "expected \<noteq> 0"
    and "length payload \<le> maxPayloadBytes" and "ctx_cause x = None"
    and "sha (digest_input [signal_frame payload]) = sha (digest_input [signal_frame (cd_Payload request)]) \<longrightarrow>
      digest_input [signal_frame payload] = digest_input [signal_frame (cd_Payload request)]"
  shows "SubmitSignal sha (Some x) request' (sy_store sys) =
    (if payload = cd_Payload request then (Ok r, sy_store sys)
     else (Err (stateError ErrCommandConflict (cs_status r) StatusAccepted), sy_store sys))"
proof -
  let ?sys = "run (call_step sha) call_init ops" and ?p = "cd_Payload request" and ?id = "cd_CommandID request"
  let ?next = "call_step sha ?sys (ctx, OpSignal request)"
  have inv: "call_inv sys" and inv0: "call_inv ?sys" using assms(1,3) history_inv by (auto simp: run_ok_append)
  have size: "length ?p \<le> maxPayloadBytes" using assms(2) by (auto simp: SubmitSignal_eq split: if_splits)
  then have cmd: "store_command sha ctx request (Signal ?id [signal_frame ?p]) (sy_store ?sys) = (Ok s, st)"
    using assms(2) by (simp add: SubmitSignal_eq)
  note sent = store_command_Ok [OF cmd]
  have key: "cs_callID s = cd_CallID request" using sent(3) inv_record(1) [OF inv0] by (auto simp: Signal_def)
  have "s \<in> set (sy_held ?next)" using assms(2) by simp
  then have "s \<in> set (sy_held sys)"
    using run_held [of ?next sha later] assms(3) by (auto simp: run_append simp del: call_step.simps)
  then have "grows s r" using inv_held [OF inv] assms(4) key by simp
  moreover have "gm_get (cs_commands s) ?id = Some (command_record sha (Signal ?id [signal_frame ?p]))"
    using sent(1) by (simp add: Signal_def)
  ultimately have "gm_get (cs_commands r) ?id = Some (command_record sha (Signal ?id [signal_frame ?p]))"
    by (simp add: grows_def)
  moreover have "payload = ?p \<longleftrightarrow> sha (digest_input [signal_frame payload]) = sha (digest_input [signal_frame ?p])"
    using assms(9) by (auto simp: digest_input_def writeDigestPart_def signal_frame_def)
  ultimately show ?thesis
    using repeated_signal [OF inv_record(2) [OF inv assms(4)], of "sy_store sys" request' sha ?p "Some x" x]
      assms(4-8) sent(2) by (simp add: Signal_def)
qed

text \<open>A ready call can begin execution.\<close>

lemma begin_execution_iff:
  assumes "snapshot_ok r" and "cs_revision r \<noteq> - 1" and "cs_fence r \<noteq> - 1"
  shows "(\<exists>r'. begin_execution sha now r = Ok r' \<and> cs_fence r' = cs_fence r + 1) \<longleftrightarrow> call_ready (cs_status r) \<and> TimerDue r now"
    and "(\<exists>r'. begin_execution sha now r = Ok r') \<longleftrightarrow> call_ready (cs_status r) \<and> TimerDue r now"
proof -
  let ?target = "if cs_status r = StatusCancelRequested then StatusCancelRequested else StatusRunning"
  have "\<exists>r'. begin_execution sha now r = Ok r' \<and> cs_fence r' = cs_fence r + 1"
    if ready: "call_ready (cs_status r)" and "TimerDue r now"
  proof -
    have fence: "cs_fence r + 1 \<noteq> 0" "cs_fence r < cs_fence r + 1"
      using assms(3) u64_less_Suc by (simp_all add: eq_neg_iff_add_eq_0 [symmetric])
    have "allowedTransition (cs_status r) ?target commandNone" "\<not> Status_Terminal (cs_status r)" "Status_valid ?target"
      using ready by (auto simp: call_ready_def allowedTransition_def Status_Terminal_def Status_valid_def)
    then have "\<exists>r'. Apply sha r (Move ?target (cs_fence r + 1) []) = Ok r' \<and> cs_fence r' = cs_fence r + 1"
      using assms fence validateSnapshot_ok [THEN iffD2, OF assms(1)]
      by (simp add: Apply_def apply_new_def Move_def time_IsZero_def Let_def not_less order.strict_implies_order)
    with that assms(3) show ?thesis by (simp add: begin_execution_def TimerNotReady_def Let_def)
  qed
  then show "(\<exists>r'. begin_execution sha now r = Ok r' \<and> cs_fence r' = cs_fence r + 1) \<longleftrightarrow> call_ready (cs_status r) \<and> TimerDue r now"
    and "(\<exists>r'. begin_execution sha now r = Ok r') \<longleftrightarrow> call_ready (cs_status r) \<and> TimerDue r now"
    by (auto simp: begin_execution_def TimerNotReady_def split: if_splits)
qed

lemma ready_keys_mem:
  assumes "gm_wf (st_records st)" and "gm_get (st_records st) k = Some r"
  shows "k \<in> set (ready_keys now st) \<longleftrightarrow> call_ready (cs_status r) \<and> TimerDue r now \<and> \<not> leaseActive st k now"
proof -
  have "(k, r') \<in> set (st_records st) \<longleftrightarrow> r' = r" for r' using gm_mem_get [OF assms(1)] assms(2) by auto
  then show ?thesis by (force simp: ready_keys_def)
qed

lemma Claim_fresh:
  assumes "gm_get (st_records st) (cq_CallID request) = Some r" and "ClaimRequest_Validate request = None"
    and "cq_ExpectedRevision request = cs_revision r" and "ctx_cause x = None"
    and "\<And>l. gm_get (st_leases st) (cq_CallID request) = Some l \<Longrightarrow> lr_owner l \<noteq> cq_OwnerID request"
  shows "fst (Claim sha (Some x) now request st) = (if leaseActive st (cq_CallID request) now then Err ErrLeaseHeld
    else case begin_execution sha now r of Err e \<Rightarrow> Err e
      | Ok r' \<Rightarrow> Ok \<lparr>ls_Snapshot = r', ls_OwnerID = cq_OwnerID request, ls_Deadline = time_Add now (cq_LeaseDuration request)\<rparr>)"
  using assms by (auto simp: Claim_def guarded_def claim_new_def leaseActive_def Let_def split: option.splits sum.splits)

text \<open>
  C8. Listing and claiming agree. In every history, a call returned by \<open>ListReady\<close> can at that
  instant be claimed at its listed revision by any executor that does not already hold it, and the
  claim gets the next fence; when the limit does not cut the list, no other call can be claimed.
\<close>

theorem ready_calls_claimable:
  assumes "run_ok (call_step sha) call_guard call_init ops" and "st = sy_store (run (call_step sha) call_init ops)"
    and "gm_get (st_records st) (cq_CallID request) = Some r" and "cs_revision r \<noteq> - 1" and "cs_fence r \<noteq> - 1"
    and "ClaimRequest_Validate request = None" and "cq_ExpectedRevision request = cs_revision r" and "ctx_cause x = None"
    and "\<forall>l. gm_get (st_leases st) (cq_CallID request) = Some l \<longrightarrow> lr_owner l \<noteq> cq_OwnerID request"
    and "fst (ListReady (Some x) now limit st) = Ok rs"
  shows "(r \<in> set rs \<longrightarrow> (\<exists>lease. fst (Claim sha (Some x) now request st) = Ok lease \<and>
      cs_fence (ls_Snapshot lease) = cs_fence r + 1)) \<and>
    (length (ready_keys now st) \<le> nat limit \<longrightarrow> (\<exists>lease. fst (Claim sha (Some x) now request st) = Ok lease) \<longrightarrow> r \<in> set rs)"
proof -
  let ?key = "cq_CallID request"
  have inv: "call_inv (run (call_step sha) call_init ops)" using history_inv [OF assms(1)] .
  then have wf: "gm_wf (st_records st)" by (simp add: call_inv_def assms(2))
  have rec: "record_ok (run (call_step sha) call_init ops) k q" if "gm_get (st_records st) k = Some q" for k q
    using that inv by (simp add: call_inv_def assms(2))
  have rs: "rs = map (\<lambda>key. the (gm_get (st_records st) key)) (take (nat limit) (ready_keys now st))"
    using assms(8,10) by (auto simp: ListReady_def guarded_def split: if_splits)
  have listed: "k \<in> set (ready_keys now st) \<Longrightarrow> \<exists>q. gm_get (st_records st) k = Some q" for k
    using wf by (auto simp: ready_keys_def gm_mem_get)
  have mem: "?key \<in> set (ready_keys now st)" if "r \<in> set rs"
  proof -
    obtain k where k: "k \<in> set (ready_keys now st)" "the (gm_get (st_records st) k) = r"
      using \<open>r \<in> set rs\<close> by (auto simp: rs dest: in_set_takeD)
    then have "cs_callID r = k" using listed rec by (auto simp: record_ok_def)
    moreover have "cs_callID r = ?key" using rec [OF assms(3)] by (simp add: record_ok_def)
    ultimately show ?thesis using k by simp
  qed
  have ok: "snapshot_ok r" using rec [OF assms(3)] by (simp add: record_ok_def)
  note ready = ready_keys_mem [OF wf assms(3), of now] and starts = begin_execution_iff [OF ok assms(4,5), of sha now]
    and claim = Claim_fresh [OF assms(3,6,7,8) assms(9) [rule_format], of sha now]
  show ?thesis
  proof (intro conjI impI)
    assume "r \<in> set rs"
    then show "\<exists>lease. fst (Claim sha (Some x) now request st) = Ok lease \<and> cs_fence (ls_Snapshot lease) = cs_fence r + 1"
      using mem ready starts(1) claim by auto
  next
    assume "length (ready_keys now st) \<le> nat limit" and "\<exists>lease. fst (Claim sha (Some x) now request st) = Ok lease"
    then have "?key \<in> set (take (nat limit) (ready_keys now st))"
      using ready starts(2) claim by (auto split: if_splits sum.splits)
    then show "r \<in> set rs" using assms(3) by (force simp: rs)
  qed
qed

section \<open>Witnesses\<close>

definition call_demo :: "Status \<Rightarrow> u64 \<Rightarrow> u64 \<Rightarrow> CallSnapshot" where
  "call_demo status revision fence = \<lparr>cs_callID = ''c'', cs_operation = ''/s/m'', cs_status = status, cs_readyAt = 0,
     cs_revision = revision, cs_fence = fence, cs_sequence = 0, cs_frameFloor = 1, cs_frames = [],
     cs_commands = [], cs_workflow = None\<rparr>"

definition call_demo_claim :: ClaimRequest where
  "call_demo_claim = \<lparr>cq_CallID = ''c'', cq_ExpectedRevision = 1, cq_OwnerID = ''e'', cq_LeaseDuration = 60\<rparr>"

definition call_demo_sha :: "string \<Rightarrow> string" where
  "call_demo_sha v = v"

lemma validLeaseOwner_identity: "validLeaseOwner owner \<longleftrightarrow> validIdentity owner maxLeaseOwnerBytes"
  by (auto simp: validLeaseOwner_def validIdentity_def)

lemma call_demo_names: "call_validIdentity ''c''" "call_validOperation ''/s/m''" "validLeaseOwner ''e''"
  "call_validIdentity ''i''"
  by (simp_all add: call_validOperation_def call_validIdentity_def HasPrefix_def ascii_eval validLeaseOwner_identity
      maxLeaseOwnerBytes_def)

lemma call_demo_valid:
  "validateSnapshot (call_demo StatusAccepted 1 0) = None" "validateSnapshot (call_demo StatusRunning 2 1) = None"
  "validateSnapshot (call_demo StatusWaiting 3 1) = None"
  by (simp_all add: validateSnapshot_def call_demo_def call_demo_names Status_valid_def validateWorkflowState_def
      time_IsZero_def valid_initial_def)

lemma call_demo_apply:
  "Apply sha (call_demo StatusAccepted 1 0) (Move StatusRunning 1 []) = Ok (call_demo StatusRunning 2 1)"
  "Apply sha (call_demo StatusRunning 2 1) (Move StatusWaiting 1 []) = Ok (call_demo StatusWaiting 3 1)"
  unfolding Apply_def call_demo_valid
  by (simp_all add: apply_new_def Move_def Status_valid_def time_IsZero_def Let_def call_demo_def Status_Terminal_def
      allowedTransition_def)

definition call_demo_ops :: "(Context option \<times> call_op) list" where
  "call_demo_ops = [(Some Background, OpCreate (call_demo StatusAccepted 1 0)), (Some Background, OpClaim 10 call_demo_claim)]"

definition call_demo_lease :: leaseRecord where
  "call_demo_lease = \<lparr>lr_owner = ''e'', lr_deadline = 70, lr_revision = 2, lr_fence = 1, lr_previousRevision = 1\<rparr>"

definition call_demo_system :: CallSystem where
  "call_demo_system = \<lparr>sy_store = \<lparr>st_records = [(''c'', call_demo StatusRunning 2 1)],
     st_leases = [(''c'', call_demo_lease)], st_expires = []\<rparr>,
     sy_held = [call_demo StatusAccepted 1 0, call_demo StatusRunning 2 1], sy_grants = [(''c'', 1, ''e'')]\<rparr>"

lemma call_demo_fields:
  "cs_callID (call_demo st rv f) = ''c''" "cs_status (call_demo st rv f) = st" "cs_revision (call_demo st rv f) = rv"
  "cs_fence (call_demo st rv f) = f" "cs_readyAt (call_demo st rv f) = 0" "cs_commands (call_demo st rv f) = []"
  "cs_sequence (call_demo st rv f) = 0" "cs_frames (call_demo st rv f) = []" "cs_operation (call_demo st rv f) = ''/s/m''"
  by (simp_all add: call_demo_def)

lemma call_demo_created:
  "call_step sha call_init (Some Background, OpCreate (call_demo StatusAccepted 1 0)) =
     \<lparr>sy_store = \<lparr>st_records = [(''c'', call_demo StatusAccepted 1 0)], st_leases = [], st_expires = []\<rparr>,
      sy_held = [call_demo StatusAccepted 1 0], sy_grants = []\<rparr>"
  by (simp add: call_init_def NewWithClock_def call_Create_def guarded_def Background_def call_initialSnapshot_def
      call_demo_fields)

lemma call_demo_run: "run (call_step sha) call_init call_demo_ops = call_demo_system"
  "run_ok (call_step sha) call_guard call_init call_demo_ops"
proof -
  have "begin_execution sha 10 (call_demo StatusAccepted 1 0) = Ok (call_demo StatusRunning 2 1)"
    using call_demo_apply(1) by (simp add: begin_execution_def call_ready_def TimerNotReady_def TimerDue_def
        time_IsZero_def call_demo_fields Let_def)
  then have "call_step sha (call_step sha call_init (Some Background, OpCreate (call_demo StatusAccepted 1 0)))
      (Some Background, OpClaim 10 call_demo_claim) = call_demo_system"
    unfolding call_demo_created
    by (simp add: Claim_def guarded_def Background_def ClaimRequest_Validate_def call_demo_claim_def call_demo_names
        maxLeaseDuration_def duration_defs claim_new_def call_demo_fields Let_def time_Add_def grant_new_def
        call_demo_system_def call_demo_lease_def)
  then show "run (call_step sha) call_init call_demo_ops = call_demo_system"
    and "run_ok (call_step sha) call_guard call_init call_demo_ops"
    by (simp_all add: call_demo_ops_def call_demo_valid del: call_step.simps) (simp_all add: call_init_def)
qed


lemma call_demo_commit:
  "call_Transition (Some Background) 20 (commitRequest ''e'' 20 0 (call_demo StatusRunning 2 1) (call_demo StatusWaiting 3 1))
     (sy_store call_demo_system) = (Ok (call_demo StatusWaiting 3 1),
     \<lparr>st_records = [(''c'', call_demo StatusWaiting 3 1)], st_leases = [], st_expires = []\<rparr>)"
  by (simp add: call_Transition_def guarded_def Background_def commitRequest_def Status_Terminal_def call_demo_fields
      time_IsZero_def call_demo_system_def lease_matches_def leaseActive_def call_demo_lease_def validSuccessor_def
      commit_store_def Let_def time_After_def)

theorem commit_by_latest_owner_witness:
  "gm_get (st_records (sy_store call_demo_system)) ''c'' = Some (call_demo StatusRunning 2 1) \<and>
   leaseActive (sy_store call_demo_system) ''c'' 20 \<and> (''c'', 1, ''e'') \<in> set (sy_grants call_demo_system)"
  using commit_by_latest_owner [of call_demo_sha, OF call_demo_run(2) call_demo_run(1) [symmetric] _ _ call_demo_apply(2) call_demo_commit]
  by (simp add: call_demo_system_def call_demo_fields)

theorem ready_calls_claimable_witness:
  "\<exists>lease. fst (Claim call_demo_sha (Some Background) 10 call_demo_claim
       (sy_store (run (call_step call_demo_sha) call_init [(Some Background, OpCreate (call_demo StatusAccepted 1 0))]))) = Ok lease \<and>
     cs_fence (ls_Snapshot lease) = 1"
proof -
  let ?ops = "[(Some Background, OpCreate (call_demo StatusAccepted 1 0))]" and ?s = "call_demo StatusAccepted 1 0"
  let ?st = "sy_store (run (call_step call_demo_sha) call_init ?ops)"
  have st: "?st = \<lparr>st_records = [(''c'', ?s)], st_leases = [], st_expires = []\<rparr>"
    using call_demo_created by (simp del: call_step.simps)
  have ok: "run_ok (call_step call_demo_sha) call_guard call_init ?ops"
    by (simp add: call_demo_valid del: call_step.simps) (simp add: call_init_def)
  have ready: "ready_keys 10 ?st = [''c'']"
    unfolding st by (simp add: ready_keys_def call_ready_def TimerDue_def time_IsZero_def leaseActive_def call_demo_fields)
  have list: "fst (ListReady (Some Background) 10 5 ?st) = Ok [?s]"
    unfolding ListReady_def ready unfolding st by (simp add: guarded_def Background_def)
  show ?thesis
    using ready_calls_claimable [OF ok refl _ _ _ _ _ _ _ list, of call_demo_claim ?s]
    unfolding st by (simp add: call_demo_claim_def call_demo_fields ClaimRequest_Validate_def call_demo_names maxLeaseDuration_def
        duration_defs Background_def)
qed

definition call_demo_signal :: CommandRequest where
  "call_demo_signal = \<lparr>cd_CallID = ''c'', cd_ExpectedRevision = 3, cd_CommandID = ''i'', cd_Payload = ''p''\<rparr>"

definition call_demo_signaled :: CallSnapshot where
  "call_demo_signaled = (call_demo StatusAccepted 4 1)\<lparr>cs_sequence := 1,
     cs_frames := [\<lparr>fr_sequence = 1, fr_kind = FrameSignal, fr_payload = ''p''\<rparr>],
     cs_commands := [(''i'', command_record call_demo_sha (Signal ''i'' [signal_frame ''p'']))]\<rparr>"

definition call_demo_waiting :: CallStore where
  "call_demo_waiting = \<lparr>st_records = [(''c'', call_demo StatusWaiting 3 1)], st_leases = [], st_expires = []\<rparr>"

definition call_demo_history :: "(Context option \<times> call_op) list" where
  "call_demo_history = call_demo_ops @ [(Some Background, OpCommit 20 1 (Move StatusWaiting 1 []) ''e'' 20 0)]"

lemma call_demo_history_run: "sy_store (run (call_step sha) call_init call_demo_history) = call_demo_waiting"
  "run_ok (call_step sha) call_guard call_init call_demo_history"
proof -
  have "sy_held call_demo_system ! 1 = call_demo StatusRunning 2 1" "length (sy_held call_demo_system) = 2"
    by (simp_all add: call_demo_system_def)
  then show "sy_store (run (call_step sha) call_init call_demo_history) = call_demo_waiting"
    by (simp add: call_demo_history_def run_append call_demo_run(1) call_demo_apply(2) call_demo_commit call_demo_waiting_def)
  show "run_ok (call_step sha) call_guard call_init call_demo_history"
    by (simp add: call_demo_history_def run_ok_append call_demo_run(2) del: call_step.simps)
qed

lemma call_demo_signal_first:
  "SubmitSignal call_demo_sha (Some Background) call_demo_signal call_demo_waiting =
     (Ok call_demo_signaled, call_demo_waiting\<lparr>st_records := [(''c'', call_demo_signaled)]\<rparr>)"
proof -
  have "Apply call_demo_sha (call_demo StatusWaiting 3 1) (Signal ''i'' [signal_frame ''p'']) = Ok call_demo_signaled"
    unfolding Apply_def call_demo_valid
    by (simp add: apply_new_def Signal_def Status_valid_def time_IsZero_def Let_def Status_Terminal_def signal_frame_def
        allowedTransition_def call_demo_names FrameKind_valid_def maxPayloadBytes_def call_demo_signaled_def call_demo_def)
  then show ?thesis
    by (simp add: SubmitSignal_eq call_demo_signal_def maxPayloadBytes_def store_command_def guarded_def Background_def
        call_demo_waiting_def call_demo_fields call_demo_signaled_def)
qed

theorem signal_idempotent_witness:
  "SubmitSignal call_demo_sha (Some Background) call_demo_signal (call_demo_waiting\<lparr>st_records := [(''c'', call_demo_signaled)]\<rparr>) =
     (Ok call_demo_signaled, call_demo_waiting\<lparr>st_records := [(''c'', call_demo_signaled)]\<rparr>)"
proof -
  let ?op = "(Some Background, OpSignal call_demo_signal)" and ?st = "call_demo_waiting\<lparr>st_records := [(''c'', call_demo_signaled)]\<rparr>"
  have ok: "run_ok (call_step call_demo_sha) call_guard call_init (call_demo_history @ ?op # [])"
    by (simp add: run_ok_append call_demo_history_run del: call_step.simps)
  have st: "sy_store (run (call_step call_demo_sha) call_init (call_demo_history @ ?op # [])) = ?st"
    by (simp add: run_append call_demo_history_run call_demo_signal_first)
  have first': "SubmitSignal call_demo_sha (Some Background) call_demo_signal
      (sy_store (run (call_step call_demo_sha) call_init call_demo_history)) = (Ok call_demo_signaled, ?st)"
    by (simp add: call_demo_history_run call_demo_signal_first)
  show ?thesis
    using signal_idempotent [OF ok first' refl, where r = call_demo_signaled and request' = call_demo_signal and expected = 3 and payload = "''p''" and x = Background]
    unfolding st by (simp add: call_demo_signal_def maxPayloadBytes_def Background_def)
qed

end
