(* ===== verification/Call_Runtime.thy ===== *)
theory Call_Runtime
  imports Call_History
begin

text \<open>
  What clients of durable calls use besides the store: the registry of machines and workflow
  definitions (\<open>registry.go\<close>), starting and reading calls (\<open>attach.go\<close>, \<open>runtime.go\<close>) and the
  administration service (\<open>admin.go\<close>), over the memory store. A reader that follows the cursors of
  \<open>Attach\<close> while the call advances sees every frame once.
\<close>

abbreviation ErrInvalidMachine :: goerr where
  "ErrInvalidMachine \<equiv> Sentinel ''continuation: invalid machine registration''"

abbreviation ErrAlreadyRegistered :: goerr where
  "ErrAlreadyRegistered \<equiv> Sentinel ''continuation: machine already registered''"

abbreviation ErrRegistryFrozen :: goerr where
  "ErrRegistryFrozen \<equiv> Sentinel ''continuation: registry is frozen''"

abbreviation ErrRegistryEmpty :: goerr where
  "ErrRegistryEmpty \<equiv> Sentinel ''continuation: registry is empty''"

abbreviation ErrMachineNotFound :: goerr where
  "ErrMachineNotFound \<equiv> Sentinel ''continuation: machine not found''"

abbreviation ErrInvalidRuntime :: goerr where
  "ErrInvalidRuntime \<equiv> Sentinel ''continuation: invalid runtime''"

abbreviation ErrTransitionBudget :: goerr where
  "ErrTransitionBudget \<equiv> Sentinel ''continuation: transition budget exhausted''"

abbreviation ErrInvalidAttach :: goerr where
  "ErrInvalidAttach \<equiv> Sentinel ''continuation: invalid attach request''"

abbreviation ErrCursorAhead :: goerr where
  "ErrCursorAhead \<equiv> Sentinel ''continuation: attach cursor is ahead''"

abbreviation ErrGap :: goerr where
  "ErrGap \<equiv> Sentinel ''continuation: attach cursor is below retention floor''"

section \<open>Registry\<close>

record 'm Registry =
  rg_machines :: "(string, 'm) gomap"
  rg_workflows :: "(string, (string, WorkflowDefinition) gomap) gomap"
  rg_frozen :: bool

definition NewRegistry :: "'m Registry" where
  "NewRegistry = \<lparr>rg_machines = [], rg_workflows = [], rg_frozen = False\<rparr>"

definition workflow_versions :: "'m Registry \<Rightarrow> string \<Rightarrow> (string, WorkflowDefinition) gomap" where
  "workflow_versions registry operation = (case gm_get (rg_workflows registry) operation of None \<Rightarrow> [] | Some v \<Rightarrow> v)"

text \<open>The entry of an operation is made even when the version turns out to be registered already.\<close>

definition RegisterWorkflow :: "WorkflowDefinition option \<Rightarrow> 'm Registry \<Rightarrow> goerr option \<times> 'm Registry" where
  "RegisterWorkflow definition' registry = (case definition' of None \<Rightarrow> (Some ErrInvalidWorkflow, registry)
   | Some d \<Rightarrow>
     if \<not> call_validOperation (wd_operation d) \<or> wd_version d = [] \<or> wd_fingerprint d = [] then (Some ErrInvalidWorkflow, registry)
     else if rg_frozen registry then (Some ErrRegistryFrozen, registry)
     else (let versions = workflow_versions registry (wd_operation d) in
       if gm_get versions (wd_version d) \<noteq> None
       then (Some (Wrapf (wd_operation d @ ''@'' @ wd_version d) [ErrAlreadyRegistered]),
         registry\<lparr>rg_workflows := gm_put (wd_operation d) versions (rg_workflows registry)\<rparr>)
       else (None, registry\<lparr>rg_workflows :=
         gm_put (wd_operation d) (gm_put (wd_version d) d versions) (rg_workflows registry)\<rparr>)))"

definition Registry_Register :: "string \<Rightarrow> 'm option \<Rightarrow> 'm Registry \<Rightarrow> goerr option \<times> 'm Registry" where
  "Registry_Register operation machine registry = (case machine of None \<Rightarrow> (Some ErrInvalidMachine, registry)
   | Some m \<Rightarrow>
     if \<not> call_validOperation operation then (Some ErrInvalidMachine, registry)
     else if rg_frozen registry then (Some ErrRegistryFrozen, registry)
     else if gm_get (rg_machines registry) operation \<noteq> None then (Some (Wrapf operation [ErrAlreadyRegistered]), registry)
     else (None, registry\<lparr>rg_machines := gm_put operation m (rg_machines registry)\<rparr>))"

definition Registry_Freeze :: "'m Registry \<Rightarrow> goerr option \<times> 'm Registry" where
  "Registry_Freeze registry = (if rg_frozen registry then (None, registry)
     else if rg_machines registry = [] \<and> rg_workflows registry = [] then (Some ErrRegistryEmpty, registry)
     else (None, registry\<lparr>rg_frozen := True\<rparr>))"

definition ResolveWorkflow :: "'m Registry \<Rightarrow> string \<Rightarrow> string \<Rightarrow> WorkflowDefinition option" where
  "ResolveWorkflow registry operation version =
     (if call_validOperation operation \<and> call_validIdentity version
      then gm_get (workflow_versions registry operation) version else None)"

definition Registry_Resolve :: "'m Registry \<Rightarrow> string \<Rightarrow> 'm option" where
  "Registry_Resolve registry operation =
     (if call_validOperation operation then gm_get (rg_machines registry) operation else None)"

section \<open>Construction of a runtime\<close>

text \<open>
  A nil store or registry is None. The store of the model is the memory store, which has leases, so
  \<open>ErrLeaseUnsupported\<close> does not arise; \<open>randomExecutorID\<close> is the result of that function.
\<close>

record 'm RuntimeConfig =
  rc_Store :: "CallStore option"
  rc_Registry :: "'m Registry option"
  rc_PollInterval :: duration
  rc_BatchSize :: int
  rc_MaxTransitions :: int
  rc_ExecutorID :: string
  rc_LeaseDuration :: duration
  rc_HeartbeatInterval :: duration
  rc_TerminalRetention :: duration

record 'm Runtime =
  rt_registry :: "'m Registry"
  rt_pollInterval :: duration
  rt_batchSize :: int
  rt_maxTransitions :: int
  rt_executorID :: string
  rt_leaseDuration :: duration
  rt_heartbeat :: duration
  rt_terminalRetention :: duration

definition maxTerminalRetention :: duration where "maxTerminalRetention = 365 * 24 * hour"
definition defaultTerminalRetention :: duration where "defaultTerminalRetention = 24 * hour"

definition or_default :: "int \<Rightarrow> int \<Rightarrow> int" where
  "or_default v d = (if v = 0 then d else v)"

text \<open>Division of durations by three, truncated toward zero.\<close>

definition third :: "duration \<Rightarrow> duration" where
  "third d = (if d \<ge> 0 then d div 3 else - ((- d) div 3))"

definition NewRuntime :: "goerr + string \<Rightarrow> 'm RuntimeConfig \<Rightarrow> goerr + 'm Runtime" where
  "NewRuntime randomExecutorID config = (case rc_Registry config of None \<Rightarrow> Err (Wrapf ''store and frozen registry are required'' [ErrInvalidRuntime])
   | Some registry \<Rightarrow>
     if rc_Store config = None \<or> \<not> rg_frozen registry then Err (Wrapf ''store and frozen registry are required'' [ErrInvalidRuntime])
     else (case (if rc_ExecutorID config = [] then randomExecutorID else Ok (rc_ExecutorID config)) of
       Err e \<Rightarrow> Err (Wrapf ''executor identity'' [ErrInvalidRuntime, e])
     | Ok executorID \<Rightarrow>
       let pollInterval = or_default (rc_PollInterval config) (100 * millisecond);
           batchSize = or_default (rc_BatchSize config) 100;
           maxTransitions = or_default (rc_MaxTransitions config) 64;
           leaseDuration = or_default (rc_LeaseDuration config) (30 * second);
           heartbeat = or_default (rc_HeartbeatInterval config) (third leaseDuration);
           retention = or_default (rc_TerminalRetention config) defaultTerminalRetention in
       if pollInterval \<le> 0 \<or> pollInterval > minute \<or> batchSize \<le> 0 \<or> batchSize > 10000 \<or>
         maxTransitions \<le> 0 \<or> maxTransitions > 10000 \<or> \<not> validLeaseOwner executorID \<or>
         leaseDuration \<le> 0 \<or> leaseDuration > maxLeaseDuration \<or> heartbeat \<le> 0 \<or> heartbeat \<ge> leaseDuration \<or>
         retention \<le> 0 \<or> retention > maxTerminalRetention
       then Err (Wrapf ''runtime budgets'' [ErrInvalidRuntime])
       else Ok \<lparr>rt_registry = registry, rt_pollInterval = pollInterval, rt_batchSize = batchSize,
         rt_maxTransitions = maxTransitions, rt_executorID = executorID, rt_leaseDuration = leaseDuration,
         rt_heartbeat = heartbeat, rt_terminalRetention = retention\<rparr>))"

section \<open>Starting and steering calls\<close>

definition Runtime_Create ::
  "'m Runtime \<Rightarrow> Context option \<Rightarrow> string \<Rightarrow> string \<Rightarrow> CallStore \<Rightarrow> (goerr + CallSnapshot) \<times> CallStore" where
  "Runtime_Create r ctx callID operation s = (if ctx = None then (Err ErrInvalidRuntime, s)
     else (case NewSnapshot callID operation of Err e \<Rightarrow> (Err e, s)
       | Ok snapshot \<Rightarrow> if Registry_Resolve (rt_registry r) operation = None then (Err ErrMachineNotFound, s)
         else call_Create ctx snapshot s))"

definition StartCall ::
  "'m Runtime \<Rightarrow> Context option \<Rightarrow> string \<Rightarrow> string \<Rightarrow> string \<Rightarrow> CallStore \<Rightarrow> (goerr + CallSnapshot) \<times> CallStore" where
  "StartCall r ctx callID operation input s =
     (if ctx = None then (Err ErrInvalidRuntime, s)
      else if Registry_Resolve (rt_registry r) operation = None then (Err ErrMachineNotFound, s)
      else (case NewSnapshotWithInput callID operation input of Err e \<Rightarrow> (Err e, s)
        | Ok snapshot \<Rightarrow> call_Create ctx snapshot s))"

definition Runtime_SubmitSignal ::
  "(string \<Rightarrow> string) \<Rightarrow> Context option \<Rightarrow> string \<Rightarrow> string \<Rightarrow> string \<Rightarrow> CallStore \<Rightarrow> (goerr + CallSnapshot) \<times> CallStore" where
  "Runtime_SubmitSignal sha ctx callID commandID payload s =
     (if ctx = None then (Err ErrInvalidRuntime, s)
      else (case call_Load ctx callID s of (Err e, s') \<Rightarrow> (Err e, s')
        | (Ok current, s') \<Rightarrow> SubmitSignal sha ctx \<lparr>cd_CallID = callID, cd_ExpectedRevision = cs_revision current,
            cd_CommandID = commandID, cd_Payload = payload\<rparr> s'))"

definition Runtime_RequestCancel ::
  "(string \<Rightarrow> string) \<Rightarrow> Context option \<Rightarrow> string \<Rightarrow> string \<Rightarrow> CallStore \<Rightarrow> (goerr + CallSnapshot) \<times> CallStore" where
  "Runtime_RequestCancel sha ctx callID commandID s =
     (if ctx = None then (Err ErrInvalidRuntime, s)
      else (case call_Load ctx callID s of (Err e, s') \<Rightarrow> (Err e, s')
        | (Ok current, s') \<Rightarrow> RequestCancel sha ctx \<lparr>cd_CallID = callID, cd_ExpectedRevision = cs_revision current,
            cd_CommandID = commandID, cd_Payload = []\<rparr> s'))"

section \<open>Reading frames\<close>

definition maxAttachFrames :: int where "maxAttachFrames = 1000"

record Attachment =
  at_Snapshot :: CallSnapshot
  at_Frames :: "Frame list"
  at_Terminal :: bool
  at_NextSequence :: u64
  at_FrameFloor :: u64

text \<open>The page of a valid snapshot after a cursor; the subtractions wrap at 64 bits.\<close>

definition attach_page :: "CallSnapshot \<Rightarrow> u64 \<Rightarrow> int \<Rightarrow> goerr + Attachment" where
  "attach_page current after limit =
     (if after > cs_sequence current then Err (Wrapf ''after'' [ErrCursorAhead])
      else if after < cs_frameFloor current - 1 then Err (Wrapf ''after'' [ErrGap])
      else (let start = unat (after - (cs_frameFloor current - 1)); rest = drop start (cs_frames current);
          frames = (if int (length rest) > limit then take (nat limit) rest else rest) in
        Ok \<lparr>at_Snapshot = current, at_Frames = frames, at_Terminal = Status_Terminal (cs_status current),
          at_NextSequence = (if length frames > 0 then fr_sequence (last frames) + 1 else after + 1),
          at_FrameFloor = cs_frameFloor current\<rparr>))"

definition Attach :: "Context option \<Rightarrow> string \<Rightarrow> u64 \<Rightarrow> int \<Rightarrow> CallStore \<Rightarrow> goerr + Attachment" where
  "Attach ctx callID after limit s =
     (if ctx = None \<or> \<not> call_validIdentity callID \<or> limit < 1 \<or> limit > maxAttachFrames then Err ErrInvalidAttach
      else (case fst (call_Load ctx callID s) of Err e \<Rightarrow> Err e
        | Ok current \<Rightarrow> if validateSnapshot current \<noteq> None then Err ErrInvalidAttach
          else attach_page current after limit))"

section \<open>Administration\<close>

definition maxAdminPageSize :: int where "maxAdminPageSize = 1000"

record Admin =
  ad_terminalRetention :: duration
  ad_maxPageSize :: int

definition NewAdmin :: "CallStore option \<Rightarrow> duration \<Rightarrow> int \<Rightarrow> goerr + Admin" where
  "NewAdmin store terminalRetention pageSize =
     (if store = None then Err (Wrapf ''admin store is required'' [ErrInvalidRetention])
      else (let retention = or_default terminalRetention defaultTerminalRetention; size = or_default pageSize 100 in
        if retention \<le> 0 \<or> retention > maxTerminalRetention \<or> size < 1 \<or> size > maxAdminPageSize
        then Err ErrInvalidRetention
        else Ok \<lparr>ad_terminalRetention = retention, ad_maxPageSize = size\<rparr>))"

definition Admin_List ::
  "Admin \<Rightarrow> Context option \<Rightarrow> string \<Rightarrow> int \<Rightarrow> CallStore \<Rightarrow> (goerr + CallSummary list) \<times> CallStore" where
  "Admin_List admin ctx after limit s =
     (if ctx = None \<or> limit < 1 \<or> limit > ad_maxPageSize admin then (Err ErrInvalidRetention, s)
      else if after \<noteq> [] \<and> \<not> call_validIdentity after then (Err ErrInvalidRetention, s)
      else ListCalls ctx after limit s)"

definition Admin_Get :: "Context option \<Rightarrow> string \<Rightarrow> CallStore \<Rightarrow> (goerr + CallSummary) \<times> CallStore" where
  "Admin_Get ctx callID s = (if ctx = None then (Err ErrInvalidRetention, s) else GetCall ctx callID s)"

definition Admin_Cancel ::
  "(string \<Rightarrow> string) \<Rightarrow> Context option \<Rightarrow> string \<Rightarrow> string \<Rightarrow> CallStore \<Rightarrow> (goerr + CallSummary) \<times> CallStore" where
  "Admin_Cancel sha ctx callID commandID s = (if ctx = None then (Err ErrInvalidRetention, s)
     else (case call_Load ctx callID s of (Err e, s1) \<Rightarrow> (Err e, s1)
       | (Ok current, s1) \<Rightarrow> (case RequestCancel sha ctx \<lparr>cd_CallID = callID, cd_ExpectedRevision = cs_revision current,
             cd_CommandID = commandID, cd_Payload = []\<rparr> s1 of (Err e, s2) \<Rightarrow> (Err e, s2)
         | (Ok _, s2) \<Rightarrow> GetCall ctx callID s2)))"

definition Admin_Expire ::
  "(string \<Rightarrow> string) \<Rightarrow> Admin \<Rightarrow> go_time \<Rightarrow> Context option \<Rightarrow> string \<Rightarrow> CallStore \<Rightarrow> (goerr + CallSummary) \<times> CallStore" where
  "Admin_Expire sha admin now ctx callID s = (if ctx = None then (Err ErrInvalidRetention, s)
     else (case call_Load ctx callID s of (Err e, s1) \<Rightarrow> (Err e, s1)
       | (Ok current, s1) \<Rightarrow> (case call_Expire sha ctx callID (cs_revision current)
             (time_Add now (ad_terminalRetention admin)) s1 of (Err e, s2) \<Rightarrow> (Err e, s2)
         | (Ok _, s2) \<Rightarrow> GetCall ctx callID s2)))"

definition Admin_Prune ::
  "Context option \<Rightarrow> string \<Rightarrow> u64 \<Rightarrow> CallStore \<Rightarrow> (goerr + CallSummary) \<times> CallStore" where
  "Admin_Prune ctx callID floor' s = (if ctx = None then (Err ErrInvalidRetention, s)
     else (case PruneFrames ctx callID floor' s of (Err e, s1) \<Rightarrow> (Err e, s1)
       | (Ok _, s1) \<Rightarrow> GetCall ctx callID s1))"

definition Admin_Collect ::
  "Admin \<Rightarrow> go_time \<Rightarrow> Context option \<Rightarrow> int \<Rightarrow> CallStore \<Rightarrow> (goerr + nat) \<times> CallStore" where
  "Admin_Collect admin now ctx limit s =
     (if ctx = None \<or> limit < 1 \<or> limit > ad_maxPageSize admin then (Err ErrInvalidRetention, s)
      else DeleteExpired ctx now limit s)"

section \<open>Registration and starts\<close>

lemma register_resolves:
  assumes "Registry_Register operation (Some m) g = (None, g')"
  shows "Registry_Resolve g' operation = Some m" and "Registry_Resolve g operation = None"
    and "other \<noteq> operation \<Longrightarrow> Registry_Resolve g' other = Registry_Resolve g other"
  using assms by (auto simp: Registry_Register_def Registry_Resolve_def gm_get_put split: if_splits)

lemma frozen_registry:
  assumes "rg_frozen g"
  shows "snd (Registry_Register operation m g) = g" and "snd (RegisterWorkflow d g) = g"
    and "Registry_Freeze g = (None, g)"
  using assms by (simp_all add: Registry_Register_def RegisterWorkflow_def Registry_Freeze_def split: option.splits)

lemma NewSnapshotWithInput_valid:
  assumes "NewSnapshotWithInput callID operation input = Ok s"
  shows "validateSnapshot s = None" and "cs_callID s = callID"
proof -
  have names: "call_validIdentity callID" "call_validOperation operation" and len: "length input \<le> maxPayloadBytes"
    and s: "s = \<lparr>cs_callID = callID, cs_operation = operation, cs_status = StatusAccepted, cs_readyAt = 0,
      cs_revision = 1, cs_fence = 0, cs_sequence = 1, cs_frameFloor = 1,
      cs_frames = [\<lparr>fr_sequence = 1, fr_kind = FrameAccepted, fr_payload = input\<rparr>], cs_commands = [], cs_workflow = None\<rparr>"
    using assms unfolding NewSnapshotWithInput_def NewSnapshot_def NewFrame_def
    by (simp_all split: if_splits)
  show "validateSnapshot s = None"
    unfolding s using len by (simp add: names not_less validateSnapshot_def Status_valid_def validateWorkflowState_def time_IsZero_def
        valid_initial_def valid_frame_at_def FrameKind_valid_def)
  show "cs_callID s = callID" by (simp add: s)
qed

text \<open>A started call is a created one with a valid snapshot: a step of the histories of the store.\<close>

lemma StartCall_creates:
  assumes "StartCall r ctx callID operation input st = (Ok s, st')"
  shows "call_Create ctx s st = (Ok s, st')" and "validateSnapshot s = None" and "cs_callID s = callID"
proof -
  obtain s0 where new: "NewSnapshotWithInput callID operation input = Ok s0" and create: "call_Create ctx s0 st = (Ok s, st')"
    using assms by (auto simp: StartCall_def split: if_splits sum.splits)
  have "s = s0" using create by (auto simp: call_Create_def guarded_def split: option.splits if_splits)
  then show "call_Create ctx s st = (Ok s, st')" and "validateSnapshot s = None" and "cs_callID s = callID"
    using create NewSnapshotWithInput_valid [OF new] by simp_all
qed

lemma NewRuntime_bounds:
  assumes "NewRuntime randomExecutorID config = Ok r"
  shows "0 < rt_maxTransitions r \<and> validLeaseOwner (rt_executorID r) \<and> 0 < rt_leaseDuration r \<and>
    rt_leaseDuration r \<le> maxLeaseDuration \<and> rg_frozen (rt_registry r)"
proof (cases "rc_Registry config")
  case reg: (Some registry)
  show ?thesis
  proof (cases "if rc_ExecutorID config = [] then randomExecutorID else Ok (rc_ExecutorID config)")
    case (Inr executorID)
    then show ?thesis using assms unfolding NewRuntime_def reg Inr Let_def option.case sum.case
      by (simp split: if_split_asm) (elim exE conjE, hypsubst, simp)
  qed (use assms reg in \<open>simp add: NewRuntime_def split: if_split_asm\<close>)
qed (use assms in \<open>simp add: NewRuntime_def\<close>)

section \<open>Pages\<close>

lemma frame_numbers:
  assumes "snapshot_ok s" and "i < length (cs_frames s)"
  shows "fr_sequence (cs_frames s ! i) = cs_frameFloor s + of_nat i"
  using assms by (simp add: snapshot_ok_def valid_frame_at_def)

lemma attach_start:
  assumes "snapshot_ok s" and "after \<le> cs_sequence s" and "cs_frameFloor s - 1 \<le> after"
  shows "unat (after - (cs_frameFloor s - 1)) \<le> length (cs_frames s)"
proof -
  have "of_nat (length (cs_frames s)) = cs_sequence s - (cs_frameFloor s - 1)"
    using assms(1) by (simp add: snapshot_ok_def algebra_simps)
  moreover have "unat (after - (cs_frameFloor s - 1)) \<le> unat (cs_sequence s - (cs_frameFloor s - 1))"
    using assms(2,3) by (simp add: unat_sub word_le_nat_alt diff_le_mono)
  moreover have "unat (of_nat n :: u64) \<le> n" for n by (simp add: unat_of_nat)
  ultimately show ?thesis by (metis le_trans)
qed

lemma attach_page_laws:
  assumes ok: "snapshot_ok s" and page: "attach_page s after limit = Ok page" and "1 \<le> limit"
  shows "map fr_sequence (at_Frames page) = map (\<lambda>i. after + 1 + of_nat i) [0..<length (at_Frames page)]"
    and "set (at_Frames page) \<subseteq> set (cs_frames s)"
    and "at_NextSequence page - 1 = after + of_nat (length (at_Frames page))"
    and "int (length (at_Frames page)) < limit \<Longrightarrow> after + of_nat (length (at_Frames page)) = cs_sequence s"
    and "at_Snapshot page = s"
proof -
  define start where "start = unat (after - (cs_frameFloor s - 1))"
  define n where "n = length (at_Frames page)"
  have bounds: "after \<le> cs_sequence s" "cs_frameFloor s - 1 \<le> after"
    using page by (auto simp: attach_page_def split: if_splits)
  then have start: "start \<le> length (cs_frames s)" using attach_start [OF ok] by (simp add: start_def)
  have cut: "(if int (length xs) > limit then take (nat limit) xs else xs) = take (nat limit) xs" for xs :: "Frame list"
    by simp
  have frames: "at_Frames page = take (nat limit) (drop start (cs_frames s))"
    and snap: "at_Snapshot page = s"
    and nxt: "at_NextSequence page = (if n > 0 then fr_sequence (last (at_Frames page)) + 1 else after + 1)"
    using page bounds unfolding attach_page_def cut Let_def start_def n_def by (simp_all add: not_less [symmetric], force+)
  show "at_Snapshot page = s" by (rule snap)
  show "set (at_Frames page) \<subseteq> set (cs_frames s)"
    unfolding frames by (rule subset_trans [OF set_take_subset set_drop_subset])
  have floor: "cs_frameFloor s + of_nat start = after + 1" by (simp add: start_def)
  have num: "fr_sequence (at_Frames page ! i) = after + 1 + of_nat i" if "i < n" for i
  proof -
    have i: "start + i < length (cs_frames s)" and nth: "at_Frames page ! i = cs_frames s ! (start + i)"
      using that start by (auto simp: n_def frames)
    show ?thesis unfolding nth frame_numbers [OF ok i] floor [symmetric] by (simp add: add.assoc)
  qed
  then show "map fr_sequence (at_Frames page) = map (\<lambda>i. after + 1 + of_nat i) [0..<length (at_Frames page)]"
    by (intro nth_equalityI) (simp_all add: n_def)
  show "at_NextSequence page - 1 = after + of_nat (length (at_Frames page))"
  proof (cases n)
    case (Suc m)
    then have "last (at_Frames page) = at_Frames page ! m" by (simp add: n_def last_conv_nth flip: length_greater_0_conv)
    with Suc num [of m] nxt show ?thesis by (simp flip: n_def)
  qed (use nxt in \<open>simp flip: n_def\<close>)
  assume "int (length (at_Frames page)) < limit"
  then have n: "length (at_Frames page) = length (cs_frames s) - start" unfolding frames by auto
  have "after + 1 + of_nat (length (cs_frames s) - start) = cs_frameFloor s + of_nat (start + (length (cs_frames s) - start))"
    by (simp only: floor [symmetric] of_nat_add add.assoc)
  also have "\<dots> = cs_sequence s + 1" using ok start by (simp add: snapshot_ok_def)
  finally show "after + of_nat (length (at_Frames page)) = cs_sequence s"
    unfolding n by (simp add: add.assoc add.left_commute)
qed

text \<open>
  A reader of a call: it starts at a cursor and asks for a page after each stretch of the history,
  with the cursor the previous page gave.
\<close>

type_synonym call_history = "(Context option \<times> call_op) list"

fun read_pages ::
  "(string \<Rightarrow> string) \<Rightarrow> CallSystem \<Rightarrow> string \<Rightarrow> u64 \<Rightarrow> (call_history \<times> Context option \<times> int) list \<Rightarrow>
     goerr + Attachment list" where
  "read_pages sha sys k after [] = Ok []"
| "read_pages sha sys k after ((ops, ctx, limit) # reads) =
     (let sys' = run (call_step sha) sys ops in
      case Attach ctx k after limit (sy_store sys') of Err e \<Rightarrow> Err e
      | Ok page \<Rightarrow> (case read_pages sha sys' k (at_NextSequence page - 1) reads of Err e \<Rightarrow> Err e
        | Ok pages \<Rightarrow> Ok (page # pages)))"

lemma Attach_Ok:
  assumes "Attach ctx k after limit st = Ok page"
  shows "1 \<le> limit" and "\<exists>r. gm_get (st_records st) k = Some r \<and> attach_page r after limit = Ok page"
  using assms by (auto simp: Attach_def call_Load_def guarded_def split: if_splits option.splits sum.splits)

text \<open>The numbers of two stretches of frames, one behind the other.\<close>

lemma consecutive_append:
  fixes after :: u64
  assumes "map fr_sequence xs = map (\<lambda>i. after + 1 + of_nat i) [0..<length xs]"
    and "map fr_sequence ys = map (\<lambda>i. after + of_nat (length xs) + 1 + of_nat i) [0..<length ys]"
  shows "map fr_sequence (xs @ ys) = map (\<lambda>i. after + 1 + of_nat i) [0..<length (xs @ ys)]"
proof -
  have "[0..<length xs + length ys] = [0..<length xs] @ map (\<lambda>i. i + length xs) [0..<length ys]"
    by (simp add: upt_add_eq_append [of 0] map_add_upt add.commute)
  with assms show ?thesis by (simp add: algebra_simps)
qed

text \<open>Frames seen in the past of a call, and the cursor after them, while the history goes on.\<close>

lemma read_pages_laws:
  assumes "call_inv sys" and "run_ok (call_step sha) call_guard sys (concat (map fst reads))"
    and "read_pages sha sys k after reads = Ok pages"
  shows "length pages = length reads \<and>
    map fr_sequence (concat (map at_Frames pages)) =
      map (\<lambda>i. after + 1 + of_nat i) [0..<length (concat (map at_Frames pages))] \<and>
    (\<forall>r. gm_get (st_records (sy_store (run (call_step sha) sys (concat (map fst reads))))) k = Some r \<longrightarrow>
      (\<forall>f \<in> set (concat (map at_Frames pages)). cs_frameFloor r \<le> fr_sequence f \<longrightarrow> f \<in> set (cs_frames r)) \<and>
      (reads \<noteq> [] \<and> int (length (at_Frames (last pages))) < snd (snd (last reads)) \<longrightarrow>
        after + of_nat (length (concat (map at_Frames pages))) = cs_sequence r))"
  using assms
proof (induction reads arbitrary: sys after pages)
  case (Cons read reads)
  obtain ops ctx limit where read: "read = (ops, ctx, limit)" by (cases read)
  define sys' where "sys' = run (call_step sha) sys ops"
  have inv: "call_inv sys'" and ok: "run_ok (call_step sha) call_guard sys' (concat (map fst reads))"
    using Cons.prems(1,2) call_sys.run_inv by (auto simp: read sys'_def run_ok_append)
  obtain page rest where at: "Attach ctx k after limit (sy_store sys') = Ok page" and pages: "pages = page # rest"
      and rest: "read_pages sha sys' k (at_NextSequence page - 1) reads = Ok rest"
    using Cons.prems(3) by (auto simp: read sys'_def [symmetric] Let_def split: sum.splits)
  obtain q where q: "gm_get (st_records (sy_store sys')) k = Some q" "attach_page q after limit = Ok page"
    using Attach_Ok(2) [OF at] by blast
  note laws = attach_page_laws [OF inv_record(2) [OF inv q(1)] q(2) Attach_Ok(1) [OF at]]
  note IH = Cons.IH [OF inv ok rest, unfolded laws(3)]
  have final: "run (call_step sha) sys (concat (map fst (read # reads))) = run (call_step sha) sys' (concat (map fst reads))"
    by (simp add: read sys'_def run_append)
  have kept: "f \<in> set (cs_frames r)"
    if "gm_get (st_records (sy_store (run (call_step sha) sys' (concat (map fst reads))))) k = Some r"
      "f \<in> set (at_Frames page)" "cs_frameFloor r \<le> fr_sequence f" for r f
  proof -
    have "q \<in> set (sy_held (run (call_step sha) sys' (concat (map fst reads))))"
      using inv_record(3) [OF inv q(1)] run_held by blast
    then have "grows q r"
      using inv_held [OF call_sys.run_inv [OF inv ok]] inv_record(1) [OF inv q(1)] that(1) by blast
    then show ?thesis using laws(2) that(2,3) by (auto simp: grows_def)
  qed
  have last': "after + of_nat (length (at_Frames page)) = cs_sequence r"
    if "gm_get (st_records (sy_store sys')) k = Some r" "int (length (at_Frames page)) < limit" for r
    using laws(4) that q(1) by simp
  have "map fr_sequence (concat (map at_Frames pages)) =
      map (\<lambda>i. after + 1 + of_nat i) [0..<length (concat (map at_Frames pages))]"
    using consecutive_append [OF laws(1)] IH by (simp add: pages)
  moreover have "f \<in> set (cs_frames r)"
    if "gm_get (st_records (sy_store (run (call_step sha) sys' (concat (map fst reads))))) k = Some r"
      "f \<in> set (concat (map at_Frames pages))" "cs_frameFloor r \<le> fr_sequence f" for r f
    using kept [OF that(1) _ that(3)] IH that by (auto simp: pages)
  moreover have "after + of_nat (length (concat (map at_Frames pages))) = cs_sequence r"
    if "gm_get (st_records (sy_store (run (call_step sha) sys' (concat (map fst reads))))) k = Some r"
      "int (length (at_Frames (last pages))) < snd (snd (last (read # reads)))" for r
  proof (cases "reads = []")
    case True
    then show ?thesis using IH that last' by (simp add: pages read)
  next
    case False
    then have "rest \<noteq> []" using IH by auto
    then show ?thesis using False IH that by (simp add: pages algebra_simps)
  qed
  ultimately show ?case using IH unfolding final by (simp add: pages)
qed simp

text \<open>
  C24. Following a call page by page. A reader that starts at a cursor and asks for the next page with
  the cursor of the previous one, while any history goes on in the store, gets the frames after its
  cursor one by one, with no gap and no repetition. What it got is what the store holds, for the
  frames that are still retained; and when its last page was shorter than the limit it asked for,
  it has seen everything the call recorded.
\<close>

theorem attach_pages:
  assumes "run_ok (call_step sha) call_guard call_init (concat (map fst reads))"
    and "read_pages sha call_init k after reads = Ok pages"
    and "frames = concat (map at_Frames pages)"
  shows "map fr_sequence frames = map (\<lambda>i. after + 1 + of_nat i) [0..<length frames] \<and>
    (\<forall>r. gm_get (st_records (sy_store (run (call_step sha) call_init (concat (map fst reads))))) k = Some r \<longrightarrow>
      (\<forall>f \<in> set frames. cs_frameFloor r \<le> fr_sequence f \<longrightarrow> f \<in> set (cs_frames r)) \<and>
      (reads \<noteq> [] \<and> int (length (at_Frames (last pages))) < snd (snd (last reads)) \<longrightarrow>
        after + of_nat (length frames) = cs_sequence r))"
  using read_pages_laws [OF call_init_inv assms(1,2)] unfolding assms(3) by blast

definition attach_demo :: CallSnapshot where
  "attach_demo = (call_demo StatusAccepted 1 0)\<lparr>cs_sequence := 1,
     cs_frames := [\<lparr>fr_sequence = 1, fr_kind = FrameAccepted, fr_payload = ''p''\<rparr>]\<rparr>"

definition attach_demo_reads :: "(call_history \<times> Context option \<times> int) list" where
  "attach_demo_reads = [([(Some Background, OpCreate attach_demo)], Some Background, 1), ([], Some Background, 5)]"

definition attach_demo_page :: "Frame list \<Rightarrow> Attachment" where
  "attach_demo_page frames = \<lparr>at_Snapshot = attach_demo, at_Frames = frames, at_Terminal = False, at_NextSequence = 2,
     at_FrameFloor = 1\<rparr>"

lemma attach_demo_valid: "validateSnapshot attach_demo = None"
  by (simp add: validateSnapshot_def attach_demo_def call_demo_def call_demo_names Status_valid_def validateWorkflowState_def
      time_IsZero_def valid_initial_def valid_frame_at_def FrameKind_valid_def maxPayloadBytes_def)

lemma attach_demo_created:
  "call_step sha call_init (Some Background, OpCreate attach_demo) =
     \<lparr>sy_store = \<lparr>st_records = [(''c'', attach_demo)], st_leases = [], st_expires = []\<rparr>,
      sy_held = [attach_demo], sy_grants = []\<rparr>"
  by (simp add: call_init_def NewWithClock_def call_Create_def guarded_def Background_def call_initialSnapshot_def
      attach_demo_def call_demo_def)

lemma attach_demo_attach:
  fixes st :: CallStore
  defines "st \<equiv> \<lparr>st_records = [(''c'', attach_demo)], st_leases = [], st_expires = []\<rparr>"
  shows "Attach (Some Background) ''c'' 0 1 st = Ok (attach_demo_page (cs_frames attach_demo))"
    and "Attach (Some Background) ''c'' 1 5 st = Ok (attach_demo_page [])"
proof -
  have "fst (call_Load (Some Background) ''c'' st) = Ok attach_demo"
    by (simp add: call_Load_def guarded_def Background_def st_def)
  moreover have "attach_page attach_demo 0 1 = Ok (attach_demo_page (cs_frames attach_demo))"
    "attach_page attach_demo 1 5 = Ok (attach_demo_page [])"
    by (simp_all add: attach_page_def Let_def attach_demo_page_def attach_demo_def call_demo_def Status_Terminal_def)
  ultimately show "Attach (Some Background) ''c'' 0 1 st = Ok (attach_demo_page (cs_frames attach_demo))"
    and "Attach (Some Background) ''c'' 1 5 st = Ok (attach_demo_page [])"
    by (simp_all add: Attach_def call_demo_names maxAttachFrames_def attach_demo_valid)
qed

lemma attach_demo_run: "read_pages sha call_init ''c'' 0 attach_demo_reads =
    Ok [attach_demo_page (cs_frames attach_demo), attach_demo_page []]"
proof -
  have "at_NextSequence (attach_demo_page frames) - 1 = 1" for frames by (simp add: attach_demo_page_def)
  then show ?thesis
    by (simp add: attach_demo_reads_def attach_demo_created attach_demo_attach Let_def del: call_step.simps)
qed

theorem attach_pages_witness:
  "map fr_sequence (cs_frames attach_demo @ []) = [1] \<and> (0 :: u64) + of_nat (length (cs_frames attach_demo @ [])) = cs_sequence attach_demo"
proof -
  have "run_ok (call_step call_demo_sha) call_guard call_init (concat (map fst attach_demo_reads))"
    and "gm_get (st_records (sy_store (run (call_step call_demo_sha) call_init (concat (map fst attach_demo_reads))))) ''c'' = Some attach_demo"
    using attach_demo_valid attach_demo_created by (simp_all add: attach_demo_reads_def call_init_def del: call_step.simps)
  then show ?thesis
    using attach_pages [OF _ attach_demo_run refl, of call_demo_sha]
    by (simp add: attach_demo_page_def attach_demo_reads_def del: call_step.simps) (simp add: attach_demo_def)
qed

end
