(* ===== verification/Call_Executor.thy ===== *)
theory Call_Executor
  imports Call_Runtime
begin

text \<open>
  The executor of durable calls: one batch of \<open>runtime.go\<close> (\<open>RunOnce\<close>, \<open>advance\<close>, \<open>release\<close>) with the
  handling of machine errors in \<open>machine_error.go\<close>, over the memory store and next to any number of
  other clients and executors. Whatever happens meanwhile, a batch is a history of the store, and a
  batch that is not cancelled leaves no lease behind.
\<close>

section \<open>The surroundings of an executor\<close>

text \<open>
  What the executor meets between two of its own steps: the store, the caller's context, the clock of
  the store, its own clock, and the rest of the world. \<open>en_other\<close> is everything that happens until its
  next step, \<open>en_beats\<close> the number of heartbeat ticks while a machine runs, and \<open>en_Advance\<close> the
  result of a machine, which sees the cause its context was cancelled with, if any. Observers have
  no effect on calls and are left out.
\<close>

record 'w World =
  wo_store :: CallStore
  wo_ctx :: "Context option"
  wo_now :: go_time
  wo_clock :: go_time
  wo_rest :: 'w

record ('m, 'w) Environment =
  en_other :: "'w World \<Rightarrow> 'w World"
  en_beats :: "CallSnapshot \<Rightarrow> 'w World \<Rightarrow> nat"
  en_Advance :: "'m \<Rightarrow> goerr option \<Rightarrow> CallSnapshot \<Rightarrow> 'w World \<Rightarrow> goerr + Transition"

definition wo_cause :: "'w World \<Rightarrow> goerr option" where
  "wo_cause w = (case wo_ctx w of None \<Rightarrow> None | Some ctx \<Rightarrow> ctx_cause ctx)"

text \<open>One call of the store, and one look at the context.\<close>

definition world_call ::
  "('m, 'w) Environment \<Rightarrow> (Context option \<Rightarrow> go_time \<Rightarrow> CallStore \<Rightarrow> 'a \<times> CallStore) \<Rightarrow> 'w World \<Rightarrow> 'a \<times> 'w World" where
  "world_call env f w = (let w1 = en_other env w; (result, st) = f (wo_ctx w1) (wo_now w1) (wo_store w1) in
     (result, w1\<lparr>wo_store := st\<rparr>))"


section \<open>Machine errors\<close>

datatype ErrorClass = ErrorClassNone | ErrorClassRetryable | ErrorClassTerminal | ErrorClassInternal






section \<open>Execution\<close>

definition lease_of :: "'m Runtime \<Rightarrow> CallSnapshot \<Rightarrow> duration \<Rightarrow> LeaseRequest" where
  "lease_of r current d = \<lparr>lq_CallID = cs_callID current, lq_Revision = cs_revision current,
     lq_Fence = cs_fence current, lq_OwnerID = rt_executorID r, lq_LeaseDuration = d\<rparr>"



definition Runtime_release :: "('m, 'w) Environment \<Rightarrow> 'm Runtime \<Rightarrow> CallSnapshot \<Rightarrow> 'w World \<Rightarrow> 'w World" where
  "Runtime_release env r snapshot w = snd (world_call env (\<lambda>ctx now. Release ctx (lease_of r snapshot 0)) w)"




section \<open>Leases of an executor\<close>


text \<open>The leases of an owner are among \<open>X\<close>, given by call, revision and fence.\<close>

definition leases_in :: "string \<Rightarrow> (string \<times> u64 \<times> u64) set \<Rightarrow> (string, leaseRecord) gomap \<Rightarrow> bool" where
  "leases_in owner X leases \<longleftrightarrow> (\<forall>k l. gm_get leases k = Some l \<and> lr_owner l = owner \<longrightarrow>
     (k, lr_revision l, lr_fence l) \<in> X)"



lemma leases_in_del [intro]: "leases_in owner X leases \<Longrightarrow> leases_in owner X (gm_del k leases)"
  by (simp add: leases_in_def gm_get_del)




lemma grant_new_store [simp]: "sy_store (grant_new key owner sys sys') = sy_store sys'"
  by (simp add: grant_new_def split: option.splits)
















section \<open>Batches as histories\<close>

definition extends :: "(string \<Rightarrow> string) \<Rightarrow> CallSystem \<Rightarrow> CallSystem \<Rightarrow> bool" where
  "extends sha sys sys' \<longleftrightarrow> (\<exists>ops. run_ok (call_step sha) call_guard sys ops \<and> sys' = run (call_step sha) sys ops)"

lemma extends_refl [simp, intro]: "extends sha sys sys"
  unfolding extends_def by (rule exI [of _ "[]"]) simp































text \<open>
  The hypothesis on the context is needed: \<open>release\<close> uses the caller's context, so after a
  cancellation the store refuses it and the lease stays until its deadline.
\<close>

lemma release_after_cancel:
  assumes "wo_cause (en_other env w) = Some cause"
  shows "wo_store (Runtime_release env r h w) = wo_store (en_other env w)"
  using assms
  by (auto simp: Runtime_release_def world_call_def Let_def Release_def guarded_def wo_cause_def split: option.splits prod.splits)

section \<open>Witnesses\<close>
















end
