(* ===== verification/Go_Time.thy ===== *)
theory Go_Time
  imports Text_Encoding "HOL-Library.Monad_Syntax"
begin

text \<open>
  Calendar times as Go's \<open>time\<close> package prints and reads them in the layout \<open>RFC3339Nano\<close>, in UTC. A
  time counts nanoseconds since the start of year one, so the calendar is the proleptic Gregorian
  one. Reading undoes printing exactly for the years 0 to 9999.
\<close>

section \<open>The calendar\<close>

text \<open>
  The year, counted from one, and the day within it, counted from zero, of a day number; the last
  day of a leap year and of a leap century belongs to the group it ends.
\<close>

definition civil_year :: "int \<Rightarrow> int \<times> int" where
  "civil_year days =
     (let a = days div 146097; d1 = days mod 146097;
          b = d1 div 36524 - d1 div 36524 div 4; d2 = d1 - 36524 * b;
          c = d2 div 1461; d3 = d2 mod 1461;
          e = d3 div 365 - d3 div 365 div 4
      in (400 * a + 100 * b + 4 * c + e + 1, d3 - 365 * e))"

definition days_before_year :: "int \<Rightarrow> int" where
  "days_before_year year = (let n = year - 1 in
     146097 * (n div 400) + 36524 * (n mod 400 div 100) + 1461 * (n mod 100 div 4) + 365 * (n mod 4))"

definition is_leap :: "int \<Rightarrow> bool" where
  "is_leap year \<longleftrightarrow> year mod 4 = 0 \<and> (year mod 100 \<noteq> 0 \<or> year mod 400 = 0)"

definition month_lengths :: "int \<Rightarrow> int list" where
  "month_lengths year = [31, if is_leap year then 29 else 28, 31, 30, 31, 30, 31, 31, 30, 31, 30, 31]"

text \<open>Month and day, both from zero, of a day of the year.\<close>

fun month_day :: "int list \<Rightarrow> int \<Rightarrow> nat \<times> int" where
  "month_day [] d = (0, d)"
| "month_day (l # ls) d = (if d < l then (0, d) else let (m, r) = month_day ls (d - l) in (Suc m, r))"

lemma int_div_mod:
  fixes m q r :: int
  assumes "0 \<le> r" and "r < m"
  shows "(m * q + r) div m = q" and "(m * q + r) mod m = r"
  using assms int_div_pos_eq int_mod_pos_eq by blast+

lemma civil_parts:
  fixes a b c e :: int
  assumes "0 \<le> b" "b \<le> 3" "0 \<le> c" "c \<le> 24" "0 \<le> e" "e \<le> 3"
  defines "n \<equiv> 400 * a + 100 * b + 4 * c + e"
  shows "days_before_year (n + 1) = 146097 * a + 36524 * b + 1461 * c + 365 * e"
    and "is_leap (n + 1) \<longleftrightarrow> e = 3 \<and> (c \<noteq> 24 \<or> b = 3)"
proof -
  have 1: "n = 400 * a + (100 * b + 4 * c + e)" and 2: "n = 100 * (4 * a + b) + (4 * c + e)"
    and 3: "n = 4 * (100 * a + 25 * b + c) + e"
    by (simp_all add: n_def)
  have "n div 400 = a" "n mod 400 = 100 * b + (4 * c + e)" unfolding 1 using assms by (subst int_div_mod; simp)+
  moreover have "n mod 100 = 4 * c + e" unfolding 2 using assms by (subst int_div_mod; simp)
  moreover have "n mod 4 = e" unfolding 3 using assms by (subst int_div_mod; simp)
  moreover have "(100 * b + (4 * c + e)) div 100 = b" "(4 * c + e) div 4 = c" using assms by (subst int_div_mod; simp)+
  ultimately show "days_before_year (n + 1) = 146097 * a + 36524 * b + 1461 * c + 365 * e"
    by (simp add: days_before_year_def)
  have four: "(n + 1) mod 4 = 0 \<longleftrightarrow> e = 3"
  proof (cases "e = 3")
    case True
    then have "n + 1 = 4 * (100 * a + 25 * b + c + 1)" by (simp add: n_def)
    then show ?thesis using True by simp
  next
    case False
    have eq: "n + 1 = 4 * (100 * a + 25 * b + c) + (e + 1)" by (simp add: 3)
    have "(n + 1) mod 4 = e + 1" unfolding eq by (rule int_div_mod(2)) (use False assms(1-6) in auto)
    then show ?thesis using False assms by simp
  qed
  have hundred: "(n + 1) mod 100 = 0 \<longleftrightarrow> c = 24" if "e = 3"
  proof (cases "c = 24")
    case True
    then have "n + 1 = 100 * (4 * a + b + 1)" using that by (simp add: n_def)
    then show ?thesis using True by simp
  next
    case False
    have eq: "n + 1 = 100 * (4 * a + b) + (4 * c + 4)" using that by (simp add: n_def)
    have "(n + 1) mod 100 = 4 * c + 4" unfolding eq by (rule int_div_mod(2)) (use False assms(1-6) in auto)
    then show ?thesis using False assms by simp
  qed
  have "(n + 1) mod 400 = 0 \<longleftrightarrow> b = 3" if "e = 3" "c = 24"
  proof (cases "b = 3")
    case True
    then have "n + 1 = 400 * (a + 1)" using that by (simp add: n_def)
    then show ?thesis using True by simp
  next
    case False
    have eq: "n + 1 = 400 * a + (100 * b + 100)" using that by (simp add: n_def)
    have "(n + 1) mod 400 = 100 * b + 100" unfolding eq by (rule int_div_mod(2)) (use False assms(1-6) in auto)
    then show ?thesis using False assms by simp
  qed
  then show "is_leap (n + 1) \<longleftrightarrow> e = 3 \<and> (c \<noteq> 24 \<or> b = 3)" using four hundred by (auto simp: is_leap_def)
qed

lemma div_bound:
  fixes x m k :: int
  assumes "0 < m" and "x < k * m"
  shows "x div m < k"
proof (rule ccontr)
  assume "\<not> x div m < k"
  then have "k * m \<le> x div m * m" using assms(1) by (intro mult_right_mono) auto
  moreover have "x div m * m + x mod m = x" "0 \<le> x mod m" using assms(1) by simp_all
  ultimately show False using assms(2) by linarith
qed

lemma greedy_quotient:
  fixes d m :: int
  assumes "0 < m" and "0 \<le> d" and "d \<le> 4 * m" and "q = d div m - d div m div 4"
  shows "0 \<le> q \<and> q \<le> 3 \<and> 0 \<le> d - m * q \<and> d - m * q \<le> m \<and> (d - m * q = m \<longrightarrow> q = 3)"
proof (cases "d = 4 * m")
  case True
  then show ?thesis using assms(1,4) by simp
next
  case False
  have "d div m < 4" using assms(1,3) False by (intro div_bound) auto
  moreover have "0 \<le> d div m" using assms(1,2) by (simp add: pos_imp_zdiv_nonneg_iff)
  ultimately have "d div m div 4 = 0" "0 \<le> d div m" "d div m < 4" by simp_all
  moreover have "d - m * (d div m) = d mod m" by (simp add: minus_mult_div_eq_mod)
  moreover have "d mod m \<noteq> m" using pos_mod_bound [OF assms(1), of d] by linarith
  ultimately show ?thesis using assms(1,4) by (simp add: less_imp_le)
qed

lemma civil_year_inverse:
  assumes "civil_year days = (year, yday)"
  shows "days_before_year year + yday = days" and "0 \<le> yday" and "yday < (if is_leap year then 366 else 365)"
proof -
  define a d1 where "a = days div 146097" and "d1 = days mod 146097"
  define b where "b = d1 div 36524 - d1 div 36524 div 4"
  define d2 where "d2 = d1 - 36524 * b"
  define c d3 where "c = d2 div 1461" and "d3 = d2 mod 1461"
  define e where "e = d3 div 365 - d3 div 365 div 4"
  have res: "year = 400 * a + 100 * b + 4 * c + e + 1" "yday = d3 - 365 * e"
    using assms by (simp_all only: civil_year_def Let_def prod.inject a_def d1_def b_def d2_def c_def d3_def e_def)
  have d1: "0 \<le> d1" "d1 \<le> 4 * 36524" "days = 146097 * a + d1"
    using pos_mod_bound [of 146097 days] by (simp_all add: d1_def a_def)
  have b: "0 \<le> b" "b \<le> 3" "0 \<le> d2" "d2 \<le> 36524" "d2 = 36524 \<longrightarrow> b = 3"
    using greedy_quotient [OF _ d1(1,2) b_def] by (simp_all add: d2_def)
  have c: "d2 = 1461 * c + d3" "0 \<le> d3" "d3 \<le> 4 * 365"
    using pos_mod_bound [of 1461 d2] by (simp_all add: c_def d3_def)
  have c24: "0 \<le> c" "c \<le> 24" using b c by linarith+
  have e: "0 \<le> e" "e \<le> 3" "0 \<le> yday" "yday \<le> 365" "yday = 365 \<longrightarrow> e = 3"
    using greedy_quotient [OF _ c(2,3) e_def] by (simp_all add: res)
  note parts = civil_parts [OF b(1,2) c24 e(1,2), of a, folded res(1)]
  show "days_before_year year + yday = days" using parts(1) c(1) d1(3) d2_def res(2) by linarith
  show "0 \<le> yday" by (rule e)
  have "is_leap year" if "yday = 365"
  proof -
    have "e = 3" using e that by simp
    moreover have "c = 24 \<Longrightarrow> d2 = 36524" using c(1) res(2) that calculation b by linarith
    ultimately show ?thesis using parts(2) b(5) by auto
  qed
  then show "yday < (if is_leap year then 366 else 365)" using e by fastforce
qed

lemma month_day_inverse:
  assumes "month_day ls d = (m, r)" and "0 \<le> d" and "d < sum_list ls" and "list_all ((<) 0) ls"
  shows "sum_list (take m ls) + r = d \<and> m < length ls \<and> 0 \<le> r \<and> r < ls ! m"
  using assms
proof (induction ls arbitrary: d m)
  case (Cons l ls)
  then show ?case by (cases "d < l") (fastforce split: prod.splits)+
qed simp

section \<open>Printing\<close>

definition pad :: "nat \<Rightarrow> nat \<Rightarrow> string" where
  "pad width n = replicate (width - length (digits n)) (CHR ''0'') @ digits n"

definition pad_int :: "nat \<Rightarrow> int \<Rightarrow> string" where
  "pad_int width n = (if n < 0 then CHR ''-'' # pad width (nat (- n)) else pad width (nat n))"

text \<open>The fraction of a second without trailing zeros, nothing for a full second.\<close>

definition fraction_text :: "nat \<Rightarrow> string" where
  "fraction_text ns = (if ns = 0 then []
     else CHR ''.'' # rev (dropWhile (\<lambda>c. c = CHR ''0'') (rev (pad 9 ns))))"

definition day :: duration where "day = 24 * hour"

definition time_year :: "go_time \<Rightarrow> int" where
  "time_year t = fst (civil_year (t div day))"

definition clock_text :: "int \<Rightarrow> string" where
  "clock_text ns = pad 2 (nat (ns div hour)) @ '':'' @ pad 2 (nat (ns div minute mod 60)) @ '':'' @
     pad 2 (nat (ns div second mod 60)) @ fraction_text (nat (ns mod second)) @ ''Z''"

text \<open>\<open>t.UTC().Format(time.RFC3339Nano)\<close>\<close>

definition time_Format :: "go_time \<Rightarrow> string" where
  "time_Format t = (let (year, yday) = civil_year (t div day); (m, d) = month_day (month_lengths year) yday in
     pad_int 4 year @ ''-'' @ pad 2 (m + 1) @ ''-'' @ pad 2 (nat d + 1) @ ''T'' @ clock_text (t mod day))"

section \<open>Reading\<close>

definition read_digits :: "nat \<Rightarrow> string \<Rightarrow> (nat \<times> string) option" where
  "read_digits width s = (if length (take width s) = width \<and> list_all is_digit (take width s)
     then Some (digits_val (take width s), drop width s) else None)"

definition expect :: "char \<Rightarrow> string \<Rightarrow> string option" where
  "expect c s = (case s of [] \<Rightarrow> None | x # t \<Rightarrow> if x = c then Some t else None)"

definition read_fraction :: "string \<Rightarrow> (nat \<times> string) option" where
  "read_fraction s = (case expect (CHR ''.'') s of None \<Rightarrow> Some (0, s)
   | Some t \<Rightarrow> (let ds = takeWhile is_digit t in
       if ds = [] \<or> 9 < length ds then None else Some (digits_val ds * 10 ^ (9 - length ds), dropWhile is_digit t)))"

text \<open>Nanoseconds of the day from the clock and the zone \<open>Z\<close>.\<close>

definition read_clock :: "string \<Rightarrow> int option" where
  "read_clock s = do {
     (h, s) \<leftarrow> read_digits 2 s; s \<leftarrow> expect (CHR '':'') s;
     (mi, s) \<leftarrow> read_digits 2 s; s \<leftarrow> expect (CHR '':'') s;
     (se, s) \<leftarrow> read_digits 2 s; (ns, s) \<leftarrow> read_fraction s; s \<leftarrow> expect (CHR ''Z'') s;
     if s = [] \<and> h < 24 \<and> mi < 60 \<and> se < 60
     then Some (int h * hour + int mi * minute + int se * second + int ns) else None }"

definition read_date :: "string \<Rightarrow> (int \<times> string) option" where
  "read_date s = do {
     (y, s) \<leftarrow> read_digits 4 s; s \<leftarrow> expect (CHR ''-'') s;
     (m, s) \<leftarrow> read_digits 2 s; s \<leftarrow> expect (CHR ''-'') s;
     (d, s) \<leftarrow> read_digits 2 s; s \<leftarrow> expect (CHR ''T'') s;
     let ls = month_lengths (int y) in
     if 1 \<le> m \<and> m \<le> 12 \<and> 1 \<le> d \<and> int d \<le> ls ! (m - 1)
     then Some (days_before_year (int y) + sum_list (take (m - 1) ls) + int d - 1, s) else None }"

text \<open>
  \<open>time.Parse(time.RFC3339Nano, s)\<close> on the texts that \<open>Format\<close> writes. The package also reads other
  zones, a comma as the decimal sign and longer fractions; the framework rejects them all by
  comparing the text with the format of the result, as \<open>parse_canonical\<close> does.
\<close>

definition time_Parse :: "string \<Rightarrow> go_time option" where
  "time_Parse s = do { (days, s) \<leftarrow> read_date s; ns \<leftarrow> read_clock s; Some (days * day + ns) }"

definition parse_canonical :: "string \<Rightarrow> go_time option" where
  "parse_canonical s = (case time_Parse s of None \<Rightarrow> None
   | Some t \<Rightarrow> if s = time_Format t then Some t else None)"

section \<open>Reading undoes printing\<close>

lemma length_digits: "n < 10 ^ w \<Longrightarrow> 0 < w \<Longrightarrow> length (digits n) \<le> w"
proof (induction w arbitrary: n)
  case (Suc w)
  show ?case
  proof (cases "n < 10")
    case True
    then show ?thesis by (subst digits.simps) simp
  next
    case False
    have "w \<noteq> 0" using False Suc.prems(1) by (cases w) auto
    then have "length (digits (n div 10)) \<le> w" using Suc.prems(1) by (intro Suc.IH) auto
    with False show ?thesis by (subst digits.simps) simp
  qed
qed simp

lemma digits_val_append: "digits_val (s @ t) = digits_val s * 10 ^ length t + digits_val t"
proof -
  have "foldl (\<lambda>n c. n * 10 + digit_val c) a t = a * 10 ^ length t + foldl (\<lambda>n c. n * 10 + digit_val c) 0 t" for a
  proof (induction t arbitrary: a)
    case (Cons c t)
    show ?case using Cons [of "a * 10 + digit_val c"] Cons [of "digit_val c"] by (simp add: algebra_simps)
  qed simp
  then show ?thesis unfolding digits_val_def foldl_append .
qed

lemma digits_val_zeros [simp]: "digits_val (replicate k (CHR ''0'')) = 0"
  by (induction k) (simp_all add: digits_val_def digit_val_def byte_of_def)

lemma pad_props:
  assumes "n < 10 ^ w" and "0 < w"
  shows "length (pad w n) = w" "list_all is_digit (pad w n)" "digits_val (pad w n) = n"
proof -
  have "is_digit (CHR ''0'')" by (simp add: is_digit_def in_range_def byte_of_def)
  then show "list_all is_digit (pad w n)" using digits_digits [of n] by (auto simp: pad_def list_all_iff)
  show "length (pad w n) = w" using length_digits [OF assms] by (simp add: pad_def)
  show "digits_val (pad w n) = n" by (simp add: pad_def digits_val_append digits_val_digits)
qed

lemma read_digits_pad: "n < 10 ^ w \<Longrightarrow> 0 < w \<Longrightarrow> read_digits w (pad w n @ s) = Some (n, s)"
  using pad_props [of n w] by (simp add: read_digits_def)

lemma read_fraction_text:
  assumes "n < 10 ^ 9"
  shows "read_fraction (fraction_text n @ ''Z'') = Some (n, ''Z'')"
proof (cases "n = 0")
  case True
  then show ?thesis by (simp add: fraction_text_def read_fraction_def expect_def)
next
  case False
  define f where "f = rev (dropWhile (\<lambda>c. c = CHR ''0'') (rev (pad 9 n)))"
  define z where "z = rev (takeWhile (\<lambda>c. c = CHR ''0'') (rev (pad 9 n)))"
  have split: "pad 9 n = f @ z" unfolding f_def z_def rev_append [symmetric] takeWhile_dropWhile_id by simp
  have z: "z = replicate (length z) (CHR ''0'')"
    by (rule replicate_eqI) (auto simp: z_def dest: set_takeWhileD)
  note p = pad_props [OF assms, unfolded split]
  have val: "digits_val f * 10 ^ length z = n"
    using p(3) by (simp add: digits_val_append) (metis add.right_neutral digits_val_zeros z)
  have "length f + length z = 9" using p(1) by simp
  then have len: "length f \<le> 9" "length z = 9 - length f" by simp_all
  have f: "f \<noteq> []" "list_all is_digit f" using val False p(2) by (auto simp: digits_val_def)
  have stop: "\<not> is_digit (CHR ''Z'')" by (simp add: is_digit_def in_range_def byte_of_def)
  have "takeWhile is_digit (f @ ''Z'') = f" "dropWhile is_digit (f @ ''Z'') = ''Z''"
    using f(2) stop by (simp_all add: takeWhile_append2 dropWhile_append2 list_all_iff)
  then show ?thesis
    using False f(1) len val by (simp add: fraction_text_def read_fraction_def expect_def Let_def flip: f_def)
qed

lemma expect_Cons [simp]: "expect c (c # s) = Some s"
  by (simp add: expect_def)

lemma read_clock_text:
  assumes "0 \<le> ns" and "ns < day"
  shows "read_clock (clock_text ns) = Some ns"
proof -
  have pos: "0 < hour" "0 < minute" "0 < second" by (simp_all add: duration_defs)
  have h: "nat (ns div hour) < 24"
    using div_bound [OF pos(1), of ns 24] pos_imp_zdiv_nonneg_iff [OF pos(1)] assms by (simp add: day_def nat_less_iff)
  have b: "nat (ns div minute mod 60) < 60" "nat (ns div second mod 60) < 60" "nat (ns mod second) < 10 ^ 9"
    using pos_mod_bound [of 60 "ns div minute"] pos_mod_bound [of 60 "ns div second"] pos_mod_bound [of second ns]
    pos by (simp_all add: nat_less_iff) (simp add: duration_defs)
  have "ns div hour = ns div minute div 60" "ns div minute = ns div second div 60"
    using zdiv_zmult2_eq [of 60 ns minute] zdiv_zmult2_eq [of 60 ns second] by (simp_all add: hour_def minute_def mult.commute)
  then have "ns div hour * hour + ns div minute mod 60 * minute + ns div second mod 60 * second + ns mod second = ns"
    using div_mult_mod_eq [of "ns div minute" 60] div_mult_mod_eq [of "ns div second" 60] div_mult_mod_eq [of ns second]
    unfolding hour_def minute_def second_def by linarith
  moreover have "0 \<le> ns div hour" "0 \<le> ns div minute mod 60" "0 \<le> ns div second mod 60" "0 \<le> ns mod second"
    using assms(1) pos pos_imp_zdiv_nonneg_iff by simp_all
  ultimately have sum: "int (nat (ns div hour)) * hour + int (nat (ns div minute mod 60)) * minute +
    int (nat (ns div second mod 60)) * second + int (nat (ns mod second)) = ns" by simp
  show ?thesis
    using h b sum read_fraction_text [OF b(3)] by (simp add: read_clock_def clock_text_def read_digits_pad)
qed

lemma month_lengths_sum: "sum_list (month_lengths year) = (if is_leap year then 366 else 365)"
  "list_all ((<) 0) (month_lengths year)" "length (month_lengths year) = 12" "list_all (\<lambda>l. l \<le> 31) (month_lengths year)"
  by (simp_all add: month_lengths_def)

text \<open>The parts of a date, all in range.\<close>

lemma date_parts:
  assumes "civil_year days = (year, yday)" and "month_day (month_lengths year) yday = (m, d)"
  shows "days_before_year year + sum_list (take m (month_lengths year)) + d = days" and "m < 12" and "0 \<le> d"
    and "d < month_lengths year ! m" and "d < 31"
proof -
  note y = civil_year_inverse [OF assms(1)]
  have m: "sum_list (take m (month_lengths year)) + d = yday \<and> m < 12 \<and> 0 \<le> d \<and> d < month_lengths year ! m"
    using month_day_inverse [OF assms(2) y(2)] y(3) month_lengths_sum by metis
  then show "days_before_year year + sum_list (take m (month_lengths year)) + d = days" "m < 12" "0 \<le> d"
    "d < month_lengths year ! m" using y(1) by simp_all
  have "month_lengths year ! m \<le> 31" using m month_lengths_sum(3,4) by (simp add: list_all_length)
  then show "d < 31" using m by simp
qed

lemma read_date_text:
  assumes "civil_year days = (year, yday)" and "month_day (month_lengths year) yday = (m, d)" and "0 \<le> year" and "year \<le> 9999"
  shows "read_date (pad_int 4 year @ ''-'' @ pad 2 (m + 1) @ ''-'' @ pad 2 (nat d + 1) @ ''T'' @ s) = Some (days, s)"
proof -
  note p = date_parts [OF assms(1,2)]
  have b: "nat year < 10 ^ 4" "m + 1 < 10 ^ 2" "nat d + 1 < 10 ^ 2" using p assms(3,4) by auto
  have "read_digits 4 (pad_int 4 year @ u) = Some (nat year, u)" for u
    using read_digits_pad [OF b(1)] assms(3) by (simp add: pad_int_def)
  then show ?thesis
    using read_digits_pad [OF b(2)] read_digits_pad [OF b(3)] p assms(3) by (simp add: read_date_def Let_def)
qed

lemma length_digits_lower: "10 ^ w \<le> n \<Longrightarrow> w < length (digits n)"
proof (induction w arbitrary: n)
  case (Suc w)
  have "\<not> n < 10" using Suc.prems by (metis le_trans not_less one_le_numeral self_le_power zero_less_Suc)
  moreover have "w < length (digits (n div 10))" using Suc.prems by (intro Suc.IH) auto
  ultimately show ?case by (subst digits.simps) simp
qed simp

lemma read_date_year:
  assumes "year < 0 \<or> 9999 < year"
  shows "read_date (pad_int 4 year @ s) = None"
proof (cases "year < 0")
  case True
  have "\<not> is_digit (CHR ''-'')" by (simp add: is_digit_def in_range_def byte_of_def)
  then show ?thesis using True by (simp add: read_date_def read_digits_def pad_int_def)
next
  case False
  let ?ds = "digits (nat year)"
  have len: "4 < length ?ds" using assms False by (intro length_digits_lower) auto
  have "?ds ! 4 \<noteq> CHR ''-''" using digits_digits [of "nat year"] len
    by (auto simp: list_all_length is_digit_def in_range_def byte_of_def)
  moreover have "drop 4 ?ds = ?ds ! 4 # drop 5 ?ds" using len Cons_nth_drop_Suc [of 4 ?ds] by simp
  ultimately have "expect (CHR ''-'') (drop 4 (?ds @ s)) = None" using len by (simp add: expect_def)
  then show ?thesis using len False by (auto simp: read_date_def read_digits_def pad_int_def pad_def)
qed

theorem parse_canonical_Format:
  "parse_canonical (time_Format t) = (if 0 \<le> time_year t \<and> time_year t \<le> 9999 then Some t else None)"
proof -
  obtain year yday where y: "civil_year (t div day) = (year, yday)" by fastforce
  obtain m d where m: "month_day (month_lengths year) yday = (m, d)" by fastforce
  have f: "time_Format t = pad_int 4 year @ ''-'' @ pad 2 (m + 1) @ ''-'' @ pad 2 (nat d + 1) @ ''T'' @ clock_text (t mod day)"
    by (simp add: time_Format_def y m)
  have "0 < day" by (simp add: day_def duration_defs)
  then have "read_clock (clock_text (t mod day)) = Some (t mod day)" by (intro read_clock_text) simp_all
  then have "time_Parse (time_Format t) = Some t" if "0 \<le> year" "year \<le> 9999"
    using read_date_text [OF y m that] by (simp add: time_Parse_def f)
  moreover have "time_Parse (time_Format t) = None" if "\<not> (0 \<le> year \<and> year \<le> 9999)"
    using read_date_year [of year] that by (auto simp: time_Parse_def f)
  ultimately show ?thesis by (auto simp: parse_canonical_def time_year_def y)
qed

lemma parse_canonical_sound: "parse_canonical s = Some t \<Longrightarrow> s = time_Format t"
  by (auto simp: parse_canonical_def split: option.splits if_splits)

lemma time_Format_nonempty: "time_Format t \<noteq> []"
  by (simp add: time_Format_def split: prod.splits)

lemma digits_graphic: "list_all is_digit s \<Longrightarrow> graphic s"
  by (auto simp: graphic_def list_all_iff is_digit_def in_range_def)

lemma pad_graphic: "graphic (pad w n)" "graphic (pad_int w i)"
proof -
  have pad: "graphic (pad w n)" for n
    using digits_graphic [OF digits_digits] by (simp add: pad_def) (simp add: graphic_def list_all_iff byte_of_def)
  then show "graphic (pad w n)" "graphic (pad_int w i)" by (simp_all add: pad_int_def) (simp add: byte_of_def)
qed

lemma fraction_graphic: "graphic (fraction_text n)"
  using pad_graphic(1) [of 9 n] set_dropWhileD [of _ _ "rev (pad 9 n)"]
  by (fastforce simp: fraction_text_def graphic_def list_all_iff byte_of_def [of "CHR ''.''"])

lemma time_Format_graphic: "graphic (time_Format t)"
  by (simp add: time_Format_def clock_text_def pad_graphic fraction_graphic split: prod.splits) (simp add: byte_of_def)

end
