(* ===== verification/Json_Strings.thy ===== *)
theory Json_Strings
  imports Text_Encoding
begin

text \<open>
  String literals of \<open>encoding/json\<close>: how \<open>Marshal\<close> escapes the runes of a string, how the decoder
  reads a literal, and that reading undoes writing for valid UTF-8.
\<close>

declare DecodeRune.simps(2) [simp del]

section \<open>Strings\<close>

text \<open>\<open>utf8.AppendRune\<close>\<close>

definition EncodeRune :: "rune \<Rightarrow> string" where
  "EncodeRune r =
     (if r < 128 then [char_of r]
      else if r < 2048 then [char_of (192 + r div 64), char_of (128 + r mod 64)]
      else if r < 65536 then [char_of (224 + r div 4096), char_of (128 + r div 64 mod 64), char_of (128 + r mod 64)]
      else [char_of (240 + r div 262144), char_of (128 + r div 4096 mod 64), char_of (128 + r div 64 mod 64),
        char_of (128 + r mod 64)])"

definition hex4 :: "nat \<Rightarrow> string" where
  "hex4 n = [lower_hex (n div 4096 mod 16), lower_hex (n div 256 mod 16), lower_hex (n div 16 mod 16), lower_hex (n mod 16)]"

text \<open>How \<open>Marshal\<close> writes one rune of a string; \<open>raw\<close> are its bytes.\<close>

definition json_escape :: "rune \<Rightarrow> nat \<Rightarrow> string \<Rightarrow> string" where
  "json_escape r width raw =
     (if r < 128 then
        (if r = 34 \<or> r = 92 then CHR 0x5C # raw
         else if r = 8 then [CHR 0x5C, CHR ''b'']
         else if r = 12 then [CHR 0x5C, CHR ''f'']
         else if r = 10 then [CHR 0x5C, CHR ''n'']
         else if r = 13 then [CHR 0x5C, CHR ''r'']
         else if r = 9 then [CHR 0x5C, CHR ''t'']
         else if r < 32 \<or> r = 60 \<or> r = 62 \<or> r = 38 then [CHR 0x5C, CHR ''u''] @ hex4 r
         else raw)
      else if r = RuneError \<and> width = 1 then [CHR 0x5C, CHR ''u''] @ hex4 RuneError
      else if r = 8232 \<or> r = 8233 then [CHR 0x5C, CHR ''u''] @ hex4 r
      else raw)"

function json_body :: "string \<Rightarrow> string" where
  "json_body s = (if s = [] then []
     else (let (r, width) = DecodeRune s in json_escape r width (take width s) @ json_body (drop width s)))"
  by pat_completeness auto
termination
  by (relation "measure length") (use DecodeRune_width_pos in \<open>auto simp: prod_eq_iff\<close>)

declare json_body.simps [simp del]

definition json_quote :: "string \<Rightarrow> string" where
  "json_quote s = CHR 0x22 # json_body s @ [CHR 0x22]"

text \<open>Reading four hexadecimal digits, and one escape after its backslash.\<close>

fun read_hex4 :: "string \<Rightarrow> (nat \<times> string) option" where
  "read_hex4 (a # b # c # d # s) = (case (hex_value a, hex_value b, hex_value c, hex_value d) of
     (Some w, Some x, Some y, Some z) \<Rightarrow> Some (w * 4096 + x * 256 + y * 16 + z, s) | _ \<Rightarrow> None)"
| "read_hex4 _ = None"

fun read_pair :: "nat \<Rightarrow> string \<Rightarrow> string \<times> string" where
  "read_pair high s = (case s of
     a # b # t \<Rightarrow> (if a = CHR 0x5C \<and> b = CHR ''u'' then
       (case read_hex4 t of
          Some (low, u) \<Rightarrow> if high < 56320 \<and> in_range 56320 57343 low
            then (EncodeRune ((high - 55296) * 1024 + (low - 56320) + 65536), u) else (EncodeRune RuneError, s)
        | None \<Rightarrow> (EncodeRune RuneError, s))
       else (EncodeRune RuneError, s))
   | _ \<Rightarrow> (EncodeRune RuneError, s))"

definition read_escape :: "string \<Rightarrow> (string \<times> string) option" where
  "read_escape s = (case s of [] \<Rightarrow> None
   | c # t \<Rightarrow>
     if c = CHR 0x22 \<or> c = CHR 0x5C \<or> c = CHR ''/'' then Some ([c], t)
     else if c = CHR ''b'' then Some ([CHR 0x08], t)
     else if c = CHR ''f'' then Some ([CHR 0x0C], t)
     else if c = CHR ''n'' then Some ([CHR 0x0A], t)
     else if c = CHR ''r'' then Some ([CHR 0x0D], t)
     else if c = CHR ''t'' then Some ([CHR 0x09], t)
     else if c = CHR ''u'' then
       (case read_hex4 t of None \<Rightarrow> None
        | Some (r, u) \<Rightarrow> if in_range 55296 57343 r then Some (read_pair r u) else Some (EncodeRune r, u))
     else None)"

lemma read_hex4_shorter: "read_hex4 s = Some (n, t) \<Longrightarrow> length t < length s"
  by (cases s rule: read_hex4.cases) (auto split: option.splits)

lemma read_pair_shorter: "length (snd (read_pair r s)) \<le> length s"
  using read_hex4_shorter by (fastforce split: list.splits option.splits)

lemma read_escape_shorter: "read_escape s = Some (v, t) \<Longrightarrow> length t < length s"
proof -
  assume r: "read_escape s = Some (v, t)"
  have "length t < length u" if "read_hex4 u = Some (n, u')" "read_pair n u' = (v, t)" for n u u'
    using read_hex4_shorter [OF that(1)] read_pair_shorter [of n u'] that(2) by simp
  then show ?thesis
    using r read_hex4_shorter
    by (fastforce simp: read_escape_def simp del: read_pair.simps split: list.splits if_splits option.splits)
qed

text \<open>
  The rest of a string literal after its opening quote: the decoded bytes and what follows the
  closing quote. Invalid UTF-8 becomes the replacement character.
\<close>

function json_unquote :: "string \<Rightarrow> (string \<times> string) option" where
  "json_unquote s = (case s of [] \<Rightarrow> None
   | c # t \<Rightarrow>
     if c = CHR 0x22 then Some ([], t)
     else if c = CHR 0x5C then (case read_escape t of None \<Rightarrow> None
       | Some (v, u) \<Rightarrow> map_option (map_prod ((@) v) id) (json_unquote u))
     else if byte_of c < 32 then None
     else map_option (map_prod ((@) (if DecodeRune s = (RuneError, 1) then EncodeRune RuneError
         else take (snd (DecodeRune s)) s)) id) (json_unquote (drop (snd (DecodeRune s)) s)))"
  by pat_completeness auto
termination
proof (relation "measure length", goal_cases)
  case (2 s c t v u w)
  then show ?case using read_escape_shorter by fastforce
next
  case (3 s c t)
  then show ?case using DecodeRune_width_pos [of s] by simp
qed simp

declare json_unquote.simps [simp del]

lemma json_unquote_shorter: "json_unquote s = Some (v, t) \<Longrightarrow> length t < length s"
proof (induction s arbitrary: v rule: json_unquote.induct)
  case (1 s)
  from 1(3) show ?case
    by (subst (asm) json_unquote.simps)
      (use 1(1,2) read_escape_shorter in \<open>fastforce split: list.splits if_splits option.splits\<close>)
qed

text \<open>The four shapes of a valid encoding.\<close>

lemma DecodeRune_shapes:
  assumes "DecodeRune (c # t) = (r, w)" and "(r, w) \<noteq> (RuneError, 1)"
  obtains "byte_of c < 128" "r = byte_of c" "w = 1"
  | d u where "t = d # u" "in_range 194 223 (byte_of c)" "cont_byte d" "w = 2"
      "r = byte_of c mod 32 * 64 + byte_of d mod 64"
  | d e u where "t = d # e # u" "in_range 224 239 (byte_of c)" "cont_byte e" "w = 3"
      "in_range (fst (second_range (byte_of c))) (snd (second_range (byte_of c))) (byte_of d)"
      "r = byte_of c mod 16 * 4096 + byte_of d mod 64 * 64 + byte_of e mod 64"
  | d e f u where "t = d # e # f # u" "in_range 240 244 (byte_of c)" "cont_byte e" "cont_byte f" "w = 4"
      "in_range (fst (second_range (byte_of c))) (snd (second_range (byte_of c))) (byte_of d)"
      "r = byte_of c mod 8 * 262144 + byte_of d mod 64 * 4096 + byte_of e mod 64 * 64 + byte_of f mod 64"
  using assms
  by (cases "second_range (byte_of c)") (fastforce simp: DecodeRune.simps(2) Let_def split: if_splits list.splits)

lemma DecodeRune_append:
  assumes "DecodeRune (c # t) = (r, w)" and "(r, w) \<noteq> (RuneError, 1)"
  shows "DecodeRune (take w (c # t) @ u) = (r, w)"
proof (cases rule: DecodeRune_shapes [OF assms])
  case 1
  then show ?thesis by simp
next
  case 2
  then show ?thesis by (simp add: DecodeRune.simps(2) Let_def case_prod_beta in_range_def)
next
  case 3
  then show ?thesis by (simp add: DecodeRune.simps(2) Let_def case_prod_beta in_range_def)
next
  case 4
  then show ?thesis by (simp add: DecodeRune.simps(2) Let_def case_prod_beta in_range_def)
qed

text \<open>The bytes of a rune from its bits.\<close>

lemma mod_window: "m * k \<le> b \<Longrightarrow> b < m * k + m \<Longrightarrow> b mod m = b - m * (k :: nat)"
  using mod_mult_self2 [of "b - m * k" m k] by simp

lemma lead_mod:
  "in_range 194 223 b \<Longrightarrow> 192 + b mod 32 = b \<and> 2 \<le> b mod 32"
  "in_range 224 239 b \<Longrightarrow> 224 + b mod 16 = b"
  "in_range 240 244 b \<Longrightarrow> 240 + b mod 8 = b \<and> b mod 8 < 5"
  "in_range 128 191 b \<Longrightarrow> 128 + b mod 64 = b"
  using mod_window [of 32 6 b] mod_window [of 16 14 b] mod_window [of 8 30 b] mod_window [of 64 2 b]
  by (auto simp: in_range_def)

lemma rune_bits:
  fixes x y z v :: nat
  assumes "y < 64" and "z < 64" and "v < 64"
  shows "(x * 64 + y) div 64 = x" "(x * 64 + y) mod 64 = y"
    "(x * 4096 + y * 64 + z) div 4096 = x" "(x * 4096 + y * 64 + z) div 64 mod 64 = y"
    "(x * 4096 + y * 64 + z) mod 64 = z"
    "(x * 262144 + y * 4096 + z * 64 + v) div 262144 = x" "(x * 262144 + y * 4096 + z * 64 + v) div 4096 mod 64 = y"
    "(x * 262144 + y * 4096 + z * 64 + v) div 64 mod 64 = z" "(x * 262144 + y * 4096 + z * 64 + v) mod 64 = v"
proof -
  have b: "(q * m + k) div m = q" "(q * m + k) mod m = k" if "k < m" for q m k :: nat using that by simp_all
  have 2: "x * 4096 + y * 64 + z = (x * 64 + y) * 64 + z" "x * 4096 + y * 64 + z = x * 4096 + (y * 64 + z)" "y * 64 + z < 4096"
    using assms by simp_all
  have 3: "x * 262144 + y * 4096 + z * 64 + v = ((x * 64 + y) * 64 + z) * 64 + v"
    "x * 262144 + y * 4096 + z * 64 + v = (x * 64 + y) * 4096 + (z * 64 + v)" "z * 64 + v < 4096"
    "x * 262144 + y * 4096 + z * 64 + v = x * 262144 + (y * 4096 + z * 64 + v)" "y * 4096 + z * 64 + v < 262144"
    using assms by simp_all
  show "(x * 64 + y) div 64 = x" "(x * 64 + y) mod 64 = y" by (rule b [OF assms(1)])+
  show "(x * 4096 + y * 64 + z) div 4096 = x" unfolding 2(2) by (rule b(1) [OF 2(3)])
  show "(x * 4096 + y * 64 + z) div 64 mod 64 = y" "(x * 4096 + y * 64 + z) mod 64 = z"
    unfolding 2(1) by (simp_all only: b [OF assms(1)] b [OF assms(2)])
  show "(x * 262144 + y * 4096 + z * 64 + v) div 262144 = x" unfolding 3(4) by (rule b(1) [OF 3(5)])
  show "(x * 262144 + y * 4096 + z * 64 + v) div 4096 mod 64 = y" unfolding 3(2) by (simp only: b [OF 3(3)] b [OF assms(1)])
  show "(x * 262144 + y * 4096 + z * 64 + v) div 64 mod 64 = z" "(x * 262144 + y * 4096 + z * 64 + v) mod 64 = v"
    unfolding 3(1) by (simp_all only: b [OF assms(2)] b [OF assms(3)])
qed

lemma second_range_bounds:
  assumes "in_range (fst (second_range a)) (snd (second_range a)) b"
  shows "in_range 128 191 b" "a = 224 \<Longrightarrow> 160 \<le> b" "a = 240 \<Longrightarrow> 144 \<le> b"
  using assms by (auto simp: second_range_def in_range_def split: if_splits)

lemma EncodeRune_DecodeRune:
  assumes "DecodeRune (c # t) = (r, w)" and "(r, w) \<noteq> (RuneError, 1)"
  shows "EncodeRune r = take w (c # t) \<and> (r < 128 \<longleftrightarrow> byte_of c < 128)"
proof (cases rule: DecodeRune_shapes [OF assms])
  case 1
  then show ?thesis by (simp add: EncodeRune_def)
next
  case (2 d u)
  note lead = lead_mod(1) [OF 2(2)] and second = lead_mod(4) [OF 2(3)]
  have r: "128 \<le> r" "r < 2048" using lead 2(5) by (auto simp: less_Suc_eq_le)
  then show ?thesis using lead second 2 by (simp add: EncodeRune_def rune_bits in_range_def)
next
  case (3 d e u)
  note lead = lead_mod(2) [OF 3(2)] and bounds = second_range_bounds [OF 3(5)]
  note second = lead_mod(4) [OF bounds(1)] lead_mod(4) [OF 3(3)]
  have "2048 \<le> r"
  proof (cases "byte_of c = 224")
    case True
    then show ?thesis using bounds(2) second 3(6) by simp
  next
    case False
    then have "1 \<le> byte_of c mod 16" using lead by (cases "byte_of c mod 16") auto
    then show ?thesis using 3(6) by simp
  qed
  moreover have "r < 65536" using 3(6) by (auto simp: less_Suc_eq_le)
  ultimately show ?thesis using lead second 3 by (simp add: EncodeRune_def rune_bits(3-5) [where v = 0] in_range_def)
next
  case (4 d e f u)
  note lead = lead_mod(3) [OF 4(2)] and bounds = second_range_bounds [OF 4(6)]
  note second = lead_mod(4) [OF bounds(1)] lead_mod(4) [OF 4(3)] lead_mod(4) [OF 4(4)]
  have "65536 \<le> r"
  proof (cases "byte_of c = 240")
    case True
    then show ?thesis using bounds(3) second 4(7) by simp
  next
    case False
    then have "1 \<le> byte_of c mod 8" using lead by (cases "byte_of c mod 8") auto
    then show ?thesis using 4(7) by simp
  qed
  then show ?thesis using lead second 4 by (simp add: EncodeRune_def rune_bits in_range_def)
qed

section \<open>Quoting\<close>

lemma read_hex4_hex4:
  assumes "n < 65536"
  shows "read_hex4 (hex4 n @ s) = Some (n, s)"
proof -
  have "n = 16 * (n div 16) + n mod 16" "n div 16 = 16 * (n div 256) + n div 16 mod 16"
    "n div 256 = 16 * (n div 4096) + n div 256 mod 16" "n div 4096 mod 16 = n div 4096"
    using assms div_mult_mod_eq [of "n div 16" 16] div_mult_mod_eq [of "n div 256" 16]
    by (simp_all add: div_mult2_eq [symmetric] less_mult_imp_div_less)
  then have "n div 4096 mod 16 * 4096 + n div 256 mod 16 * 256 + n div 16 mod 16 * 16 + n mod 16 = n"
    by linarith
  moreover have "n div 4096 mod 16 = n div 4096" "n div 4096 < 16" using assms by simp_all
  ultimately show ?thesis by (simp add: hex4_def hex_value_lower)
qed

lemma read_escape_rune:
  assumes "r < 65536" and "\<not> in_range 55296 57343 r"
  shows "read_escape (CHR ''u'' # hex4 r @ s) = Some (EncodeRune r, s)"
  using assms by (simp add: read_escape_def read_hex4_hex4)

lemma json_unquote_escape: "json_unquote (CHR 0x5C # s) = (case read_escape s of None \<Rightarrow> None
    | Some (v, t) \<Rightarrow> map_option (map_prod ((@) v) id) (json_unquote t))"
  by (subst json_unquote.simps) simp

lemma json_unquote_raw:
  assumes "DecodeRune (c # t) = (r, w)" and "(r, w) \<noteq> (RuneError, 1)" and "byte_of c \<noteq> 34" and "byte_of c \<noteq> 92"
    and "32 \<le> byte_of c"
  shows "json_unquote (take w (c # t) @ u) = map_option (map_prod ((@) (take w (c # t))) id) (json_unquote u)"
proof -
  have w: "0 < w" "w \<le> length (c # t)" using DecodeRune_shapes [OF assms(1,2)] by fastforce+
  then obtain s where s: "take w (c # t) @ u = c # s" by (cases w) auto
  have c: "c \<noteq> CHR 0x22" "c \<noteq> CHR 0x5C" using assms(3,4) by (auto simp: byte_of_def)
  have d: "DecodeRune (c # s) = (r, w)" using DecodeRune_append [OF assms(1,2), of u] by (simp add: s)
  have "take w (c # s) = take w (c # t)" "drop w (c # s) = u" using w by (simp_all flip: s)
  then show ?thesis
    unfolding s by (subst json_unquote.simps) (use c d assms(2,5) in auto)
qed

lemma json_unquote_ascii:
  assumes "byte_of c < 128"
  shows "json_unquote (json_escape (byte_of c) 1 [c] @ u) = map_option (map_prod ((@) [c]) id) (json_unquote u)"
proof -
  have c: "char_of (byte_of c) = c" by simp
  have plain: ?thesis if "json_escape (byte_of c) 1 [c] = [c]" "byte_of c \<noteq> 34" "byte_of c \<noteq> 92" "32 \<le> byte_of c"
    using json_unquote_raw [of c "[]" "byte_of c" 1 u] that assms by (simp add: RuneError_def)
  have coded: ?thesis if "json_escape (byte_of c) 1 [c] = [CHR 0x5C, CHR ''u''] @ hex4 (byte_of c)"
    using read_escape_rune [of "byte_of c" u] assms that
    by (simp add: json_unquote_escape in_range_def EncodeRune_def)
  have short: ?thesis if "json_escape (byte_of c) 1 [c] = [CHR 0x5C, e]" "read_escape (e # u) = Some ([c], u)" for e
    using that by (simp add: json_unquote_escape)
  show ?thesis
  proof (cases "byte_of c \<in> {34, 92, 8, 12, 10, 13, 9}")
    case True
    have "c \<in> {CHR 0x22, CHR 0x5C, CHR 0x08, CHR 0x0C, CHR 0x0A, CHR 0x0D, CHR 0x09}"
      using True by (simp add: byte_of_inject [symmetric]) (simp add: byte_of_def)
    then show ?thesis
      by (elim insertE) (rule short, simp add: json_escape_def byte_of_def, simp add: read_escape_def | simp)+
  next
    case False
    then show ?thesis using plain coded by (auto simp: json_escape_def assms)
  qed
qed

lemma json_unquote_rune:
  assumes "DecodeRune (c # t) = (r, w)" and "(r, w) \<noteq> (RuneError, 1)"
  shows "json_unquote (json_escape r w (take w (c # t)) @ u) = map_option (map_prod ((@) (take w (c # t))) id) (json_unquote u)"
proof (cases "byte_of c < 128")
  case True
  then have "r = byte_of c" "w = 1" using assms(1) by auto
  then show ?thesis using json_unquote_ascii [OF True, of u] by simp
next
  case False
  note code = EncodeRune_DecodeRune [OF assms]
  show ?thesis
  proof (cases "r = 8232 \<or> r = 8233")
    case True
    then have "json_escape r w (take w (c # t)) = [CHR 0x5C, CHR ''u''] @ hex4 r" "r < 65536" "\<not> in_range 55296 57343 r"
      by (auto simp: json_escape_def RuneError_def in_range_def)
    then show ?thesis using read_escape_rune [of r u] code by (simp add: json_unquote_escape)
  next
    case other: False
    then have "json_escape r w (take w (c # t)) = take w (c # t)" using False code assms(2) by (simp add: json_escape_def)
    then show ?thesis using json_unquote_raw [OF assms] False by simp
  qed
qed

lemma json_unquote_quote:
  "ValidString s \<Longrightarrow> json_unquote (json_body s @ CHR 0x22 # u) = Some (s, u)"
proof (induction s rule: json_body.induct)
  case (1 s)
  show ?case
  proof (cases s)
    case Nil
    then show ?thesis by (subst json_body.simps) (simp add: json_unquote.simps)
  next
    case (Cons c t)
    obtain r w where d: "DecodeRune (c # t) = (r, w)" by fastforce
    have ok: "(r, w) \<noteq> (RuneError, 1)" "ValidString (drop w (c # t))"
      using 1(2) d runes_Cons [of "c # t"] by (auto simp: ValidString_def Cons)
    have "json_body s = json_escape r w (take w (c # t)) @ json_body (drop w (c # t))"
      by (subst json_body.simps) (simp add: Cons d)
    then show ?thesis
      using json_unquote_rune [OF d ok(1), of "json_body (drop w (c # t)) @ CHR 0x22 # u"] 1(1) [OF _ d [symmetric, folded Cons]] ok(2)
      by (simp add: Cons)
  qed
qed

end
