(* ===== verification/Json.thy ===== *)
theory Json
  imports Json_Strings
begin

text \<open>
  The parts of Go's \<open>encoding/json\<close> that the snapshot codec uses: values, the compact text that
  \<open>Marshal\<close> writes, and the decoder, here a lexer followed by a machine with a stack of open arrays
  and objects, as the scanner of the package has. Parsing undoes printing.
\<close>

datatype json =
  JNull | JBool bool | JNum string | JStr string | JArr "json list" | JObj "(string \<times> json) list"

section \<open>Printing\<close>

fun commas :: "'a \<Rightarrow> 'a list list \<Rightarrow> 'a list" where
  "commas sep [] = []"
| "commas sep [x] = x"
| "commas sep (x # y # xs) = x @ sep # commas sep (y # xs)"

text \<open>The text that \<open>json.Marshal\<close> writes.\<close>

fun json_text :: "json \<Rightarrow> string" where
  "json_text JNull = ''null''"
| "json_text (JBool b) = (if b then ''true'' else ''false'')"
| "json_text (JNum n) = n"
| "json_text (JStr s) = json_quote s"
| "json_text (JArr vs) = CHR ''['' # commas (CHR '','') (map json_text vs) @ '']''"
| "json_text (JObj kvs) = CHR ''{'' # commas (CHR '','') (map (\<lambda>(k, v). json_quote k @ CHR '':'' # json_text v) kvs) @ ''}''"

section \<open>Tokens\<close>

datatype token = TObj | TObjEnd | TArr | TArrEnd | TColon | TComma | TStr string | TNum string | TBool bool | TNull

text \<open>A number literal: an integer part without leading zeros, a fraction and an exponent.\<close>

definition lex_digits :: "string \<Rightarrow> (string \<times> string) option" where
  "lex_digits s = (if takeWhile is_digit s = [] then None else Some (takeWhile is_digit s, dropWhile is_digit s))"

definition lex_integer :: "string \<Rightarrow> (string \<times> string) option" where
  "lex_integer s = (case s of [] \<Rightarrow> None
   | c # t \<Rightarrow> if c = CHR ''0'' then Some ([c], t) else lex_digits s)"

definition lex_fraction :: "string \<Rightarrow> (string \<times> string) option" where
  "lex_fraction s = (case s of [] \<Rightarrow> Some ([], [])
   | c # t \<Rightarrow> if c = CHR ''.'' then map_option (map_prod ((#) c) id) (lex_digits t) else Some ([], s))"

definition lex_exponent :: "string \<Rightarrow> (string \<times> string) option" where
  "lex_exponent s = (case s of [] \<Rightarrow> Some ([], [])
   | c # t \<Rightarrow> if c = CHR ''e'' \<or> c = CHR ''E'' then
       (case t of
          d # u \<Rightarrow> if d = CHR ''+'' \<or> d = CHR ''-'' then map_option (map_prod (\<lambda>n. c # d # n) id) (lex_digits u)
            else map_option (map_prod ((#) c) id) (lex_digits t)
        | [] \<Rightarrow> None)
     else Some ([], s))"

definition lex_number :: "string \<Rightarrow> (string \<times> string) option" where
  "lex_number s = (let (sign, t) = (case s of c # u \<Rightarrow> if c = CHR ''-'' then ([c], u) else ([], s) | [] \<Rightarrow> ([], s)) in
     case lex_integer t of None \<Rightarrow> None
     | Some (i, u) \<Rightarrow> (case lex_fraction u of None \<Rightarrow> None
       | Some (f, v) \<Rightarrow> (case lex_exponent v of None \<Rightarrow> None
         | Some (e, w) \<Rightarrow> Some (sign @ i @ f @ e, w))))"

lemma lex_digits_shorter: "lex_digits s = Some (n, t) \<Longrightarrow> s = n @ t \<and> n \<noteq> []"
  by (auto simp: lex_digits_def split: if_splits)

lemma lex_parts_shorter:
  "lex_integer s = Some (n, t) \<Longrightarrow> s = n @ t \<and> n \<noteq> []"
  "lex_fraction s = Some (n, t) \<Longrightarrow> s = n @ t"
  "lex_exponent s = Some (n, t) \<Longrightarrow> s = n @ t"
  by (auto simp: lex_integer_def lex_fraction_def lex_exponent_def dest!: lex_digits_shorter
      split: list.splits if_splits)

lemma lex_number_shorter: "lex_number s = Some (n, t) \<Longrightarrow> s = n @ t \<and> n \<noteq> []"
  by (auto simp: lex_number_def dest!: lex_parts_shorter split: list.splits if_splits option.splits prod.splits)

definition json_space :: "char \<Rightarrow> bool" where
  "json_space c \<longleftrightarrow> c = CHR 0x20 \<or> c = CHR 0x09 \<or> c = CHR 0x0A \<or> c = CHR 0x0D"

definition literal :: "string \<Rightarrow> (token \<times> string) option" where
  "literal s = (if take 4 s = ''null'' then Some (TNull, drop 4 s)
     else if take 4 s = ''true'' then Some (TBool True, drop 4 s)
     else if take 5 s = ''false'' then Some (TBool False, drop 5 s)
     else map_option (map_prod TNum id) (lex_number s))"

definition punctuation :: "char \<Rightarrow> token option" where
  "punctuation c = map_of [(CHR ''{'', TObj), (CHR ''}'', TObjEnd), (CHR ''['', TArr), (CHR '']'', TArrEnd),
     (CHR '':'', TColon), (CHR '','', TComma)] c"

lemma literal_shorter:
  assumes "literal s = Some (k, t)"
  shows "length t < length s"
proof -
  have "s \<noteq> []" using assms by (cases s) (auto simp: literal_def lex_number_def lex_integer_def)
  moreover have "\<exists>n. s = n @ t \<and> n \<noteq> []" if "lex_number s = Some (n, t)" for n using lex_number_shorter that by blast
  ultimately show ?thesis
    using assms by (auto simp: literal_def split: if_splits)
qed

function lex :: "string \<Rightarrow> token list option" where
  "lex [] = Some []"
| "lex (c # s) =
     (if json_space c then lex s
      else (case punctuation c of Some k \<Rightarrow> map_option ((#) k) (lex s)
        | None \<Rightarrow> if c = CHR 0x22
            then (case json_unquote s of None \<Rightarrow> None | Some (v, t) \<Rightarrow> map_option ((#) (TStr v)) (lex t))
            else (case literal (c # s) of None \<Rightarrow> None | Some (k, t) \<Rightarrow> map_option ((#) k) (lex t))))"
  by pat_completeness auto
termination
proof (relation "measure length", goal_cases)
  case (3 c s p v t)
  then show ?case using json_unquote_shorter [of s v t] by simp
next
  case (4 c s p k t)
  then show ?case using literal_shorter [of "c # s" k t] by simp
qed simp_all

declare lex.simps(2) [simp del]

section \<open>The parser machine\<close>

text \<open>
  The stack holds the open arrays and objects with what they have so far, an object also with the
  key whose value is due; \<open>Full v\<close> says that \<open>v\<close> has just been read. The nesting is bounded as in the
  package.
\<close>

datatype open_value = InArr "json list" | InObj "(string \<times> json) list" | AtKey "(string \<times> json) list" string

datatype mode = WantValue | WantFirst | WantKey | WantColon | Full json

type_synonym machine = "mode \<times> open_value list"

definition maxNestingDepth :: nat where "maxNestingDepth = 10000"

definition open_container :: "open_value \<Rightarrow> open_value list \<Rightarrow> machine option" where
  "open_container c st = (if length st < maxNestingDepth then Some (WantFirst, c # st) else None)"

fun value_step :: "token \<Rightarrow> open_value list \<Rightarrow> machine option" where
  "value_step TNull st = Some (Full JNull, st)"
| "value_step (TBool b) st = Some (Full (JBool b), st)"
| "value_step (TNum n) st = Some (Full (JNum n), st)"
| "value_step (TStr s) st = Some (Full (JStr s), st)"
| "value_step TArr st = open_container (InArr []) st"
| "value_step TObj st = open_container (InObj []) st"
| "value_step _ st = None"

fun machine_step :: "machine \<Rightarrow> token \<Rightarrow> machine option" where
  "machine_step (WantValue, st) k = value_step k st"
| "machine_step (WantFirst, InArr [] # st) TArrEnd = Some (Full (JArr []), st)"
| "machine_step (WantFirst, InArr [] # st) k = value_step k (InArr [] # st)"
| "machine_step (WantFirst, InObj [] # st) TObjEnd = Some (Full (JObj []), st)"
| "machine_step (WantFirst, InObj [] # st) (TStr key) = Some (WantColon, AtKey [] key # st)"
| "machine_step (WantKey, InObj kvs # st) (TStr key) = Some (WantColon, AtKey kvs key # st)"
| "machine_step (WantColon, st) TColon = Some (WantValue, st)"
| "machine_step (Full v, InArr vs # st) TComma = Some (WantValue, InArr (vs @ [v]) # st)"
| "machine_step (Full v, InArr vs # st) TArrEnd = Some (Full (JArr (vs @ [v])), st)"
| "machine_step (Full v, AtKey kvs key # st) TComma = Some (WantKey, InObj (kvs @ [(key, v)]) # st)"
| "machine_step (Full v, AtKey kvs key # st) TObjEnd = Some (Full (JObj (kvs @ [(key, v)])), st)"
| "machine_step _ _ = None"

fun machine_run :: "machine \<Rightarrow> token list \<Rightarrow> machine option" where
  "machine_run m [] = Some m"
| "machine_run m (k # ks) = (case machine_step m k of None \<Rightarrow> None | Some m' \<Rightarrow> machine_run m' ks)"

text \<open>The value of a text that is one JSON value with white space around it.\<close>

definition json_parse :: "string \<Rightarrow> json option" where
  "json_parse s = (case lex s of None \<Rightarrow> None
   | Some ks \<Rightarrow> (case machine_run (WantValue, []) ks of Some (Full v, []) \<Rightarrow> Some v | _ \<Rightarrow> None))"

section \<open>Parsing undoes printing\<close>

fun json_tokens :: "json \<Rightarrow> token list" where
  "json_tokens JNull = [TNull]"
| "json_tokens (JBool b) = [TBool b]"
| "json_tokens (JNum n) = [TNum n]"
| "json_tokens (JStr s) = [TStr s]"
| "json_tokens (JArr vs) = TArr # commas TComma (map json_tokens vs) @ [TArrEnd]"
| "json_tokens (JObj kvs) = TObj # commas TComma (map (\<lambda>(k, v). TStr k # TColon # json_tokens v) kvs) @ [TObjEnd]"

text \<open>Values that can be printed: valid UTF-8 and proper decimal numbers.\<close>

fun json_ok :: "json \<Rightarrow> bool" where
  "json_ok (JNum n) \<longleftrightarrow> (\<exists>k. n = digits k)"
| "json_ok (JStr s) \<longleftrightarrow> ValidString s"
| "json_ok (JArr vs) \<longleftrightarrow> list_all json_ok vs"
| "json_ok (JObj kvs) \<longleftrightarrow> list_all (\<lambda>(k, v). ValidString k \<and> json_ok v) kvs"
| "json_ok _ \<longleftrightarrow> True"

text \<open>Values nested at most \<open>n\<close> deep.\<close>

fun json_within :: "nat \<Rightarrow> json \<Rightarrow> bool" where
  "json_within n (JArr vs) \<longleftrightarrow> 0 < n \<and> list_all (json_within (n - 1)) vs"
| "json_within n (JObj kvs) \<longleftrightarrow> 0 < n \<and> list_all (\<lambda>(k, v). json_within (n - 1) v) kvs"
| "json_within n _ \<longleftrightarrow> True"

lemma machine_run_append:
  "machine_run m (ks @ ls) = (case machine_run m ks of None \<Rightarrow> None | Some m' \<Rightarrow> machine_run m' ls)"
  by (induction ks arbitrary: m) (auto split: option.splits)

text \<open>Reading the elements of an array and the members of an object, given how each value is read.\<close>

definition reads :: "json \<Rightarrow> open_value list \<Rightarrow> bool" where
  "reads v st \<longleftrightarrow> (\<forall>ks. machine_run (WantValue, st) (json_tokens v @ ks) = machine_run (Full v, st) ks)"

lemma reads_elements:
  assumes "\<And>u us. u \<in> set (v # vs) \<Longrightarrow> reads u (InArr us # st)"
  shows "machine_run (WantValue, InArr us # st) (commas TComma (map json_tokens (v # vs)) @ TArrEnd # ks) =
    machine_run (Full (JArr (us @ v # vs)), st) ks"
  using assms
proof (induction vs arbitrary: v us)
  case Nil
  then show ?case by (simp add: reads_def)
next
  case (Cons w vs)
  from Cons.prems [of v us] show ?case
    using Cons.IH [of w "us @ [v]"] Cons.prems by (simp add: reads_def)
qed

lemma reads_members:
  assumes "\<And>key u kvs. (key, u) \<in> set ((k, v) # ms) \<Longrightarrow> reads u (AtKey kvs key # st)"
  shows "machine_run (WantColon, AtKey kvs k # st)
      (TColon # json_tokens v @ (if ms = [] then [] else TComma # commas TComma (map (\<lambda>(k, v). TStr k # TColon # json_tokens v) ms))
        @ TObjEnd # ks) = machine_run (Full (JObj (kvs @ (k, v) # ms)), st) ks"
  using assms
proof (induction ms arbitrary: k v kvs)
  case Nil
  then show ?case by (simp add: reads_def)
next
  case (Cons m ms)
  obtain key u where m: "m = (key, u)" by fastforce
  have v: "reads v (AtKey kvs k # st)" using Cons.prems by simp
  have "commas TComma (map (\<lambda>(k, v). TStr k # TColon # json_tokens v) (m # ms)) =
    TStr key # TColon # json_tokens u @ (if ms = [] then [] else TComma # commas TComma (map (\<lambda>(k, v). TStr k # TColon # json_tokens v) ms))"
    by (cases ms) (simp_all add: m)
  then show ?case using v Cons.IH [of key u "kvs @ [(k, v)]"] Cons.prems by (simp add: reads_def m)
qed

lemma machine_first:
  "machine_run (WantFirst, InArr [] # st) (json_tokens v @ ks) = machine_run (WantValue, InArr [] # st) (json_tokens v @ ks)"
  by (cases v) simp_all

lemma machine_reads: "json_within n v \<Longrightarrow> n + length st \<le> maxNestingDepth \<Longrightarrow> reads v st"
proof (induction v arbitrary: n st)
  case (JArr vs)
  have deep: "length st < maxNestingDepth" using JArr.prems by simp
  have each: "reads u (InArr us # st)" if "u \<in> set vs" for u us
    using JArr.IH [OF that, of "n - 1"] JArr.prems that by (auto simp: list_all_iff)
  show ?case
  proof (cases vs)
    case Nil
    then show ?thesis using deep by (simp add: reads_def open_container_def)
  next
    case (Cons w ws)
    then show ?thesis
      using deep reads_elements [of w ws st "[]"] each machine_first [of st w]
      by (cases ws) (simp_all add: reads_def open_container_def)
  qed
next
  case (JObj kvs)
  have deep: "length st < maxNestingDepth" using JObj.prems by simp
  have each: "reads u (AtKey ms key # st)" if "(key, u) \<in> set kvs" for key u ms
    using JObj.IH [OF that, of u "n - 1"] JObj.prems that by (auto simp: list_all_iff)
  show ?case
  proof (cases kvs)
    case Nil
    then show ?thesis using deep by (simp add: reads_def open_container_def)
  next
    case (Cons m ms)
    obtain key u where m: "m = (key, u)" by fastforce
    show ?thesis
      using deep reads_members [of key u ms st "[]"] each Cons
      by (cases ms) (simp_all add: reads_def open_container_def m)
  qed
qed (simp_all add: reads_def)

text \<open>What may follow a value in printed text.\<close>

definition delimited :: "string \<Rightarrow> bool" where
  "delimited rest \<longleftrightarrow> rest = [] \<or> hd rest \<in> {CHR '','', CHR '']'', CHR ''}''}"

lemma lex_punctuation: "punctuation c = Some k \<Longrightarrow> lex (c # s) = map_option ((#) k) (lex s)"
  by (subst lex.simps) (auto simp: punctuation_def json_space_def split: if_splits)

lemma lex_quote: "ValidString s \<Longrightarrow> lex (json_quote s @ rest) = map_option ((#) (TStr s)) (lex rest)"
  by (simp add: json_quote_def lex.simps(2) json_space_def punctuation_def json_unquote_quote)

lemma lex_literals:
  "lex (''null'' @ rest) = map_option ((#) TNull) (lex rest)"
  "lex (''true'' @ rest) = map_option ((#) (TBool True)) (lex rest)"
  "lex (''false'' @ rest) = map_option ((#) (TBool False)) (lex rest)"
  by (simp_all add: lex.simps(2) json_space_def punctuation_def literal_def)

lemma digit_range: "is_digit c \<Longrightarrow> c \<notin> {CHR 0x20, CHR 0x09, CHR 0x0A, CHR 0x0D, CHR 0x22, CHR ''{'', CHR ''}'', CHR ''['', CHR '']'',
    CHR '':'', CHR '','', CHR ''n'', CHR ''t'', CHR ''f'', CHR ''-'', CHR ''.'', CHR ''e'', CHR ''E''}"
  by (auto simp: is_digit_def in_range_def byte_of_def)

lemma lex_number_digits:
  assumes "delimited rest"
  shows "lex_number (digits k @ rest) = Some (digits k, rest)"
proof -
  obtain c s where c: "digits k = c # s" by (cases "digits k") auto
  have all: "list_all is_digit (c # s)" using digits_digits [of k] by (simp add: c)
  have stop: "takeWhile is_digit rest = []" "dropWhile is_digit rest = rest"
    using assms digit_range by (cases rest; force simp: delimited_def)+
  have "takeWhile is_digit (digits k @ rest) = digits k" "dropWhile is_digit (digits k @ rest) = rest"
    using all stop by (simp_all add: c takeWhile_append2 dropWhile_append2 list_all_iff)
  then have "lex_digits (digits k @ rest) = Some (digits k, rest)" by (simp add: lex_digits_def)
  then have "lex_integer (digits k @ rest) = Some (digits k, rest)"
    using digits_head [of k s] by (auto simp: lex_integer_def c)
  moreover have "c \<noteq> CHR ''-''" using all digit_range [of c] by auto
  moreover have "lex_fraction rest = Some ([], rest)" "lex_exponent rest = Some ([], rest)"
    using assms by (cases rest; auto simp: delimited_def lex_fraction_def lex_exponent_def)+
  ultimately show ?thesis by (simp add: lex_number_def c)
qed

lemma lex_digits_text:
  assumes "delimited rest"
  shows "lex (digits k @ rest) = map_option ((#) (TNum (digits k))) (lex rest)"
proof -
  obtain c s where c: "digits k = c # s" by (cases "digits k") auto
  have "is_digit c" using digits_digits [of k] by (simp add: c)
  note d = digit_range [OF this]
  have "literal (c # s @ rest) = Some (TNum (digits k), rest)"
    using lex_number_digits [OF assms, of k] d by (auto simp: literal_def c)
  then show ?thesis using d by (simp add: c lex.simps(2) json_space_def punctuation_def)
qed

lemma lex_commas:
  assumes "\<And>x rest. x \<in> set xs \<Longrightarrow> delimited rest \<Longrightarrow> lex (f x @ rest) = map_option ((@) (g x)) (lex rest)"
    and "punctuation c = Some k" and "c = CHR '']'' \<or> c = CHR ''}''"
  shows "lex (commas (CHR '','') (map f xs) @ c # rest) = map_option ((@) (commas TComma (map g xs) @ [k])) (lex rest)"
  using assms(1)
proof (induction "map f xs" arbitrary: xs rule: induct_list012)
  case 1
  then show ?case using assms(2) by (simp add: lex_punctuation comp_def)
next
  case (2 s)
  then show ?case using assms(2,3) by (auto simp: map_eq_Cons_conv delimited_def lex_punctuation option.map_comp comp_def)
next
  case (3 s u ss)
  then obtain x y ys where xs: "xs = x # y # ys" "s = f x" by (auto simp: map_eq_Cons_conv Cons_eq_map_conv)
  have "lex (commas (CHR '','') (map f (y # ys)) @ c # rest) = map_option ((@) (commas TComma (map g (y # ys)) @ [k])) (lex rest)"
    by (rule 3(2)) (use 3(3,4) xs in auto)
  then show ?case
    using 3(4) [of x "CHR '','' # commas (CHR '','') (map f (y # ys)) @ c # rest"]
    by (cases "lex rest") (simp_all add: xs delimited_def lex_punctuation punctuation_def)
qed

lemma lex_text: "json_ok v \<Longrightarrow> delimited rest \<Longrightarrow> lex (json_text v @ rest) = map_option ((@) (json_tokens v)) (lex rest)"
proof (induction v arbitrary: rest)
  case (JArr vs)
  have "lex (commas (CHR '','') (map json_text vs) @ CHR '']'' # rest) =
    map_option ((@) (commas TComma (map json_tokens vs) @ [TArrEnd])) (lex rest)"
    by (rule lex_commas) (use JArr in \<open>simp_all add: list_all_iff punctuation_def\<close>)
  then show ?case by (simp add: lex_punctuation punctuation_def option.map_comp comp_def)
next
  case (JObj kvs)
  let ?f = "\<lambda>(k, v). json_quote k @ CHR '':'' # json_text v" and ?g = "\<lambda>(k, v). TStr k # TColon # json_tokens v"
  have member: "lex (?f x @ r) = map_option ((@) (?g x)) (lex r)" if "x \<in> set kvs" "delimited r" for x r
  proof (cases x)
    case (Pair key u)
    have "ValidString key" "json_ok u" using that(1) JObj.prems by (auto simp: list_all_iff Pair)
    then show ?thesis using JObj.IH [OF that(1), of u r] that(2)
      by (cases "lex r") (simp_all add: Pair lex_quote lex_punctuation punctuation_def)
  qed
  have "lex (commas (CHR '','') (map ?f kvs) @ CHR ''}'' # rest) =
    map_option ((@) (commas TComma (map ?g kvs) @ [TObjEnd])) (lex rest)"
    by (rule lex_commas) (use member in \<open>simp_all add: punctuation_def\<close>)
  then show ?case by (simp add: lex_punctuation punctuation_def option.map_comp comp_def)
next
  case (JBool b)
  then show ?case using lex_literals(2,3) [of rest] by (cases b) simp_all
next
  case JNull
  show ?case using lex_literals(1) [of rest] by simp
next
  case (JNum n)
  then show ?case using lex_digits_text by auto
next
  case (JStr s)
  then show ?case using lex_quote [of s rest] by simp
qed

theorem json_parse_text:
  assumes "json_ok v" and "json_within maxNestingDepth v"
  shows "json_parse (json_text v) = Some v"
proof -
  have "lex (json_text v) = Some (json_tokens v)"
    using lex_text [OF assms(1), of "[]"] by (simp add: delimited_def)
  moreover have "reads v []" using machine_reads [OF assms(2), of "[]"] by simp
  then have "machine_run (WantValue, []) (json_tokens v @ []) = machine_run (Full v, []) []" unfolding reads_def by blast
  ultimately show ?thesis by (simp add: json_parse_def)
qed

end
