(* ===== verification/Snapshot_Codec.thy ===== *)
theory Snapshot_Codec
  imports Continuation Go_Time Json
begin

text \<open>
  The durable form of a call snapshot (\<open>programmable/continuation/codec.go\<close> and the wire types of
  \<open>workflow.go\<close>): a JSON document with a version, the snapshot and a checksum over both. Wire records
  hold the strings of the document; a nil byte slice is \<open>None\<close>. SHA-256 is the argument \<open>sha\<close>.
\<close>

abbreviation ErrInvalidSnapshotEncoding :: goerr where
  "ErrInvalidSnapshotEncoding \<equiv> Sentinel ''continuation: invalid snapshot encoding''"

abbreviation ErrUnsupportedSnapshotVersion :: goerr where
  "ErrUnsupportedSnapshotVersion \<equiv> Sentinel ''continuation: unsupported snapshot version''"

abbreviation ErrSnapshotChecksum :: goerr where
  "ErrSnapshotChecksum \<equiv> Sentinel ''continuation: snapshot checksum mismatch''"

abbreviation ErrSnapshotTooLarge :: goerr where
  "ErrSnapshotTooLarge \<equiv> Sentinel ''continuation: snapshot encoding too large''"

definition legacySnapshotCodecVersion :: string where "legacySnapshotCodecVersion = ''v1''"
definition retainedSnapshotCodecVersion :: string where "retainedSnapshotCodecVersion = ''v2''"
definition timerSnapshotCodecVersion :: string where "timerSnapshotCodecVersion = ''v3''"
definition snapshotCodecVersion :: string where "snapshotCodecVersion = ''v4''"
definition maxEncodedSnapshotSize :: nat where "maxEncodedSnapshotSize = 4 * 1024 * 1024"

lemmas codec_versions = legacySnapshotCodecVersion_def retainedSnapshotCodecVersion_def timerSnapshotCodecVersion_def
  snapshotCodecVersion_def

section \<open>String types\<close>

text \<open>The constant of a string type that a string is.\<close>

definition of_string :: "('a \<Rightarrow> string) \<Rightarrow> 'a list \<Rightarrow> (string \<Rightarrow> 'a) \<Rightarrow> string \<Rightarrow> 'a" where
  "of_string name constants other s = (case find (\<lambda>c. name c = s) constants of Some c \<Rightarrow> c | None \<Rightarrow> other s)"

definition Status_of :: "string \<Rightarrow> Status" where
  "Status_of = of_string status_string [StatusAccepted, StatusRunning, StatusWaiting, StatusSuspended,
     StatusCancelRequested, StatusCompleted, StatusFailed, StatusCanceled, StatusExpired] StatusOther"

definition FrameKind_of :: "string \<Rightarrow> FrameKind" where
  "FrameKind_of = of_string frameKind_string [FrameAccepted, FrameEvent, FrameWaiting, FrameSignal, FrameSuspended,
     FrameCancelRequested, FrameCompleted, FrameFailed, FrameCanceled, FrameExpired, FrameWorkflowChild] FrameKindOther"

fun commandKind_string :: "commandKind \<Rightarrow> string" where
  "commandKind_string commandNone = []"
| "commandKind_string commandSignal = ''signal''"
| "commandKind_string commandCancel = ''cancel''"
| "commandKind_string (commandOther s) = s"

definition commandKind_of :: "string \<Rightarrow> commandKind" where
  "commandKind_of = of_string commandKind_string [commandNone, commandSignal, commandCancel] commandOther"

fun nodeKind_string :: "WorkflowNodeKind \<Rightarrow> string" where
  "nodeKind_string WorkflowNodeMachine = ''machine''"
| "nodeKind_string WorkflowNodeTimer = ''timer''"
| "nodeKind_string WorkflowNodeChild = ''child''"
| "nodeKind_string WorkflowNodeJoin = ''join''"
| "nodeKind_string (WorkflowNodeKindOther s) = s"

definition nodeKind_of :: "string \<Rightarrow> WorkflowNodeKind" where
  "nodeKind_of = of_string nodeKind_string [WorkflowNodeMachine, WorkflowNodeTimer, WorkflowNodeChild, WorkflowNodeJoin]
     WorkflowNodeKindOther"

fun nodeStatus_string :: "WorkflowNodeStatus \<Rightarrow> string" where
  "nodeStatus_string WorkflowNodePending = ''pending''"
| "nodeStatus_string WorkflowNodeRunning = ''running''"
| "nodeStatus_string WorkflowNodeWaiting = ''waiting''"
| "nodeStatus_string WorkflowNodeSucceeded = ''succeeded''"
| "nodeStatus_string WorkflowNodeFailed = ''failed''"
| "nodeStatus_string WorkflowNodeSkipped = ''skipped''"
| "nodeStatus_string (WorkflowNodeStatusOther s) = s"

definition nodeStatus_of :: "string \<Rightarrow> WorkflowNodeStatus" where
  "nodeStatus_of = of_string nodeStatus_string [WorkflowNodePending, WorkflowNodeRunning, WorkflowNodeWaiting,
     WorkflowNodeSucceeded, WorkflowNodeFailed, WorkflowNodeSkipped] WorkflowNodeStatusOther"

lemma Status_of_string: "Status_valid st \<Longrightarrow> Status_of (status_string st) = st"
  by (cases st) (simp_all add: Status_of_def of_string_def Status_valid_def)

lemma FrameKind_of_string: "FrameKind_valid k \<Longrightarrow> FrameKind_of (frameKind_string k) = k"
  by (cases k) (simp_all add: FrameKind_of_def of_string_def FrameKind_valid_def)

lemma commandKind_of_string: "k = commandSignal \<or> k = commandCancel \<Longrightarrow> commandKind_of (commandKind_string k) = k"
  by (elim disjE) (simp_all add: commandKind_of_def of_string_def)

lemma nodeKind_of_string: "NodeKind_valid k \<Longrightarrow> nodeKind_of (nodeKind_string k) = k"
  by (cases k) (simp_all add: nodeKind_of_def of_string_def NodeKind_valid_def)

lemma nodeStatus_of_string: "NodeStatus_valid st \<Longrightarrow> nodeStatus_of (nodeStatus_string st) = st"
  by (cases st) (simp_all add: nodeStatus_of_def of_string_def NodeStatus_valid_def)

section \<open>Wire records\<close>

record frameWire =
  fw_Sequence :: u64
  fw_Kind :: string
  fw_Payload :: "string option"

record commandWire =
  cw_ID :: string
  cw_Kind :: string
  cw_Digest :: string

record workflowNodeWire =
  nw_ID :: string
  nw_Kind :: string
  nw_Status :: string
  nw_Attempt :: u32
  nw_ChildCallID :: string
  nw_ReadyAt :: string
  nw_FailureClass :: string

record workflowWire =
  ww_Version :: string
  ww_Fingerprint :: string
  ww_StartedAt :: string
  ww_Nodes :: "workflowNodeWire list"

record snapshotWire =
  sw_CallID :: string
  sw_Operation :: string
  sw_Status :: string
  sw_Revision :: u64
  sw_Fence :: u64
  sw_Sequence :: u64
  sw_FrameFloor :: u64
  sw_ReadyAt :: string
  sw_Workflow :: "workflowWire option"
  sw_Frames :: "frameWire list"
  sw_Commands :: "commandWire list"

record snapshotDocument =
  sd_Version :: string
  sd_Snapshot :: "snapshotWire option"
  sd_Checksum :: string

section \<open>Snapshots and wire records\<close>

definition formatReadyAt :: "go_time \<Rightarrow> string" where
  "formatReadyAt t = (if time_IsZero t then [] else time_Format t)"

text \<open>The entries of a map in the order of its sorted keys.\<close>

definition sorted_map :: "(string, 'a) gomap \<Rightarrow> (string, 'a) gomap" where
  "sorted_map m = map (\<lambda>k. (k, the (gm_get m k))) (sort (gm_keys m))"

definition node_wire :: "workflowNodeState \<Rightarrow> workflowNodeWire" where
  "node_wire node = \<lparr>nw_ID = ns_ID node, nw_Kind = nodeKind_string (ns_Kind node),
     nw_Status = nodeStatus_string (ns_Status node), nw_Attempt = ns_Attempt node,
     nw_ChildCallID = ns_ChildCallID node, nw_ReadyAt = formatReadyAt (ns_ReadyAt node),
     nw_FailureClass = ns_FailureClass node\<rparr>"

definition workflowToWire :: "workflowSnapshotState option \<Rightarrow> workflowWire option" where
  "workflowToWire state = map_option (\<lambda>w. \<lparr>ww_Version = wf_Version w, ww_Fingerprint = wf_Fingerprint w,
     ww_StartedAt = formatReadyAt (wf_StartedAt w),
     ww_Nodes = map (\<lambda>(id', node). node_wire node) (sorted_map (wf_Nodes w))\<rparr>) state"

text \<open>\<open>Payload\<close> copies into a nil slice, so an empty payload is nil.\<close>

definition snapshotToWire :: "CallSnapshot \<Rightarrow> snapshotWire" where
  "snapshotToWire s = \<lparr>sw_CallID = cs_callID s, sw_Operation = cs_operation s, sw_Status = status_string (cs_status s),
     sw_Revision = cs_revision s, sw_Fence = cs_fence s, sw_Sequence = cs_sequence s, sw_FrameFloor = cs_frameFloor s,
     sw_ReadyAt = formatReadyAt (cs_readyAt s), sw_Workflow = workflowToWire (cs_workflow s),
     sw_Frames = map (\<lambda>f. \<lparr>fw_Sequence = fr_sequence f, fw_Kind = frameKind_string (fr_kind f),
       fw_Payload = (if fr_payload f = [] then None else Some (fr_payload f))\<rparr>) (cs_frames s),
     sw_Commands = map (\<lambda>(id', r). \<lparr>cw_ID = id', cw_Kind = commandKind_string (cr_kind r),
       cw_Digest = hex_encode (cr_digest r)\<rparr>) (sorted_map (cs_commands s))\<rparr>"

fun nodes_from_wire :: "workflowNodeWire list \<Rightarrow> (string, workflowNodeState) gomap \<Rightarrow> goerr + (string, workflowNodeState) gomap" where
  "nodes_from_wire [] nodes = Ok nodes"
| "nodes_from_wire (e # es) nodes =
     (if gm_get nodes (nw_ID e) \<noteq> None \<or> nw_ChildCallID e \<noteq> [] \<and> \<not> call_validIdentity (nw_ChildCallID e) then Err ErrInvalidWorkflow
      else (case (if nw_ReadyAt e = [] then Some 0 else parse_canonical (nw_ReadyAt e)) of
          None \<Rightarrow> Err ErrInvalidWorkflow
        | Some readyAt \<Rightarrow> nodes_from_wire es (gm_put (nw_ID e)
            \<lparr>ns_ID = nw_ID e, ns_Kind = nodeKind_of (nw_Kind e), ns_Status = nodeStatus_of (nw_Status e),
             ns_Attempt = nw_Attempt e, ns_ChildCallID = nw_ChildCallID e, ns_ReadyAt = readyAt,
             ns_FailureClass = nw_FailureClass e\<rparr> nodes)))"

definition workflowFromWire :: "workflowWire option \<Rightarrow> goerr + workflowSnapshotState option" where
  "workflowFromWire wire = (case wire of None \<Rightarrow> Ok None
   | Some w \<Rightarrow> (case parse_canonical (ww_StartedAt w) of None \<Rightarrow> Err ErrInvalidWorkflow
     | Some startedAt \<Rightarrow> (case nodes_from_wire (ww_Nodes w) [] of Err e \<Rightarrow> Err e
       | Ok nodes \<Rightarrow>
         (let state = \<lparr>wf_Version = ww_Version w, wf_Fingerprint = ww_Fingerprint w, wf_StartedAt = startedAt, wf_Nodes = nodes\<rparr>
          in case validateWorkflowState (Some state) of Some e \<Rightarrow> Err e | None \<Rightarrow> Ok (Some state)))))"

fun frames_from_wire :: "frameWire list \<Rightarrow> Frame list option" where
  "frames_from_wire [] = Some []"
| "frames_from_wire (e # es) =
     (if \<not> FrameKind_valid (FrameKind_of (fw_Kind e)) \<or> length (case fw_Payload e of None \<Rightarrow> [] | Some p \<Rightarrow> p) > maxPayloadBytes
      then None
      else map_option ((#) \<lparr>fr_sequence = fw_Sequence e, fr_kind = FrameKind_of (fw_Kind e),
        fr_payload = (case fw_Payload e of None \<Rightarrow> [] | Some p \<Rightarrow> p)\<rparr>) (frames_from_wire es))"

fun commands_from_wire :: "commandWire list \<Rightarrow> (string, commandRecord) gomap \<Rightarrow> (string, commandRecord) gomap option" where
  "commands_from_wire [] commands = Some commands"
| "commands_from_wire (e # es) commands =
     (if gm_get commands (cw_ID e) \<noteq> None then None
      else (case hex_decode (cw_Digest e) of None \<Rightarrow> None
        | Some digest \<Rightarrow> if length digest \<noteq> 32 then None
          else commands_from_wire es (gm_put (cw_ID e) \<lparr>cr_kind = commandKind_of (cw_Kind e), cr_digest = digest\<rparr> commands)))"

definition ready_from_wire :: "snapshotWire \<Rightarrow> string \<Rightarrow> go_time option" where
  "ready_from_wire wire version =
     (if (version = timerSnapshotCodecVersion \<or> version = snapshotCodecVersion) \<and> sw_ReadyAt wire \<noteq> []
      then parse_canonical (sw_ReadyAt wire) else Some 0)"

definition snapshotFromWire :: "snapshotWire \<Rightarrow> string \<Rightarrow> goerr + CallSnapshot" where
  "snapshotFromWire wire version =
     (if \<not> is_Ok (NewCallID (sw_CallID wire)) \<or> \<not> is_Ok (NewOperation (sw_Operation wire)) then Err ErrInvalidSnapshotEncoding
      else (case (frames_from_wire (sw_Frames wire), commands_from_wire (sw_Commands wire) [], ready_from_wire wire version) of
          (Some frames, Some commands, Some readyAt) \<Rightarrow>
            (case (if version = snapshotCodecVersion then workflowFromWire (sw_Workflow wire) else Ok None) of
               Err e \<Rightarrow> Err ErrInvalidSnapshotEncoding
             | Ok workflow \<Rightarrow> Ok \<lparr>cs_callID = sw_CallID wire, cs_operation = sw_Operation wire, cs_status = Status_of (sw_Status wire),
                 cs_readyAt = readyAt, cs_revision = sw_Revision wire, cs_fence = sw_Fence wire, cs_sequence = sw_Sequence wire,
                 cs_frameFloor = (if version = legacySnapshotCodecVersion then 1 else sw_FrameFloor wire), cs_frames = frames,
                 cs_commands = commands, cs_workflow = workflow\<rparr>)
        | _ \<Rightarrow> Err ErrInvalidSnapshotEncoding))"

section \<open>JSON forms\<close>

text \<open>What \<open>json.Marshal\<close> makes of the wire types, field by field in the order of the struct.\<close>

definition uint_json :: "'a::len word \<Rightarrow> json" where
  "uint_json n = JNum (digits (unat n))"

definition frame_json :: "frameWire \<Rightarrow> json" where
  "frame_json f = JObj [(''sequence'', uint_json (fw_Sequence f)), (''kind'', JStr (fw_Kind f)),
     (''payload'', case fw_Payload f of None \<Rightarrow> JNull | Some p \<Rightarrow> JStr (base64_encode p))]"

definition command_json :: "commandWire \<Rightarrow> json" where
  "command_json c = JObj [(''id'', JStr (cw_ID c)), (''kind'', JStr (cw_Kind c)), (''digest'', JStr (cw_Digest c))]"

definition node_json :: "workflowNodeWire \<Rightarrow> json" where
  "node_json n = JObj [(''id'', JStr (nw_ID n)), (''kind'', JStr (nw_Kind n)), (''status'', JStr (nw_Status n)),
     (''attempt'', uint_json (nw_Attempt n)), (''child_call_id'', JStr (nw_ChildCallID n)),
     (''ready_at'', JStr (nw_ReadyAt n)), (''failure_class'', JStr (nw_FailureClass n))]"

definition workflow_json :: "workflowWire \<Rightarrow> json" where
  "workflow_json w = JObj [(''version'', JStr (ww_Version w)), (''fingerprint'', JStr (ww_Fingerprint w)),
     (''started_at'', JStr (ww_StartedAt w)), (''nodes'', JArr (map node_json (ww_Nodes w)))]"

definition snapshot_members :: "snapshotWire \<Rightarrow> (string \<times> json) list" where
  "snapshot_members w = [(''call_id'', JStr (sw_CallID w)), (''operation'', JStr (sw_Operation w)),
     (''status'', JStr (sw_Status w)), (''revision'', uint_json (sw_Revision w)), (''fence'', uint_json (sw_Fence w)),
     (''sequence'', uint_json (sw_Sequence w))] @
     (if sw_FrameFloor w = 0 then [] else [(''frame_floor'', uint_json (sw_FrameFloor w))]) @
     (if sw_ReadyAt w = [] then [] else [(''ready_at'', JStr (sw_ReadyAt w))]) @
     (case sw_Workflow w of None \<Rightarrow> [] | Some v \<Rightarrow> [(''workflow'', workflow_json v)]) @
     [(''frames'', JArr (map frame_json (sw_Frames w))), (''commands'', JArr (map command_json (sw_Commands w)))]"

definition snapshot_json :: "snapshotWire \<Rightarrow> json" where
  "snapshot_json w = JObj (snapshot_members w)"

definition document_json :: "snapshotDocument \<Rightarrow> json" where
  "document_json d = JObj [(''version'', JStr (sd_Version d)),
     (''snapshot'', case sd_Snapshot d of None \<Rightarrow> JNull | Some w \<Rightarrow> snapshot_json w),
     (''checksum'', JStr (sd_Checksum d))]"

text \<open>
  What the decoder makes of JSON values: null and an absent field leave the zero value. The shape
  check fixes the names of the fields, so the decoder's matching of other spellings never applies.
\<close>

fun str_of :: "json \<Rightarrow> string option" where
  "str_of (JStr s) = Some s"
| "str_of JNull = Some []"
| "str_of _ = None"

fun uint_of :: "nat \<Rightarrow> json \<Rightarrow> nat option" where
  "uint_of bits (JNum n) = ParseUint bits n"
| "uint_of bits JNull = Some 0"
| "uint_of bits _ = None"

definition word_of :: "json \<Rightarrow> 'a::len word option" where
  "word_of j = map_option of_nat (uint_of LENGTH('a) j)"

fun all_of :: "('a \<Rightarrow> 'b option) \<Rightarrow> 'a list \<Rightarrow> 'b list option" where
  "all_of f [] = Some []"
| "all_of f (x # xs) = (case (f x, all_of f xs) of (Some y, Some ys) \<Rightarrow> Some (y # ys) | _ \<Rightarrow> None)"

fun array_of :: "(json \<Rightarrow> 'a option) \<Rightarrow> json \<Rightarrow> 'a list option" where
  "array_of f (JArr vs) = all_of f vs"
| "array_of f JNull = Some []"
| "array_of f _ = None"

text \<open>A byte slice: base64 text, or an array of numbers below 256.\<close>

fun bytes_of :: "json \<Rightarrow> string option option" where
  "bytes_of JNull = Some None"
| "bytes_of (JStr s) = map_option Some (base64_decode s)"
| "bytes_of (JArr vs) = map_option (\<lambda>bs. Some (map char_of bs)) (all_of (uint_of 8) vs)"
| "bytes_of _ = None"

definition field :: "(string \<times> json) list \<Rightarrow> string \<Rightarrow> json" where
  "field kvs k = (case map_of kvs k of None \<Rightarrow> JNull | Some j \<Rightarrow> j)"

fun frame_of :: "json \<Rightarrow> frameWire option" where
  "frame_of (JObj kvs) = do { sequence \<leftarrow> word_of (field kvs ''sequence''); kind \<leftarrow> str_of (field kvs ''kind'');
     payload \<leftarrow> bytes_of (field kvs ''payload'');
     Some \<lparr>fw_Sequence = sequence, fw_Kind = kind, fw_Payload = payload\<rparr> }"
| "frame_of _ = None"

fun command_of :: "json \<Rightarrow> commandWire option" where
  "command_of (JObj kvs) = do { id' \<leftarrow> str_of (field kvs ''id''); kind \<leftarrow> str_of (field kvs ''kind'');
     digest \<leftarrow> str_of (field kvs ''digest'');
     Some \<lparr>cw_ID = id', cw_Kind = kind, cw_Digest = digest\<rparr> }"
| "command_of _ = None"

fun node_of :: "json \<Rightarrow> workflowNodeWire option" where
  "node_of (JObj kvs) = do { id' \<leftarrow> str_of (field kvs ''id''); kind \<leftarrow> str_of (field kvs ''kind'');
     status \<leftarrow> str_of (field kvs ''status''); attempt \<leftarrow> word_of (field kvs ''attempt'');
     child \<leftarrow> str_of (field kvs ''child_call_id''); ready \<leftarrow> str_of (field kvs ''ready_at'');
     failure \<leftarrow> str_of (field kvs ''failure_class'');
     Some \<lparr>nw_ID = id', nw_Kind = kind, nw_Status = status, nw_Attempt = attempt, nw_ChildCallID = child,
       nw_ReadyAt = ready, nw_FailureClass = failure\<rparr> }"
| "node_of _ = None"

fun workflow_of :: "json \<Rightarrow> workflowWire option option" where
  "workflow_of (JObj kvs) = do { version \<leftarrow> str_of (field kvs ''version''); fingerprint \<leftarrow> str_of (field kvs ''fingerprint'');
     started \<leftarrow> str_of (field kvs ''started_at''); nodes \<leftarrow> array_of node_of (field kvs ''nodes'');
     Some (Some \<lparr>ww_Version = version, ww_Fingerprint = fingerprint, ww_StartedAt = started, ww_Nodes = nodes\<rparr>) }"
| "workflow_of JNull = Some None"
| "workflow_of _ = None"

fun snapshot_of :: "json \<Rightarrow> snapshotWire option option" where
  "snapshot_of (JObj kvs) = do { callID \<leftarrow> str_of (field kvs ''call_id''); operation \<leftarrow> str_of (field kvs ''operation'');
     status \<leftarrow> str_of (field kvs ''status''); revision \<leftarrow> word_of (field kvs ''revision''); fence \<leftarrow> word_of (field kvs ''fence'');
     sequence \<leftarrow> word_of (field kvs ''sequence''); floor' \<leftarrow> word_of (field kvs ''frame_floor'');
     ready \<leftarrow> str_of (field kvs ''ready_at''); workflow \<leftarrow> workflow_of (field kvs ''workflow'');
     frames \<leftarrow> array_of frame_of (field kvs ''frames''); commands \<leftarrow> array_of command_of (field kvs ''commands'');
     Some (Some \<lparr>sw_CallID = callID, sw_Operation = operation, sw_Status = status, sw_Revision = revision, sw_Fence = fence,
       sw_Sequence = sequence, sw_FrameFloor = floor', sw_ReadyAt = ready, sw_Workflow = workflow, sw_Frames = frames,
       sw_Commands = commands\<rparr>) }"
| "snapshot_of JNull = Some None"
| "snapshot_of _ = None"

fun document_of :: "json \<Rightarrow> snapshotDocument option" where
  "document_of (JObj kvs) = do { version \<leftarrow> str_of (field kvs ''version''); snapshot \<leftarrow> snapshot_of (field kvs ''snapshot'');
     checksum \<leftarrow> str_of (field kvs ''checksum'');
     Some \<lparr>sd_Version = version, sd_Snapshot = snapshot, sd_Checksum = checksum\<rparr> }"
| "document_of _ = None"

section \<open>The shape of a document\<close>

text \<open>
  \<open>scanJSONValue\<close>: no object of the document, at any depth, has a key twice. The numbers it reads
  as floating point are read again as integers by the decoder, which is stricter.
\<close>

fun rejectDuplicateJSONKeys :: "json \<Rightarrow> bool" where
  "rejectDuplicateJSONKeys (JArr vs) \<longleftrightarrow> list_ex rejectDuplicateJSONKeys vs"
| "rejectDuplicateJSONKeys (JObj kvs) \<longleftrightarrow> \<not> distinct (map fst kvs) \<or> list_ex (\<lambda>(k, v). rejectDuplicateJSONKeys v) kvs"
| "rejectDuplicateJSONKeys _ \<longleftrightarrow> False"

definition hasExactFields :: "(string \<times> json) list \<Rightarrow> string list \<Rightarrow> bool" where
  "hasExactFields kvs required \<longleftrightarrow> length kvs = length required \<and> list_all (\<lambda>k. map_of kvs k \<noteq> None) required"

definition anyJSONNull :: "(string \<times> json) list \<Rightarrow> string list \<Rightarrow> bool" where
  "anyJSONNull kvs names \<longleftrightarrow> list_ex (\<lambda>k. map_of kvs k = Some JNull) names"

text \<open>Decoding into a map: null gives the nil map.\<close>

fun map_of_json :: "json \<Rightarrow> (string \<times> json) list option" where
  "map_of_json (JObj kvs) = Some kvs"
| "map_of_json JNull = Some []"
| "map_of_json _ = None"

definition elements_ok :: "((string \<times> json) list \<Rightarrow> bool) \<Rightarrow> json \<Rightarrow> bool" where
  "elements_ok ok j = (case array_of map_of_json j of None \<Rightarrow> False | Some elements \<Rightarrow> list_all ok elements)"

definition workflow_fields :: "string list" where
  "workflow_fields = [''version'', ''fingerprint'', ''started_at'', ''nodes'']"

definition node_fields :: "string list" where
  "node_fields = [''id'', ''kind'', ''status'', ''attempt'', ''child_call_id'', ''ready_at'', ''failure_class'']"

definition validateWorkflowJSONShape :: "json \<Rightarrow> bool" where
  "validateWorkflowJSONShape raw = (case map_of_json raw of None \<Rightarrow> False
   | Some workflow \<Rightarrow> hasExactFields workflow workflow_fields \<and> \<not> anyJSONNull workflow workflow_fields \<and>
       elements_ok (\<lambda>node. hasExactFields node node_fields \<and> \<not> anyJSONNull node node_fields) (field workflow ''nodes''))"

definition legacyFields :: "string list" where
  "legacyFields = [''call_id'', ''operation'', ''status'', ''revision'', ''fence'', ''sequence'', ''frames'', ''commands'']"

definition version_shapes :: "string \<Rightarrow> string list list" where
  "version_shapes version = (let current = legacyFields @ [''frame_floor'']; timer = current @ [''ready_at''];
       workflow = current @ [''workflow'']; timerWorkflow = timer @ [''workflow''] in
     if version = legacySnapshotCodecVersion then [legacyFields]
     else if version = timerSnapshotCodecVersion then [current, timer]
     else if version = retainedSnapshotCodecVersion then [current]
     else if version = snapshotCodecVersion then [current, timer, workflow, timerWorkflow]
     else [legacyFields, current, timer, workflow, timerWorkflow])"

definition snapshot_shape :: "string \<Rightarrow> (string \<times> json) list \<Rightarrow> bool" where
  "snapshot_shape version snapshot \<longleftrightarrow> list_ex (hasExactFields snapshot) (version_shapes version) \<and>
     \<not> anyJSONNull snapshot (legacyFields @ [''frame_floor'', ''ready_at'', ''workflow'']) \<and>
     (case map_of snapshot ''workflow'' of None \<Rightarrow> True | Some raw \<Rightarrow> validateWorkflowJSONShape raw) \<and>
     elements_ok (\<lambda>frame. hasExactFields frame [''sequence'', ''kind'', ''payload''] \<and>
       \<not> anyJSONNull frame [''sequence'', ''kind'']) (field snapshot ''frames'') \<and>
     elements_ok (\<lambda>command. hasExactFields command [''id'', ''kind'', ''digest''] \<and>
       \<not> anyJSONNull command [''id'', ''kind'', ''digest'']) (field snapshot ''commands'')"

definition validateSnapshotJSONShape :: "json \<Rightarrow> bool" where
  "validateSnapshotJSONShape j \<longleftrightarrow> \<not> rejectDuplicateJSONKeys j \<and>
     (case map_of_json j of None \<Rightarrow> False
      | Some document \<Rightarrow> hasExactFields document [''version'', ''snapshot'', ''checksum''] \<and>
          \<not> anyJSONNull document [''version'', ''snapshot'', ''checksum''] \<and>
          (case (map_of_json (field document ''snapshot''), str_of (field document ''version'')) of
             (Some snapshot, Some version) \<Rightarrow> snapshot_shape version snapshot
           | _ \<Rightarrow> False))"

section \<open>Marshal and parse\<close>

definition snapshotChecksum :: "(string \<Rightarrow> string) \<Rightarrow> string \<Rightarrow> string \<Rightarrow> string" where
  "snapshotChecksum sha version canonical =
     sha (writeDigestPart ''continuation-snapshot'' @ writeDigestPart version @ writeDigestPart canonical)"

definition MarshalSnapshot :: "(string \<Rightarrow> string) \<Rightarrow> CallSnapshot \<Rightarrow> goerr + string" where
  "MarshalSnapshot sha s =
     (if validateSnapshot s \<noteq> None then Err ErrInvalidSnapshotEncoding
      else (let wire = snapshotToWire s; canonical = json_text (snapshot_json wire);
          encoded = json_text (document_json \<lparr>sd_Version = snapshotCodecVersion, sd_Snapshot = Some wire,
            sd_Checksum = hex_encode (snapshotChecksum sha snapshotCodecVersion canonical)\<rparr>) in
        if length encoded > maxEncodedSnapshotSize then Err ErrSnapshotTooLarge else Ok encoded))"

definition valid_checksum :: "(string \<Rightarrow> string) \<Rightarrow> snapshotDocument \<Rightarrow> snapshotWire \<Rightarrow> bool" where
  "valid_checksum sha document wire = (case hex_decode (sd_Checksum document) of None \<Rightarrow> False
   | Some actual \<Rightarrow> length actual = 32 \<and> actual = snapshotChecksum sha (sd_Version document) (json_text (snapshot_json wire)))"

definition parse_document :: "(string \<Rightarrow> string) \<Rightarrow> snapshotDocument \<Rightarrow> goerr + CallSnapshot" where
  "parse_document sha document =
     (if sd_Version document \<notin> {legacySnapshotCodecVersion, retainedSnapshotCodecVersion, timerSnapshotCodecVersion,
        snapshotCodecVersion} then Err ErrUnsupportedSnapshotVersion
      else (case sd_Snapshot document of None \<Rightarrow> Err ErrInvalidSnapshotEncoding
        | Some wire \<Rightarrow>
          if \<not> valid_checksum sha document wire then Err ErrSnapshotChecksum
          else if (sd_Version document = legacySnapshotCodecVersion) \<noteq> (sw_FrameFloor wire = 0) then Err ErrInvalidSnapshotEncoding
          else (case snapshotFromWire wire (sd_Version document) of Err e \<Rightarrow> Err ErrInvalidSnapshotEncoding
            | Ok snapshot \<Rightarrow> if validateSnapshot snapshot \<noteq> None then Err ErrInvalidSnapshotEncoding else Ok snapshot)))"

definition ParseSnapshot :: "(string \<Rightarrow> string) \<Rightarrow> string \<Rightarrow> goerr + CallSnapshot" where
  "ParseSnapshot sha encoded =
     (if encoded = [] then Err ErrInvalidSnapshotEncoding
      else if length encoded > maxEncodedSnapshotSize then Err ErrSnapshotTooLarge
      else (case json_parse encoded of None \<Rightarrow> Err ErrInvalidSnapshotEncoding
        | Some j \<Rightarrow> if \<not> validateSnapshotJSONShape j then Err ErrInvalidSnapshotEncoding
          else (case document_of j of None \<Rightarrow> Err ErrInvalidSnapshotEncoding
            | Some document \<Rightarrow> parse_document sha document)))"

end
