(* ===== verification/Snapshot_Text.thy ===== *)
theory Snapshot_Text
  imports Snapshot_Codec
begin

text \<open>
  The text of the snapshot codec: decoding JSON undoes encoding for every wire record, and the
  documents that are written pass the shape check.
\<close>

section \<open>Wire records and JSON\<close>

lemma word_of_uint [simp]: "word_of (uint_json (n :: 'a::len word)) = Some n"
  by (simp add: word_of_def uint_json_def ParseUint_digits unsigned_less)

lemma array_of_map: "(\<And>x. x \<in> set xs \<Longrightarrow> f (g x) = Some x) \<Longrightarrow> array_of f (JArr (map g xs)) = Some xs"
  by (induction xs) simp_all

lemma frame_of_json: "frame_of (frame_json f) = Some f"
  by (cases f) (simp add: frame_json_def field_def base64_decode_encode split: option.splits)

lemma command_of_json: "command_of (command_json c) = Some c"
  by (cases c) (simp add: command_json_def field_def)

lemma node_of_json: "node_of (node_json n) = Some n"
  by (cases n) (simp add: node_json_def field_def)

lemma workflow_of_json: "workflow_of (workflow_json w) = Some (Some w)"
  by (cases w) (simp add: workflow_json_def field_def array_of_map node_of_json del: array_of.simps)

lemmas snapshot_fields = snapshot_json_def snapshot_members_def field_def

lemma snapshot_of_json: "snapshot_of (snapshot_json w) = Some (Some w)"
proof -
  have z: "word_of JNull = Some (0 :: u64)" by (simp add: word_of_def)
  have a: "array_of frame_of (JArr (map frame_json (sw_Frames w))) = Some (sw_Frames w)"
    "array_of command_of (JArr (map command_json (sw_Commands w))) = Some (sw_Commands w)"
    by (rule array_of_map, simp add: frame_of_json, rule array_of_map, simp add: command_of_json)
  show ?thesis
    by (cases "sw_FrameFloor w = 0"; cases "sw_ReadyAt w = []"; cases "sw_Workflow w")
      (simp_all add: snapshot_fields z a workflow_of_json del: array_of.simps)
qed

lemma document_of_json: "document_of (document_json d) = Some d"
  by (cases d) (simp add: document_json_def field_def snapshot_of_json split: option.splits)

section \<open>The text of a document\<close>

definition frame_text_ok :: "frameWire \<Rightarrow> bool" where
  "frame_text_ok f \<longleftrightarrow> ValidString (fw_Kind f)"

definition command_text_ok :: "commandWire \<Rightarrow> bool" where
  "command_text_ok c \<longleftrightarrow> ValidString (cw_ID c) \<and> ValidString (cw_Kind c) \<and> ValidString (cw_Digest c)"

definition node_text_ok :: "workflowNodeWire \<Rightarrow> bool" where
  "node_text_ok n \<longleftrightarrow> ValidString (nw_ID n) \<and> ValidString (nw_Kind n) \<and> ValidString (nw_Status n) \<and>
     ValidString (nw_ChildCallID n) \<and> ValidString (nw_ReadyAt n) \<and> ValidString (nw_FailureClass n)"

definition workflow_text_ok :: "workflowWire \<Rightarrow> bool" where
  "workflow_text_ok w \<longleftrightarrow> ValidString (ww_Version w) \<and> ValidString (ww_Fingerprint w) \<and> ValidString (ww_StartedAt w) \<and>
     list_all node_text_ok (ww_Nodes w)"

text \<open>All strings of a wire record are valid UTF-8.\<close>

definition wire_text_ok :: "snapshotWire \<Rightarrow> bool" where
  "wire_text_ok w \<longleftrightarrow> ValidString (sw_CallID w) \<and> ValidString (sw_Operation w) \<and> ValidString (sw_Status w) \<and>
     ValidString (sw_ReadyAt w) \<and> (\<forall>v. sw_Workflow w = Some v \<longrightarrow> workflow_text_ok v) \<and>
     list_all frame_text_ok (sw_Frames w) \<and> list_all command_text_ok (sw_Commands w)"

lemma ValidString_graphic: "graphic s \<Longrightarrow> ValidString s"
  by (auto simp: ValidString_def runes_graphic RuneError_def graphic_def list_all_iff)

lemma ValidString_Nil [simp]: "ValidString []"
  by (simp add: ValidString_def)

lemma field_names_valid [simp]:
  "ValidString ''sequence''" "ValidString ''kind''" "ValidString ''payload''" "ValidString ''id''" "ValidString ''digest''"
  "ValidString ''status''" "ValidString ''attempt''" "ValidString ''child_call_id''" "ValidString ''ready_at''"
  "ValidString ''failure_class''" "ValidString ''version''" "ValidString ''fingerprint''" "ValidString ''started_at''"
  "ValidString ''nodes''" "ValidString ''call_id''" "ValidString ''operation''" "ValidString ''revision''" "ValidString ''fence''"
  "ValidString ''frame_floor''" "ValidString ''workflow''" "ValidString ''frames''" "ValidString ''commands''"
  "ValidString ''snapshot''" "ValidString ''checksum''"
  by (rule ValidString_graphic, simp add: byte_of_def)+

lemma uint_json_ok [simp]: "json_ok (uint_json n)" "json_within k (uint_json n)"
  by (auto simp: uint_json_def)

lemma element_json_ok:
  "frame_text_ok f \<Longrightarrow> json_ok (frame_json f)" "command_text_ok c \<Longrightarrow> json_ok (command_json c)"
  "node_text_ok n \<Longrightarrow> json_ok (node_json n)"
  by (auto simp: frame_json_def frame_text_ok_def ValidString_graphic base64_encode_graphic command_json_def
      command_text_ok_def node_json_def node_text_ok_def split: option.splits)

lemma workflow_json_ok: "workflow_text_ok w \<Longrightarrow> json_ok (workflow_json w)"
  by (auto simp: workflow_json_def workflow_text_ok_def list_all_iff element_json_ok)

lemma document_json_ok:
  assumes "wire_text_ok w" and "ValidString version" and "ValidString checksum"
  shows "json_ok (document_json \<lparr>sd_Version = version, sd_Snapshot = Some w, sd_Checksum = checksum\<rparr>)"
  using assms
  by (auto simp: document_json_def snapshot_json_def snapshot_members_def wire_text_ok_def list_all_iff element_json_ok workflow_json_ok split: option.splits)

lemma document_within: "json_within maxNestingDepth (document_json d)"
proof -
  have "json_within (Suc n) (frame_json f)" "json_within (Suc n) (command_json c)" "json_within (Suc n) (node_json m)" for n f c m
    by (simp_all add: frame_json_def command_json_def node_json_def split: option.splits)
  then have "json_within (Suc (Suc (Suc n))) (workflow_json w)" for n w by (simp add: workflow_json_def list_all_iff)
  then have "json_within (Suc (Suc (Suc (Suc n)))) (snapshot_json w)" for n w
    using \<open>\<And>n f. json_within (Suc n) (frame_json f)\<close> \<open>\<And>n c. json_within (Suc n) (command_json c)\<close>
    by (auto simp: snapshot_json_def snapshot_members_def list_all_iff split: option.splits)
  then have "json_within (Suc (Suc (Suc (Suc (Suc n))))) (document_json d)" for n
    by (simp add: document_json_def split: option.splits)
  from this [of 9995] show ?thesis by (simp add: maxNestingDepth_def)
qed

lemma document_text:
  assumes "wire_text_ok w" and "ValidString version" and "ValidString checksum"
  shows "json_parse (json_text (document_json \<lparr>sd_Version = version, sd_Snapshot = Some w, sd_Checksum = checksum\<rparr>)) =
    Some (document_json \<lparr>sd_Version = version, sd_Snapshot = Some w, sd_Checksum = checksum\<rparr>)"
  using json_parse_text [OF document_json_ok [OF assms] document_within] .

section \<open>The shape of a document\<close>

lemma distinct_keys_elements:
  "\<not> rejectDuplicateJSONKeys (uint_json n)" "\<not> rejectDuplicateJSONKeys (frame_json f)" "\<not> rejectDuplicateJSONKeys (command_json c)"
  "\<not> rejectDuplicateJSONKeys (node_json m)" "\<not> rejectDuplicateJSONKeys (workflow_json w)"
proof -
  show n: "\<not> rejectDuplicateJSONKeys (uint_json n)" for n :: "'x::len word" by (simp add: uint_json_def)
  show "\<not> rejectDuplicateJSONKeys (frame_json f)" by (simp add: frame_json_def n split: option.splits)
  show "\<not> rejectDuplicateJSONKeys (command_json c)" by (simp add: command_json_def)
  show node: "\<not> rejectDuplicateJSONKeys (node_json m)" for m by (simp add: node_json_def n)
  show "\<not> rejectDuplicateJSONKeys (workflow_json w)" by (simp add: workflow_json_def node list_ex_iff)
qed

lemma distinct_keys_snapshot: "\<not> rejectDuplicateJSONKeys (snapshot_json w)"
  by (simp add: snapshot_json_def snapshot_members_def distinct_keys_elements list_ex_iff split: option.splits)

lemma elements_ok_map:
  assumes "\<And>x. x \<in> set xs \<Longrightarrow> \<exists>kvs. f x = JObj kvs \<and> ok kvs"
  shows "elements_ok ok (JArr (map f xs))"
proof -
  have "\<exists>es. all_of map_of_json (map f xs) = Some es \<and> list_all ok es" using assms
  proof (induction xs)
    case (Cons x xs)
    then obtain kvs es where "f x = JObj kvs" "ok kvs" "all_of map_of_json (map f xs) = Some es" "list_all ok es"
      by (metis list.set_intros)
    then show ?case by simp
  qed simp
  then show ?thesis by (auto simp: elements_ok_def)
qed

lemma workflow_shape: "validateWorkflowJSONShape (workflow_json w)"
proof -
  have "elements_ok (\<lambda>node. hasExactFields node node_fields \<and> \<not> anyJSONNull node node_fields) (JArr (map node_json (ww_Nodes w)))"
    by (rule elements_ok_map) (simp add: node_json_def node_fields_def hasExactFields_def anyJSONNull_def uint_json_def)
  then show ?thesis
    by (simp add: validateWorkflowJSONShape_def workflow_json_def workflow_fields_def hasExactFields_def anyJSONNull_def field_def)
qed

lemma snapshot_keys:
  "map fst (snapshot_members w) = [''call_id'', ''operation'', ''status'', ''revision'', ''fence'', ''sequence''] @
     (if sw_FrameFloor w = 0 then [] else [''frame_floor'']) @ (if sw_ReadyAt w = [] then [] else [''ready_at'']) @
     (if sw_Workflow w = None then [] else [''workflow'']) @ [''frames'', ''commands'']"
  by (simp add: snapshot_members_def split: option.splits)

lemma hasExactFields_keys: "hasExactFields kvs required \<longleftrightarrow> length (map fst kvs) = length required \<and> set required \<subseteq> set (map fst kvs)"
  by (auto simp: hasExactFields_def list_all_iff map_of_eq_None_iff simp del: not_None_eq)

lemma snapshot_exact:
  assumes "sw_FrameFloor w \<noteq> 0"
  shows "list_ex (hasExactFields (snapshot_members w)) (version_shapes snapshotCodecVersion)"
proof -
  let ?current = "legacyFields @ [''frame_floor'']"
  let ?ready = "if sw_ReadyAt w = [] then [] else [''ready_at'']" and ?flow = "if sw_Workflow w = None then [] else [''workflow'']"
  have "hasExactFields (snapshot_members w) (?current @ ?ready @ ?flow)"
    unfolding hasExactFields_keys snapshot_keys legacyFields_def using assms by simp
  moreover have "?current @ ?ready @ ?flow \<in> set (version_shapes snapshotCodecVersion)"
    by (simp add: version_shapes_def codec_versions)
  ultimately show ?thesis unfolding list_ex_iff by blast
qed

lemma snapshot_nonnull: "(k, JNull) \<notin> set (snapshot_members w)"
  by (auto simp: snapshot_members_def uint_json_def workflow_json_def split: option.splits)

lemma snapshot_lookup:
  "field (snapshot_members w) ''frames'' = JArr (map frame_json (sw_Frames w))"
  "field (snapshot_members w) ''commands'' = JArr (map command_json (sw_Commands w))"
  "map_of (snapshot_members w) ''workflow'' = map_option workflow_json (sw_Workflow w)"
  by (simp_all add: snapshot_members_def field_def split: option.splits)

lemma snapshot_shape_members:
  assumes "sw_FrameFloor w \<noteq> 0"
  shows "snapshot_shape snapshotCodecVersion (snapshot_members w)"
proof -
  have "elements_ok (\<lambda>frame. hasExactFields frame [''sequence'', ''kind'', ''payload''] \<and> \<not> anyJSONNull frame [''sequence'', ''kind''])
      (JArr (map frame_json (sw_Frames w)))"
    by (rule elements_ok_map) (simp add: frame_json_def hasExactFields_def anyJSONNull_def uint_json_def)
  moreover have "elements_ok (\<lambda>command. hasExactFields command [''id'', ''kind'', ''digest''] \<and> \<not> anyJSONNull command [''id'', ''kind'', ''digest''])
      (JArr (map command_json (sw_Commands w)))"
    by (rule elements_ok_map) (simp add: command_json_def hasExactFields_def anyJSONNull_def)
  moreover have "\<not> anyJSONNull (snapshot_members w) names" for names
    using snapshot_nonnull [of _ w] by (auto simp: anyJSONNull_def list_ex_iff dest: map_of_SomeD)
  ultimately show ?thesis using snapshot_exact [OF assms] workflow_shape
    by (simp add: snapshot_shape_def snapshot_lookup split: option.splits)
qed

lemma document_shape:
  assumes "sw_FrameFloor w \<noteq> 0"
  shows "validateSnapshotJSONShape (document_json \<lparr>sd_Version = snapshotCodecVersion, sd_Snapshot = Some w, sd_Checksum = checksum\<rparr>)"
  using snapshot_shape_members [OF assms] distinct_keys_snapshot [of w]
  by (simp add: validateSnapshotJSONShape_def document_json_def hasExactFields_def anyJSONNull_def field_def snapshot_json_def)

end
