(* ===== verification/Snapshot_Laws.thy ===== *)
theory Snapshot_Laws
  imports Snapshot_Text Continuation_Laws
begin

text \<open>
  The codec of snapshots: what is marshalled is parsed to the same snapshot, and what parsing
  accepts, in every version, is a valid snapshot that can be stored and read again.
\<close>

section \<open>Snapshots and wire records\<close>

lemma gm_put_new: "k \<notin> set (gm_keys m) \<Longrightarrow> gm_put k v m = m @ [(k, v)]"
  by (induction m) auto

lemma sorted_map_props:
  assumes "gm_wf m"
  shows "set (sorted_map m) = set m" "gm_wf (sorted_map m)" "gm_get (sorted_map m) = gm_get m" "length (sorted_map m) = length m"
proof -
  have keys: "gm_keys (sorted_map m) = sort (gm_keys m)" by (simp add: sorted_map_def comp_def)
  show wf: "gm_wf (sorted_map m)" using assms by (simp add: gm_wf_def keys)
  show sets: "set (sorted_map m) = set m"
    using gm_mem_get [OF assms] assms by (force simp: sorted_map_def gm_wf_def)
  show "gm_get (sorted_map m) = gm_get m" using gm_mem_get [OF assms] gm_mem_get [OF wf] sets by (metis map_of_inject_set gm_wf_def assms wf)
  show "length (sorted_map m) = length m" by (simp add: sorted_map_def)
qed

text \<open>The invariants of Go's types that the lists of the model do not have.\<close>

definition typed_snapshot :: "CallSnapshot \<Rightarrow> bool" where
  "typed_snapshot s \<longleftrightarrow> gm_wf (cs_commands s) \<and> (\<forall>(k, r) \<in> set (cs_commands s). length (cr_digest r) = 32) \<and>
     (\<forall>w. cs_workflow s = Some w \<longrightarrow> gm_wf (wf_Nodes w))"

definition year_ok :: "go_time \<Rightarrow> bool" where
  "year_ok t \<longleftrightarrow> 0 \<le> time_year t \<and> time_year t \<le> 9999"

text \<open>All times lie in the years that RFC 3339 can write.\<close>

definition years_ok :: "CallSnapshot \<Rightarrow> bool" where
  "years_ok s \<longleftrightarrow> year_ok (cs_readyAt s) \<and> (\<forall>w. cs_workflow s = Some w \<longrightarrow>
     year_ok (wf_StartedAt w) \<and> (\<forall>(k, n) \<in> set (wf_Nodes w). year_ok (ns_ReadyAt n)))"

text \<open>The same snapshot with the entries of its maps in the order of their keys.\<close>

definition sorted_snapshot :: "CallSnapshot \<Rightarrow> CallSnapshot" where
  "sorted_snapshot s = s\<lparr>cs_commands := sorted_map (cs_commands s),
     cs_workflow := map_option (\<lambda>w. w\<lparr>wf_Nodes := sorted_map (wf_Nodes w)\<rparr>) (cs_workflow s)\<rparr>"

lemma year_ok_zero: "year_ok 0"
  by (simp add: year_ok_def time_year_def civil_year_def Let_def)

lemma read_ready:
  "(if formatReadyAt t = [] then Some 0 else parse_canonical (formatReadyAt t)) = (if year_ok t then Some t else None)"
  using parse_canonical_Format [of t] time_Format_nonempty [of t] year_ok_zero
  by (auto simp: formatReadyAt_def time_IsZero_def year_ok_def)

lemma frames_round_trip:
  assumes "\<forall>f \<in> set frames. FrameKind_valid (fr_kind f) \<and> length (fr_payload f) \<le> maxPayloadBytes"
  shows "frames_from_wire (sw_Frames (snapshotToWire (s\<lparr>cs_frames := frames\<rparr>))) = Some frames"
proof -
  have "frames_from_wire (map (\<lambda>f. \<lparr>fw_Sequence = fr_sequence f, fw_Kind = frameKind_string (fr_kind f),
       fw_Payload = (if fr_payload f = [] then None else Some (fr_payload f))\<rparr>) frames) = Some frames"
    using assms by (induction frames) (auto simp: FrameKind_of_string)
  then show ?thesis by (simp add: snapshotToWire_def)
qed

lemma commands_round_trip:
  assumes "\<forall>(k, r) \<in> set entries. length (cr_digest r) = 32 \<and> (cr_kind r = commandSignal \<or> cr_kind r = commandCancel)"
    and "distinct (gm_keys (acc @ entries))"
  shows "commands_from_wire (map (\<lambda>(id', r). \<lparr>cw_ID = id', cw_Kind = commandKind_string (cr_kind r),
       cw_Digest = hex_encode (cr_digest r)\<rparr>) entries) acc = Some (acc @ entries)"
  using assms
proof (induction entries arbitrary: acc)
  case (Cons e entries)
  obtain k r where e: "e = (k, r)" by fastforce
  have "k \<notin> set (gm_keys acc)" using Cons.prems(2) by (auto simp: e)
  then have put: "gm_get acc k = None" "gm_put k r acc = acc @ [(k, r)]" by (simp_all only: gm_get_None_iff gm_put_new not_False_eq_True)
  have r: "length (cr_digest r) = 32" "cr_kind r = commandSignal \<or> cr_kind r = commandCancel" using Cons.prems(1) by (simp_all add: e)
  have eta: "\<lparr>cr_kind = cr_kind r, cr_digest = cr_digest r\<rparr> = r" by simp
  have rest: "\<forall>(k, r) \<in> set entries. length (cr_digest r) = 32 \<and> (cr_kind r = commandSignal \<or> cr_kind r = commandCancel)"
    using Cons.prems(1) by simp
  have "distinct (gm_keys ((acc @ [e]) @ entries))" using Cons.prems(2) by simp
  from Cons.IH [OF rest this] show ?case by (simp add: e hex_decode_encode r(1) commandKind_of_string [OF r(2)] put eta)
qed simp

lemma node_wire_sel:
  "nw_ID (node_wire n) = ns_ID n" "nw_Kind (node_wire n) = nodeKind_string (ns_Kind n)"
  "nw_Status (node_wire n) = nodeStatus_string (ns_Status n)" "nw_Attempt (node_wire n) = ns_Attempt n"
  "nw_ChildCallID (node_wire n) = ns_ChildCallID n" "nw_ReadyAt (node_wire n) = formatReadyAt (ns_ReadyAt n)"
  "nw_FailureClass (node_wire n) = ns_FailureClass n"
  by (simp_all add: node_wire_def)

lemma nodes_round_trip:
  assumes "\<forall>(k, n) \<in> set entries. valid_node_state k n" and "distinct (gm_keys (acc @ entries))"
  shows "nodes_from_wire (map (\<lambda>(id', node). node_wire node) entries) acc =
    (if \<forall>(k, n) \<in> set entries. year_ok (ns_ReadyAt n) then Ok (acc @ entries) else Err ErrInvalidWorkflow)"
  using assms
proof (induction entries arbitrary: acc)
  case (Cons e entries)
  obtain k n where e: "e = (k, n)" by fastforce
  have n: "ns_ID n = k" "NodeKind_valid (ns_Kind n)" "NodeStatus_valid (ns_Status n)"
    "ns_ChildCallID n \<noteq> [] \<longrightarrow> call_validIdentity (ns_ChildCallID n)"
    using Cons.prems(1) by (auto simp: e valid_node_state_def)
  have "k \<notin> set (gm_keys acc)" using Cons.prems(2) by (auto simp: e)
  then have put: "gm_get acc k = None" "gm_put k n acc = acc @ [(k, n)]" by (simp_all only: gm_get_None_iff gm_put_new not_False_eq_True)
  have rest: "\<forall>(k, n) \<in> set entries. valid_node_state k n" "distinct (gm_keys ((acc @ [e]) @ entries))"
    using Cons.prems by simp_all
  have eta: "\<lparr>ns_ID = k, ns_Kind = ns_Kind n, ns_Status = ns_Status n, ns_Attempt = ns_Attempt n,
    ns_ChildCallID = ns_ChildCallID n, ns_ReadyAt = ns_ReadyAt n, ns_FailureClass = ns_FailureClass n\<rparr> = n" using n(1) by auto
  have "nodes_from_wire (map (\<lambda>(id', node). node_wire node) (e # entries)) acc =
    (if year_ok (ns_ReadyAt n) then nodes_from_wire (map (\<lambda>(id', node). node_wire node) entries) (acc @ [e]) else Err ErrInvalidWorkflow)"
    unfolding e list.map prod.case nodes_from_wire.simps node_wire_sel read_ready n(1) nodeKind_of_string [OF n(2)]
      nodeStatus_of_string [OF n(3)] put(1)
    using n(4) by (cases "year_ok (ns_ReadyAt n)") (auto simp: put(2) eta)
  then show ?case unfolding Cons.IH [OF rest] by (auto simp: e)
qed simp

lemma workflow_round_trip:
  assumes "validateWorkflowState (Some w) = None" and "gm_wf (wf_Nodes w)"
  shows "workflowFromWire (workflowToWire (Some w)) =
    (if year_ok (wf_StartedAt w) \<and> (\<forall>(k, n) \<in> set (wf_Nodes w). year_ok (ns_ReadyAt n))
     then Ok (Some (w\<lparr>wf_Nodes := sorted_map (wf_Nodes w)\<rparr>)) else Err ErrInvalidWorkflow)"
proof -
  note props = sorted_map_props [OF assms(2)]
  have valid: "validateWorkflowState (Some (w\<lparr>wf_Nodes := sorted_map (wf_Nodes w)\<rparr>)) = None"
    using assms(1) props by (simp add: validateWorkflowState_def list_all_iff split: if_splits)
  have start: "parse_canonical (formatReadyAt (wf_StartedAt w)) = (if year_ok (wf_StartedAt w) then Some (wf_StartedAt w) else None)"
    using assms(1) read_ready [of "wf_StartedAt w"] time_Format_nonempty
    by (auto simp: validateWorkflowState_def formatReadyAt_def split: if_splits)
  have "\<forall>(k, n) \<in> set (sorted_map (wf_Nodes w)). valid_node_state k n"
    using assms(1) props(1) by (auto simp: validateWorkflowState_def list_all_iff split: if_splits)
  then have nodes: "nodes_from_wire (map (\<lambda>(id', node). node_wire node) (sorted_map (wf_Nodes w))) [] =
    (if \<forall>(k, n) \<in> set (wf_Nodes w). year_ok (ns_ReadyAt n) then Ok (sorted_map (wf_Nodes w)) else Err ErrInvalidWorkflow)"
    using nodes_round_trip [of "sorted_map (wf_Nodes w)" "[]"] props by (simp add: gm_wf_def)
  have eta: "\<lparr>wf_Version = wf_Version w, wf_Fingerprint = wf_Fingerprint w, wf_StartedAt = wf_StartedAt w,
      wf_Nodes = sorted_map (wf_Nodes w)\<rparr> = w\<lparr>wf_Nodes := sorted_map (wf_Nodes w)\<rparr>" by simp
  show ?thesis
    using valid by (simp add: workflowFromWire_def workflowToWire_def start nodes eta Let_def split: if_splits)
qed

lemma ready_round_trip:
  "ready_from_wire (snapshotToWire s) snapshotCodecVersion = (if year_ok (cs_readyAt s) then Some (cs_readyAt s) else None)"
  using read_ready [of "cs_readyAt s"] by (simp add: ready_from_wire_def snapshotToWire_def split: if_splits)

lemma snapshot_frames_ok:
  assumes "snapshot_ok s"
  shows "\<forall>f \<in> set (cs_frames s). FrameKind_valid (fr_kind f) \<and> length (fr_payload f) \<le> maxPayloadBytes"
proof -
  have "\<forall>i < length (cs_frames s). valid_frame_at (cs_frameFloor s) (cs_frames s ! i) i" using assms by (simp add: snapshot_ok_def)
  then show ?thesis by (fastforce simp: valid_frame_at_def in_set_conv_nth)
qed

lemma snapshot_round_trip_wire:
  assumes "snapshot_ok s" and "typed_snapshot s"
  shows "snapshotFromWire (snapshotToWire s) snapshotCodecVersion =
    (if years_ok s then Ok (sorted_snapshot s) else Err ErrInvalidSnapshotEncoding)"
proof -
  note props = sorted_map_props [of "cs_commands s"]
  have ids: "is_Ok (NewCallID (cs_callID s))" "is_Ok (NewOperation (cs_operation s))" "Status_of (status_string (cs_status s)) = cs_status s"
    using assms(1) by (simp_all add: snapshot_ok_def NewCallID_def NewOperation_def Status_of_string)
  have frames: "frames_from_wire (sw_Frames (snapshotToWire s)) = Some (cs_frames s)"
    using frames_round_trip [OF snapshot_frames_ok [OF assms(1)], of s] by simp
  have "\<forall>(k, r) \<in> set (sorted_map (cs_commands s)). length (cr_digest r) = 32 \<and> (cr_kind r = commandSignal \<or> cr_kind r = commandCancel)"
    using assms props(1) by (auto simp: snapshot_ok_def typed_snapshot_def)
  then have commands: "commands_from_wire (sw_Commands (snapshotToWire s)) [] = Some (sorted_map (cs_commands s))"
    using commands_round_trip [of "sorted_map (cs_commands s)" "[]"] assms(2) props(2)
    by (simp add: snapshotToWire_def typed_snapshot_def gm_wf_def)
  have flow: "workflowFromWire (workflowToWire (cs_workflow s)) =
    (if \<forall>w. cs_workflow s = Some w \<longrightarrow> year_ok (wf_StartedAt w) \<and> (\<forall>(k, n) \<in> set (wf_Nodes w). year_ok (ns_ReadyAt n))
     then Ok (cs_workflow (sorted_snapshot s)) else Err ErrInvalidWorkflow)"
  proof (cases "cs_workflow s")
    case None
    then show ?thesis by (simp add: workflowFromWire_def workflowToWire_def sorted_snapshot_def)
  next
    case (Some w)
    then show ?thesis using workflow_round_trip [of w] assms by (simp add: snapshot_ok_def typed_snapshot_def sorted_snapshot_def)
  qed
  have wire: "sw_CallID (snapshotToWire s) = cs_callID s" "sw_Operation (snapshotToWire s) = cs_operation s"
    "sw_Workflow (snapshotToWire s) = workflowToWire (cs_workflow s)" by (simp_all add: snapshotToWire_def)
  have result: "\<lparr>cs_callID = cs_callID s, cs_operation = cs_operation s, cs_status = Status_of (sw_Status (snapshotToWire s)),
      cs_readyAt = cs_readyAt s, cs_revision = sw_Revision (snapshotToWire s), cs_fence = sw_Fence (snapshotToWire s),
      cs_sequence = sw_Sequence (snapshotToWire s), cs_frameFloor = sw_FrameFloor (snapshotToWire s), cs_frames = cs_frames s,
      cs_commands = sorted_map (cs_commands s), cs_workflow = cs_workflow (sorted_snapshot s)\<rparr> = sorted_snapshot s"
    by (simp add: snapshotToWire_def ids(3) sorted_snapshot_def)
  have version: "(snapshotCodecVersion = legacySnapshotCodecVersion) = False" by (simp add: codec_versions)
  show ?thesis
    unfolding snapshotFromWire_def frames commands ready_round_trip wire flow version years_ok_def
    using ids(1,2) result by (cases "year_ok (cs_readyAt s)") simp_all
qed

lemma sorted_snapshot_ok:
  assumes "snapshot_ok s" and "typed_snapshot s"
  shows "snapshot_ok (sorted_snapshot s)"
proof -
  have wf: "gm_wf (cs_commands s)" using assms(2) by (simp add: typed_snapshot_def)
  have "validateWorkflowState (cs_workflow (sorted_snapshot s)) = None"
  proof (cases "cs_workflow s")
    case (Some w)
    then have "gm_wf (wf_Nodes w)" "validateWorkflowState (Some w) = None" using assms by (simp_all add: typed_snapshot_def snapshot_ok_def)
    then show ?thesis using Some sorted_map_props [of "wf_Nodes w"]
      by (simp add: sorted_snapshot_def validateWorkflowState_def list_all_iff split: if_splits)
  qed (simp add: sorted_snapshot_def validateWorkflowState_def)
  moreover have "valid_initial (sorted_snapshot s) \<longleftrightarrow> valid_initial s"
    by (simp add: valid_initial_def sorted_snapshot_def sorted_map_props(4) [OF wf])
  ultimately show ?thesis using assms(1) sorted_map_props(1) [OF wf] by (simp add: snapshot_ok_def sorted_snapshot_def)
qed

section \<open>The text of a snapshot\<close>

lemma identity_valid_string: "call_validIdentity v \<Longrightarrow> ValidString v"
  by (simp add: call_validIdentity_def validIdentity_def)

lemma constant_strings:
  "Status_valid st \<Longrightarrow> ValidString (status_string st)" "FrameKind_valid k \<Longrightarrow> ValidString (frameKind_string k)"
  "NodeKind_valid nk \<Longrightarrow> ValidString (nodeKind_string nk)" "NodeStatus_valid ns \<Longrightarrow> ValidString (nodeStatus_string ns)"
  "ck = commandSignal \<or> ck = commandCancel \<Longrightarrow> ValidString (commandKind_string ck)"
proof -
  show "Status_valid st \<Longrightarrow> ValidString (status_string st)"
    by (cases st) (auto intro!: ValidString_graphic simp: Status_valid_def byte_of_def)
  show "FrameKind_valid k \<Longrightarrow> ValidString (frameKind_string k)"
    by (cases k) (auto intro!: ValidString_graphic simp: FrameKind_valid_def byte_of_def)
  show "NodeKind_valid nk \<Longrightarrow> ValidString (nodeKind_string nk)"
    by (cases nk) (auto intro!: ValidString_graphic simp: NodeKind_valid_def byte_of_def)
  show "NodeStatus_valid ns \<Longrightarrow> ValidString (nodeStatus_string ns)"
    by (cases ns) (auto intro!: ValidString_graphic simp: NodeStatus_valid_def byte_of_def)
  show "ck = commandSignal \<or> ck = commandCancel \<Longrightarrow> ValidString (commandKind_string ck)"
    by (elim disjE) (auto intro!: ValidString_graphic simp: byte_of_def)
qed

lemma formatReadyAt_valid: "ValidString (formatReadyAt t)"
  by (simp add: formatReadyAt_def ValidString_graphic time_Format_graphic)

lemma node_wire_text:
  assumes "valid_node_state k n"
  shows "node_text_ok (node_wire n)"
proof -
  have "call_validIdentity (ns_ID n)" "NodeKind_valid (ns_Kind n)" "NodeStatus_valid (ns_Status n)"
    "ns_FailureClass n = [] \<or> call_validIdentity (ns_FailureClass n)" "ns_ChildCallID n = [] \<or> call_validIdentity (ns_ChildCallID n)"
    using assms by (auto simp: valid_node_state_def)
  then show ?thesis
    by (auto simp: node_text_ok_def node_wire_sel identity_valid_string constant_strings formatReadyAt_valid)
qed

lemma workflow_wire_text:
  assumes "validateWorkflowState (Some w) = None" and "gm_wf (wf_Nodes w)" and "workflowToWire (Some w) = Some v"
  shows "workflow_text_ok v"
proof -
  have w: "call_validIdentity (wf_Version w)" "list_all is_hex (wf_Fingerprint w)"
    "\<forall>(k, n) \<in> set (wf_Nodes w). valid_node_state k n"
    using assms(1) by (auto simp: validateWorkflowState_def list_all_iff split: if_splits)
  have "graphic (wf_Fingerprint w)" using w(2) by (auto simp: graphic_def list_all_iff is_hex_def in_range_def)
  moreover have "list_all node_text_ok (ww_Nodes v)"
    using w(3) assms(3) sorted_map_props(1) [OF assms(2)] node_wire_text by (fastforce simp: workflowToWire_def list_all_iff)
  ultimately show ?thesis using w(1) assms(3)
    by (auto simp: workflow_text_ok_def workflowToWire_def identity_valid_string ValidString_graphic formatReadyAt_valid)
qed

lemma snapshot_wire_text:
  assumes "snapshot_ok s" and "typed_snapshot s"
  shows "wire_text_ok (snapshotToWire s)"
proof -
  have flow: "workflow_text_ok v" if "workflowToWire (cs_workflow s) = Some v" for v
    using that workflow_wire_text assms by (cases "cs_workflow s") (auto simp: snapshot_ok_def typed_snapshot_def workflowToWire_def)
  have "list_all frame_text_ok (sw_Frames (snapshotToWire s))"
    using snapshot_frames_ok [OF assms(1)] constant_strings(2) by (auto simp: snapshotToWire_def frame_text_ok_def list_all_iff)
  moreover have "list_all command_text_ok (sw_Commands (snapshotToWire s))"
    using assms sorted_map_props(1) [of "cs_commands s"] constant_strings(5) identity_valid_string
    by (fastforce simp: snapshotToWire_def command_text_ok_def list_all_iff snapshot_ok_def typed_snapshot_def
        ValidString_graphic hex_encode_graphic)
  moreover have "call_validIdentity (cs_operation s)" using assms(1) by (simp add: snapshot_ok_def call_validOperation_def)
  ultimately show ?thesis
    using assms(1) flow constant_strings(1)
    by (simp add: wire_text_ok_def snapshotToWire_def identity_valid_string formatReadyAt_valid snapshot_ok_def)
qed

section \<open>Marshal and parse\<close>

lemma snapshot_parsed:
  assumes "MarshalSnapshot sha s = Ok encoded" and "typed_snapshot s" and "\<forall>x. length (sha x) = 32"
  shows "ParseSnapshot sha encoded = (if years_ok s then Ok (sorted_snapshot s) else Err ErrInvalidSnapshotEncoding)"
proof -
  let ?w = "snapshotToWire s" and ?sum = "snapshotChecksum sha snapshotCodecVersion (json_text (snapshot_json (snapshotToWire s)))"
  let ?d = "\<lparr>sd_Version = snapshotCodecVersion, sd_Snapshot = Some ?w, sd_Checksum = hex_encode ?sum\<rparr>"
  have ok: "snapshot_ok s" and enc: "encoded = json_text (document_json ?d)" "length encoded \<le> maxEncodedSnapshotSize"
    using assms(1) by (auto simp: MarshalSnapshot_def Let_def validateSnapshot_ok split: if_splits)
  have floor: "sw_FrameFloor ?w \<noteq> 0" using ok by (simp add: snapshotToWire_def snapshot_ok_def)
  have "ValidString snapshotCodecVersion" by (rule ValidString_graphic) (simp add: codec_versions byte_of_def)
  then have parse: "json_parse encoded = Some (document_json ?d)"
    using document_text [OF snapshot_wire_text [OF ok assms(2)]] by (simp add: enc(1) ValidString_graphic hex_encode_graphic)
  have "encoded \<noteq> []" by (simp add: enc(1) document_json_def)
  then have "ParseSnapshot sha encoded = parse_document sha ?d"
    using enc(2) parse document_shape [OF floor] by (simp add: ParseSnapshot_def document_of_json not_less)
  also have "\<dots> = (if years_ok s then Ok (sorted_snapshot s) else Err ErrInvalidSnapshotEncoding)"
    using floor assms(3) validateSnapshot_ok [THEN iffD2, OF sorted_snapshot_ok [OF ok assms(2)]]
    by (simp add: parse_document_def valid_checksum_def hex_decode_encode snapshotChecksum_def codec_versions
        snapshot_round_trip_wire [OF ok assms(2), unfolded codec_versions])
  finally show ?thesis .
qed

text \<open>
  C21. Snapshots survive storage. A snapshot that was marshalled is parsed from the bytes to the same
  snapshot, its maps listed by key, when its times lie in the years 0 to 9999; outside them the
  written document is rejected. The hypotheses say that SHA-256 gives 32 bytes and that the maps and
  digests are those of Go's types.
\<close>

theorem snapshot_round_trip:
  assumes "MarshalSnapshot sha s = Ok encoded" and "typed_snapshot s" and "\<forall>x. length (sha x) = 32"
  shows "ParseSnapshot sha encoded = (if years_ok s then Ok (sorted_snapshot s) else Err ErrInvalidSnapshotEncoding)"
  by (rule snapshot_parsed [OF assms])

text \<open>What the wire records of an accepted document have become.\<close>

lemma parse_canonical_year: "parse_canonical v = Some t \<Longrightarrow> year_ok t"
  using parse_canonical_sound [of v t] parse_canonical_Format [of t] by (auto simp: year_ok_def split: if_splits)

lemma gm_put_ball:
  assumes "\<forall>(k, v) \<in> set m. P v" and "P u" and "gm_get m key = None"
  shows "\<forall>(k, v) \<in> set (gm_put key u m). P v"
  using assms gm_put_new [of key m u] by (auto simp: gm_get_None_iff)

lemma commands_from_wire_typed:
  "commands_from_wire es acc = Some m \<Longrightarrow> gm_wf acc \<Longrightarrow> \<forall>(k, r) \<in> set acc. length (cr_digest r) = 32 \<Longrightarrow>
     gm_wf m \<and> (\<forall>(k, r) \<in> set m. length (cr_digest r) = 32)"
proof (induction es arbitrary: acc)
  case (Cons e es)
  from Cons.prems(1) obtain digest where d: "length digest = 32" "gm_get acc (cw_ID e) = None"
      "commands_from_wire es (gm_put (cw_ID e) \<lparr>cr_kind = commandKind_of (cw_Kind e), cr_digest = digest\<rparr> acc) = Some m"
    by (auto split: if_splits option.splits)
  define r where "r = \<lparr>cr_kind = commandKind_of (cw_Kind e), cr_digest = digest\<rparr>"
  have r: "length (cr_digest r) = 32" "gm_get acc (cw_ID e) = None" "commands_from_wire es (gm_put (cw_ID e) r acc) = Some m"
    using d by (simp_all add: r_def)
  show ?case by (rule Cons.IH [OF r(3) gm_wf_put [OF Cons.prems(2)] gm_put_ball [OF Cons.prems(3) r(1,2)]])
qed simp

lemma nodes_from_wire_typed:
  "nodes_from_wire es acc = Ok m \<Longrightarrow> gm_wf acc \<Longrightarrow> \<forall>(k, n) \<in> set acc. year_ok (ns_ReadyAt n) \<Longrightarrow>
     gm_wf m \<and> (\<forall>(k, n) \<in> set m. year_ok (ns_ReadyAt n))"
proof (induction es arbitrary: acc)
  case (Cons e es)
  from Cons.prems(1) obtain readyAt where d: "gm_get acc (nw_ID e) = None"
      "(if nw_ReadyAt e = [] then Some 0 else parse_canonical (nw_ReadyAt e)) = Some readyAt"
      "nodes_from_wire es (gm_put (nw_ID e) \<lparr>ns_ID = nw_ID e, ns_Kind = nodeKind_of (nw_Kind e),
        ns_Status = nodeStatus_of (nw_Status e), ns_Attempt = nw_Attempt e, ns_ChildCallID = nw_ChildCallID e,
        ns_ReadyAt = readyAt, ns_FailureClass = nw_FailureClass e\<rparr> acc) = Ok m"
    unfolding nodes_from_wire.simps by (auto split: if_splits option.splits simp del: nodes_from_wire.simps)
  define n where "n = \<lparr>ns_ID = nw_ID e, ns_Kind = nodeKind_of (nw_Kind e), ns_Status = nodeStatus_of (nw_Status e),
    ns_Attempt = nw_Attempt e, ns_ChildCallID = nw_ChildCallID e, ns_ReadyAt = readyAt, ns_FailureClass = nw_FailureClass e\<rparr>"
  have n: "year_ok (ns_ReadyAt n)" "gm_get acc (nw_ID e) = None" "nodes_from_wire es (gm_put (nw_ID e) n acc) = Ok m"
    using d parse_canonical_year year_ok_zero by (auto simp: n_def split: if_splits)
  show ?case by (rule Cons.IH [OF n(3) gm_wf_put [OF Cons.prems(2)] gm_put_ball [OF Cons.prems(3) n(1,2)]])
qed simp

lemma workflowFromWire_typed:
  assumes "workflowFromWire v = Ok (Some w)"
  shows "gm_wf (wf_Nodes w) \<and> year_ok (wf_StartedAt w) \<and> (\<forall>(k, n) \<in> set (wf_Nodes w). year_ok (ns_ReadyAt n))"
proof -
  obtain es start nodes where "nodes_from_wire es [] = Ok nodes" "parse_canonical start = Some (wf_StartedAt w)" "wf_Nodes w = nodes"
    using assms by (auto simp: workflowFromWire_def Let_def split: option.splits sum.splits)
  then show ?thesis using nodes_from_wire_typed [of es "[]" nodes] parse_canonical_year by simp
qed

lemma snapshotFromWire_typed:
  assumes "snapshotFromWire wire version = Ok s"
  shows "typed_snapshot s \<and> years_ok s"
proof -
  obtain frames commands readyAt where parts: "commands_from_wire (sw_Commands wire) [] = Some commands"
      "ready_from_wire wire version = Some readyAt" "cs_commands s = commands" "cs_readyAt s = readyAt"
      "cs_workflow s = None \<or> workflowFromWire (sw_Workflow wire) = Ok (cs_workflow s)"
    using assms by (auto simp: snapshotFromWire_def split: if_splits option.splits sum.splits)
  have "year_ok readyAt" using parts(2) parse_canonical_year year_ok_zero by (auto simp: ready_from_wire_def split: if_splits)
  then show ?thesis
    using commands_from_wire_typed [OF parts(1)] workflowFromWire_typed [of "sw_Workflow wire"] parts(3-5)
    by (auto simp: typed_snapshot_def years_ok_def)
qed

text \<open>
  C22. What is parsed can be kept. Whatever bytes of whatever version are accepted, the snapshot is
  valid, and writing it again in the current version, unless it is too large, gives bytes that are
  parsed to the same snapshot.
\<close>

theorem parsed_snapshot_kept:
  assumes "ParseSnapshot sha encoded = Ok s" and "\<forall>x. length (sha x) = 32"
  shows "validateSnapshot s = None \<and> (MarshalSnapshot sha s = Err ErrSnapshotTooLarge \<or>
    (\<exists>written. MarshalSnapshot sha s = Ok written \<and> ParseSnapshot sha written = Ok (sorted_snapshot s)))"
proof -
  obtain d wire where "parse_document sha d = Ok s" using assms(1) by (auto simp: ParseSnapshot_def split: if_splits option.splits)
  then obtain wire where wire: "snapshotFromWire wire (sd_Version d) = Ok s" "validateSnapshot s = None"
    by (auto simp: parse_document_def split: if_splits option.splits sum.splits)
  note typed = snapshotFromWire_typed [OF wire(1)]
  have "MarshalSnapshot sha s = Err ErrSnapshotTooLarge \<or> (\<exists>written. MarshalSnapshot sha s = Ok written)"
    using wire(2) by (simp add: MarshalSnapshot_def Let_def)
  then show ?thesis using snapshot_parsed wire(2) typed assms(2) by auto
qed

section \<open>Witnesses\<close>

definition codec_demo :: "go_time \<Rightarrow> CallSnapshot" where
  "codec_demo readyAt = \<lparr>cs_callID = ''c'', cs_operation = ''/s/m'', cs_status = StatusSuspended, cs_readyAt = readyAt,
     cs_revision = 3, cs_fence = 1, cs_sequence = 1, cs_frameFloor = 1,
     cs_frames = [\<lparr>fr_sequence = 1, fr_kind = FrameSignal, fr_payload = ''p''\<rparr>],
     cs_commands = [(''i'', \<lparr>cr_kind = commandSignal, cr_digest = replicate 32 (CHR ''d'')\<rparr>)], cs_workflow = None\<rparr>"

definition codec_sha :: "string \<Rightarrow> string" where
  "codec_sha v = replicate 32 (CHR ''h'')"

lemma length_json_body: "length (json_body v) \<le> 6 * length v"
proof (induction v rule: json_body.induct)
  case (1 v)
  show ?case
  proof (cases v)
    case (Cons c t)
    obtain r w where d: "DecodeRune v = (r, w)" by fastforce
    have w: "0 < w" "w \<le> length v" using DecodeRune_width_pos [of v] d by (auto simp: Cons DecodeRune.simps(2) Let_def case_prod_beta split: if_splits list.splits)
    have "length (json_escape r w (take w v)) \<le> 6 * w" using w by (auto simp: json_escape_def hex4_def)
    moreover have "length (json_body (drop w v)) \<le> 6 * (length v - w)" using 1 [OF _ d [symmetric] refl] Cons by simp
    ultimately show ?thesis using w Cons d by (subst json_body.simps) simp
  qed (simp add: json_body.simps)
qed

text \<open>A bound for the length of a text.\<close>

fun text_bound :: "json \<Rightarrow> nat" where
  "text_bound (JNum n) = length n"
| "text_bound (JStr v) = 6 * length v + 2"
| "text_bound (JArr vs) = sum_list (map (\<lambda>v. text_bound v + 1) vs) + 2"
| "text_bound (JObj kvs) = sum_list (map (\<lambda>(k, v). 6 * length k + text_bound v + 4) kvs) + 2"
| "text_bound _ = 5"

lemma length_commas: "length (commas sep xs) \<le> sum_list (map (\<lambda>x. length x + 1) xs)"
  by (induction xs rule: induct_list012) auto

lemma length_json_quote: "length (json_quote v) \<le> 6 * length v + 2"
  using length_json_body [of v] by (simp add: json_quote_def)

lemma length_json_text: "length (json_text v) \<le> text_bound v"
proof (induction v)
  case (JArr vs)
  have "sum_list (map (\<lambda>x. length x + 1) (map json_text vs)) \<le> sum_list (map (\<lambda>v. text_bound v + 1) vs)"
    unfolding map_map comp_def by (rule sum_list_mono) (use JArr in simp)
  then show ?case using length_commas [of "CHR '',''" "map json_text vs"] by simp
next
  case (JObj kvs)
  let ?f = "\<lambda>(k, v). json_quote k @ CHR '':'' # json_text v"
  have "length (?f x) + 1 \<le> (case x of (k, v) \<Rightarrow> 6 * length k + text_bound v + 4)" if "x \<in> set kvs" for x
    using JObj.IH [OF that, of "snd x"] length_json_quote [of "fst x"] by (cases x) auto
  then have "sum_list (map (\<lambda>x. length x + 1) (map ?f kvs)) \<le> sum_list (map (\<lambda>(k, v). 6 * length k + text_bound v + 4) kvs)"
    unfolding map_map comp_def by (intro sum_list_mono) simp
  then show ?case using length_commas [of "CHR '',''" "map ?f kvs"] by simp
qed (use length_json_quote in auto)

lemma codec_demo_time: "time_Format 3000 = ''0001-01-01T00:00:00.000003Z''"
  by code_simp

lemma codec_demo_ok: "snapshot_ok (codec_demo 3000)" "typed_snapshot (codec_demo 3000)" "years_ok (codec_demo 3000)"
proof -
  have names: "call_validIdentity ''c''" "call_validOperation ''/s/m''" "call_validIdentity ''i''"
    by (simp_all add: call_validOperation_def call_validIdentity_def HasPrefix_def ascii_eval)
  then show "snapshot_ok (codec_demo 3000)"
    by (simp add: snapshot_ok_def codec_demo_def Status_valid_def validateWorkflowState_def
        normalizeReadyAt_def duration_defs valid_frame_at_def FrameKind_valid_def maxPayloadBytes_def time_IsZero_def)
  show "typed_snapshot (codec_demo 3000)" by (simp add: typed_snapshot_def codec_demo_def gm_wf_def)
  have "time_year 3000 = 1" by code_simp
  then show "years_ok (codec_demo 3000)" by (simp add: years_ok_def codec_demo_def year_ok_def)
qed

lemma codec_demo_marshal: "\<exists>encoded. MarshalSnapshot codec_sha (codec_demo 3000) = Ok encoded"
proof -
  have "text_bound (document_json \<lparr>sd_Version = snapshotCodecVersion, sd_Snapshot = Some (snapshotToWire (codec_demo 3000)),
      sd_Checksum = hex_encode (snapshotChecksum codec_sha snapshotCodecVersion v)\<rparr>) \<le> maxEncodedSnapshotSize" for v
    by (simp add: document_json_def snapshot_json_def snapshot_members_def snapshotToWire_def codec_demo_def frame_json_def
        command_json_def uint_json_def sorted_map_def formatReadyAt_def time_IsZero_def codec_demo_time codec_versions
        workflowToWire_def snapshotChecksum_def codec_sha_def maxEncodedSnapshotSize_def digits.simps)
  then show ?thesis
    using le_trans [OF length_json_text] codec_demo_ok(1)
    by (simp add: MarshalSnapshot_def Let_def validateSnapshot_ok not_less)
qed

theorem snapshot_round_trip_witness:
  "\<exists>encoded. MarshalSnapshot codec_sha (codec_demo 3000) = Ok encoded \<and>
     ParseSnapshot codec_sha encoded = Ok (sorted_snapshot (codec_demo 3000))"
proof -
  obtain encoded where e: "MarshalSnapshot codec_sha (codec_demo 3000) = Ok encoded" using codec_demo_marshal by blast
  show ?thesis using snapshot_round_trip [OF e codec_demo_ok(2)] codec_demo_ok(3) e by (simp add: codec_sha_def)
qed

theorem parsed_snapshot_kept_witness:
  "\<exists>encoded. ParseSnapshot codec_sha encoded = Ok (sorted_snapshot (codec_demo 3000)) \<and>
     validateSnapshot (sorted_snapshot (codec_demo 3000)) = None"
proof -
  obtain encoded where "MarshalSnapshot codec_sha (codec_demo 3000) = Ok encoded" using codec_demo_marshal by blast
  then have p: "ParseSnapshot codec_sha encoded = Ok (sorted_snapshot (codec_demo 3000))"
    using snapshot_parsed [OF _ codec_demo_ok(2)] codec_demo_ok(3) by (simp add: codec_sha_def)
  show ?thesis using parsed_snapshot_kept [OF p] p by (auto simp: codec_sha_def)
qed

end
